theory Spec2Isabelle
  imports Complex_Main "HOL-Library.Monad_Syntax"
begin

section \<open>Asteroids game: a shallow embedding of \<^verbatim>\<open>public/game.js\<close> and the UI helpers\<close>

text \<open>
  Conventions of the embedding.
  \<^item> In the game loop a JavaScript number is a \<^typ>\<open>real\<close>: arithmetic is exact, and
    the values NaN and Infinity are outside the model. Where the rounding of IEEE doubles
    decides a property (the speed of the ship, the coordinates of the minimap), the code is
    modelled a second time in double arithmetic, in the sections on doubles below; there a
    result that is not a finite number is \<open>None\<close>. Counters that only ever hold integers
    (score, lives) are \<^typ>\<open>int\<close>.
  \<^item> A class is a record, a subclass a record extension; a method takes the object and
    returns the updated object.
  \<^item> The global \<^verbatim>\<open>canvas\<close> (the same DOM element as \<^verbatim>\<open>Game.canvas\<close>) is a parameter
    \<open>cv\<close>. Its \<^verbatim>\<open>width\<close> and \<^verbatim>\<open>height\<close> are unsigned integers in the DOM, hence
    \<^typ>\<open>nat\<close>.
  \<^item> \<^verbatim>\<open>Math.random()\<close> is an oracle \<open>rnd :: nat \<Rightarrow> real\<close>: the \<open>n\<close>-th call of a run
    returns \<open>rnd n\<close>; the number of calls made so far is threaded through the code
    as a cursor.
\<close>

subsection \<open>Vector2D\<close>

record Vector2D =
  vec_x :: real
  vec_y :: real

definition Vector2D_new :: "real \<Rightarrow> real \<Rightarrow> Vector2D" where
  "Vector2D_new a b = \<lparr>vec_x = a, vec_y = b\<rparr>"

definition add :: "Vector2D \<Rightarrow> Vector2D \<Rightarrow> Vector2D" where
  "add u v = Vector2D_new (vec_x u + vec_x v) (vec_y u + vec_y v)"

definition multiply :: "Vector2D \<Rightarrow> real \<Rightarrow> Vector2D" where
  "multiply u scalar = Vector2D_new (vec_x u * scalar) (vec_y u * scalar)"

definition magnitude :: "Vector2D \<Rightarrow> real" where
  "magnitude u = sqrt (vec_x u * vec_x u + vec_y u * vec_y u)"

subsection \<open>The canvas\<close>

record Canvas =
  width :: nat
  height :: nat

subsection \<open>GameObject\<close>

record GameObject =
  position :: Vector2D
  velocity :: Vector2D
  rotation :: real
  radius :: real
  active :: bool

text \<open>
  \<^verbatim>\<open>wrapPosition\<close>: four assignments in sequence, each guarded by its own test; the
  second test of a coordinate reads the value the first may have written.
\<close>

definition wrapPosition :: "Canvas \<Rightarrow> 'a GameObject_scheme \<Rightarrow> 'a GameObject_scheme" where
  "wrapPosition cv obj =
     (let p0 = position obj;
          p1 = (if vec_x p0 < 0 then p0\<lparr>vec_x := real (width cv)\<rparr> else p0);
          p2 = (if vec_x p1 > real (width cv) then p1\<lparr>vec_x := 0\<rparr> else p1);
          p3 = (if vec_y p2 < 0 then p2\<lparr>vec_y := real (height cv)\<rparr> else p2);
          p4 = (if vec_y p3 > real (height cv) then p3\<lparr>vec_y := 0\<rparr> else p3)
      in obj\<lparr>position := p4\<rparr>)"

definition GameObject_update :: "Canvas \<Rightarrow> real \<Rightarrow> 'a GameObject_scheme \<Rightarrow> 'a GameObject_scheme" where
  "GameObject_update cv deltaTime obj =
     wrapPosition cv (obj\<lparr>position := add (position obj) (multiply (velocity obj) deltaTime)\<rparr>)"

definition checkCollision :: "'a GameObject_scheme \<Rightarrow> 'b GameObject_scheme \<Rightarrow> bool" where
  "checkCollision this other =
     (let dx = vec_x (position this) - vec_x (position other);
          dy = vec_y (position this) - vec_y (position other);
          distance = sqrt (dx * dx + dy * dy)
      in distance < radius this + radius other)"

subsection \<open>Ship\<close>

record Ship = GameObject +
  thrustPower :: real
  rotationSpeed :: real
  maxSpeed :: real
  invulnerable :: bool
  invulnerableTime :: real

definition Ship_new :: "real \<Rightarrow> real \<Rightarrow> Ship" where
  "Ship_new a b =
     \<lparr>position = Vector2D_new a b, velocity = Vector2D_new 0 0, rotation = 0, radius = 10,
      active = True, thrustPower = 300, rotationSpeed = 5, maxSpeed = 400,
      invulnerable = False, invulnerableTime = 0\<rparr>"

definition thrust :: "bool \<Rightarrow> real \<Rightarrow> Ship \<Rightarrow> Ship" where
  "thrust forward deltaTime s =
     (let direction = Vector2D_new (cos (rotation s)) (sin (rotation s));
          th = multiply direction (thrustPower s * deltaTime * (if forward then 1 else - 0.5));
          s1 = s\<lparr>velocity := add (velocity s) th\<rparr>;
          speed = magnitude (velocity s1)
      in if speed > maxSpeed s1
         then s1\<lparr>velocity := multiply (velocity s1) (maxSpeed s1 / speed)\<rparr>
         else s1)"

definition rotate :: "real \<Rightarrow> real \<Rightarrow> Ship \<Rightarrow> Ship" where
  "rotate direction deltaTime s =
     s\<lparr>rotation := rotation s + direction * rotationSpeed s * deltaTime\<rparr>"

definition Ship_update :: "Canvas \<Rightarrow> real \<Rightarrow> Ship \<Rightarrow> Ship" where
  "Ship_update cv deltaTime s =
     (let s1 = GameObject_update cv deltaTime s;
          s2 = s1\<lparr>velocity := multiply (velocity s1) 0.99\<rparr>
      in if invulnerable s2
         then (let s3 = s2\<lparr>invulnerableTime := invulnerableTime s2 - deltaTime\<rparr>
               in if invulnerableTime s3 \<le> 0 then s3\<lparr>invulnerable := False\<rparr> else s3)
         else s2)"

definition respawn :: "real \<Rightarrow> real \<Rightarrow> Ship \<Rightarrow> Ship" where
  "respawn a b s =
     s\<lparr>position := Vector2D_new a b, velocity := Vector2D_new 0 0, rotation := 0,
       invulnerable := True, invulnerableTime := 3\<rparr>"

subsection \<open>Bullet\<close>

record Bullet = GameObject +
  speed :: real
  lifetime :: real

definition Bullet_new :: "real \<Rightarrow> real \<Rightarrow> real \<Rightarrow> Bullet" where
  "Bullet_new a b rot =
     (let direction = Vector2D_new (cos rot) (sin rot)
      in \<lparr>position = Vector2D_new a b, velocity = multiply direction 600, rotation = 0,
          radius = 2, active = True, speed = 600, lifetime = 1.5\<rparr>)"

definition Bullet_update :: "Canvas \<Rightarrow> real \<Rightarrow> Bullet \<Rightarrow> Bullet" where
  "Bullet_update cv deltaTime b =
     (let b1 = GameObject_update cv deltaTime b;
          b2 = b1\<lparr>lifetime := lifetime b1 - deltaTime\<rparr>
      in if lifetime b2 \<le> 0 then b2\<lparr>active := False\<rparr> else b2)"

subsection \<open>Asteroid\<close>

text \<open>
  The size of an asteroid is a JavaScript string, compared with \<^verbatim>\<open>===\<close> against
  \<^verbatim>\<open>'large'\<close>, \<^verbatim>\<open>'medium'\<close> and \<^verbatim>\<open>'small'\<close>; the last branch of each conditional takes
  every other string. The field is called \<open>asize\<close> (\<open>size\<close> is a constant of HOL), and the
  spin of an asteroid \<open>spinSpeed\<close> (\<^verbatim>\<open>rotationSpeed\<close> in the source, a name the ship has
  taken).
\<close>

record Asteroid = GameObject +
  asize :: string
  spinSpeed :: real
  vertices :: "Vector2D list"

text \<open>
  The constructor draws, in this order: the rotation, the spin, the heading, the number of
  vertices, and one variance per vertex. It returns the asteroid and the advanced cursor.
\<close>

definition Asteroid_new :: "(nat \<Rightarrow> real) \<Rightarrow> real \<Rightarrow> real \<Rightarrow> string \<Rightarrow> nat \<Rightarrow> Asteroid \<times> nat" where
  "Asteroid_new rnd a b sz c =
     (let rad = (if sz = ''large'' then 40 else if sz = ''medium'' then 25 else 15 :: real);
          rot = rnd c * pi * 2;
          spin = (rnd (c + 1) - 0.5) * 2;
          spd = (if sz = ''large'' then 50 else if sz = ''medium'' then 80 else 120 :: real);
          angle = rnd (c + 2) * pi * 2;
          vertexCount = 8 + \<lfloor>rnd (c + 3) * 4\<rfloor>;
          vs = map (\<lambda>i. let ang = (real i / real_of_int vertexCount) * pi * 2;
                              variance = 0.8 + rnd (c + 4 + i) * 0.4
                          in Vector2D_new (cos ang * rad * variance) (sin ang * rad * variance))
                   [0 ..< nat vertexCount]
      in (\<lparr>position = Vector2D_new a b,
           velocity = Vector2D_new (cos angle * spd) (sin angle * spd),
           rotation = rot, radius = rad, active = True,
           asize = sz, spinSpeed = spin, vertices = vs\<rparr>,
          c + 4 + nat vertexCount))"

definition Asteroid_update :: "Canvas \<Rightarrow> real \<Rightarrow> Asteroid \<Rightarrow> Asteroid" where
  "Asteroid_update cv deltaTime a =
     (let a1 = GameObject_update cv deltaTime a
      in a1\<lparr>rotation := rotation a1 + spinSpeed a1 * deltaTime\<rparr>)"

text \<open>
  \<^verbatim>\<open>split\<close>: nothing for a small asteroid, otherwise the loop body runs twice, each run
  constructing one asteroid at the parent's position.
\<close>

definition split :: "(nat \<Rightarrow> real) \<Rightarrow> Asteroid \<Rightarrow> nat \<Rightarrow> Asteroid list \<times> nat" where
  "split rnd a c =
     (if asize a = ''small'' then ([], c)
      else (let newSize = (if asize a = ''large'' then ''medium'' else ''small'');
                (a1, c1) = Asteroid_new rnd (vec_x (position a)) (vec_y (position a)) newSize c;
                (a2, c2) = Asteroid_new rnd (vec_x (position a)) (vec_y (position a)) newSize c1
            in ([a1, a2], c2)))"

subsection \<open>Game\<close>

text \<open>
  The fields of \<^verbatim>\<open>Game\<close> that the simulation reads or writes. The four DOM elements are
  kept as what the code writes into them: the numbers shown, and whether the game-over
  screen carries the class \<^verbatim>\<open>hidden\<close>. \<open>keys\<close> maps a key name to the flag the listeners
  stored; a key never pressed is absent (\<^verbatim>\<open>undefined\<close>, falsy). \<open>cursor\<close> counts the calls
  of \<^verbatim>\<open>Math.random()\<close> made so far.
\<close>

record Game =
  ship :: Ship
  bullets :: "Bullet list"
  asteroids :: "Asteroid list"
  score :: int
  lives :: int
  gameOver :: bool
  canShoot :: bool
  shootCooldown :: real
  keys :: "string \<rightharpoonup> bool"
  scoreElement :: int
  livesElement :: int
  finalScoreElement :: int
  gameOverScreenHidden :: bool
  cursor :: nat

definition pressed :: "Game \<Rightarrow> string \<Rightarrow> bool" where
  "pressed g k = (keys g k = Some True)"

definition updateUI :: "Game \<Rightarrow> Game" where
  "updateUI g = g\<lparr>scoreElement := score g, livesElement := lives g\<rparr>"

definition endGame :: "Game \<Rightarrow> Game" where
  "endGame g = g\<lparr>gameOver := True, finalScoreElement := score g, gameOverScreenHidden := False\<rparr>"

text \<open>
  The \<^verbatim>\<open>do ... while\<close> loop of \<^verbatim>\<open>spawnAsteroids\<close>: draw a point of the canvas, and draw
  again while it is closer than 150 to the ship. Nothing bounds the number of rounds, so
  the loop is a partial function: \<open>None\<close> is the run that never leaves the loop.
\<close>

partial_function (option) spawnPoint ::
  "(nat \<Rightarrow> real) \<Rightarrow> Canvas \<Rightarrow> Vector2D \<Rightarrow> nat \<Rightarrow> (real \<times> real \<times> nat) option" where
  "spawnPoint rnd cv p c =
     (let a = rnd c * real (width cv);
          b = rnd (c + 1) * real (height cv)
      in if sqrt ((a - vec_x p) ^ 2 + (b - vec_y p) ^ 2) < 150
         then spawnPoint rnd cv p (c + 2)
         else Some (a, b, c + 2))"

text \<open>The \<^verbatim>\<open>for\<close> loop of \<^verbatim>\<open>spawnAsteroids\<close>, by the number of rounds left.\<close>

fun spawnAsteroids :: "(nat \<Rightarrow> real) \<Rightarrow> Canvas \<Rightarrow> nat \<Rightarrow> Game \<Rightarrow> Game option" where
  "spawnAsteroids rnd cv 0 g = Some g"
| "spawnAsteroids rnd cv (Suc n) g =
     (case spawnPoint rnd cv (position (ship g)) (cursor g) of
        None \<Rightarrow> None
      | Some (a, b, c) \<Rightarrow>
          (let (ast, c') = Asteroid_new rnd a b ''large'' c
           in spawnAsteroids rnd cv n (g\<lparr>asteroids := asteroids g @ [ast], cursor := c'\<rparr>)))"

definition reset :: "(nat \<Rightarrow> real) \<Rightarrow> Canvas \<Rightarrow> Game \<Rightarrow> Game option" where
  "reset rnd cv g =
     (let g1 = g\<lparr>ship := Ship_new (real (width cv) / 2) (real (height cv) / 2),
                  bullets := [], asteroids := [], score := 0, lives := 5, gameOver := False,
                  canShoot := True, shootCooldown := 0\<rparr>
      in case spawnAsteroids rnd cv 5 g1 of
           None \<Rightarrow> None
         | Some g2 \<Rightarrow> Some ((updateUI g2)\<lparr>gameOverScreenHidden := True\<rparr>))"

text \<open>
  The two listeners of \<^verbatim>\<open>setupEventListeners\<close>; \<open>k\<close> is the key of the event after
  \<^verbatim>\<open>toLowerCase()\<close>.
\<close>

definition keydown :: "(nat \<Rightarrow> real) \<Rightarrow> Canvas \<Rightarrow> string \<Rightarrow> Game \<Rightarrow> Game option" where
  "keydown rnd cv k g =
     (let g1 = g\<lparr>keys := (keys g)(k \<mapsto> True)\<rparr>
      in if k = ''r'' \<and> gameOver g1 then reset rnd cv g1 else Some g1)"

definition keyup :: "string \<Rightarrow> Game \<Rightarrow> Game" where
  "keyup k g = g\<lparr>keys := (keys g)(k \<mapsto> False)\<rparr>"

definition shoot :: "Game \<Rightarrow> Game" where
  "shoot g =
     g\<lparr>bullets := bullets g @
        [Bullet_new (vec_x (position (ship g))) (vec_y (position (ship g))) (rotation (ship g))]\<rparr>"

text \<open>
  \<^verbatim>\<open>handleInput\<close> is a sequence of guarded statements, each a state transformer here:
  \<^item> \<open>onKey k act\<close> is \<^verbatim>\<open>if (this.keys[k]) { act }\<close>, used for the four steering keys;
  \<^item> \<open>trigger\<close> is \<^verbatim>\<open>if (this.keys[' '] && this.canShoot) { this.shoot(); this.canShoot = false; this.shootCooldown = 0.25; }\<close>;
  \<^item> \<open>release\<close> is \<^verbatim>\<open>if (!this.keys[' ']) { this.canShoot = true; }\<close>;
  \<^item> \<open>cool\<close> is the last statement, which runs the cooldown down.
\<close>

definition onKey :: "string \<Rightarrow> (Game \<Rightarrow> Game) \<Rightarrow> Game \<Rightarrow> Game" where
  "onKey k act g = (if pressed g k then act g else g)"

definition trigger :: "Game \<Rightarrow> Game" where
  "trigger g =
     (if pressed g '' '' \<and> canShoot g
      then (shoot g)\<lparr>canShoot := False, shootCooldown := 0.25\<rparr>
      else g)"

definition release :: "Game \<Rightarrow> Game" where
  "release g = (if \<not> pressed g '' '' then g\<lparr>canShoot := True\<rparr> else g)"

definition cool :: "real \<Rightarrow> Game \<Rightarrow> Game" where
  "cool deltaTime g =
     (if shootCooldown g > 0
      then (let g1 = g\<lparr>shootCooldown := shootCooldown g - deltaTime\<rparr>
            in if shootCooldown g1 \<le> 0 then g1\<lparr>canShoot := True\<rparr> else g1)
      else g)"

definition handleInput :: "real \<Rightarrow> Game \<Rightarrow> Game" where
  "handleInput deltaTime g =
     (if gameOver g then g
      else
        (let g1 = onKey ''w'' (\<lambda>h. h\<lparr>ship := thrust True deltaTime (ship h)\<rparr>) g;
             g2 = onKey ''s'' (\<lambda>h. h\<lparr>ship := thrust False deltaTime (ship h)\<rparr>) g1;
             g3 = onKey ''a'' (\<lambda>h. h\<lparr>ship := rotate (- 1) deltaTime (ship h)\<rparr>) g2;
             g4 = onKey ''d'' (\<lambda>h. h\<lparr>ship := rotate 1 deltaTime (ship h)\<rparr>) g3;
             g5 = trigger g4;
             g6 = release g5
         in cool deltaTime g6))"

text \<open>\<^verbatim>\<open>xs.splice(i, 1)\<close>: the list without its element at index \<open>i\<close>.\<close>

definition splice1 :: "nat \<Rightarrow> 'a list \<Rightarrow> 'a list" where
  "splice1 i xs = take i xs @ drop (Suc i) xs"

text \<open>
  The inner loop of \<^verbatim>\<open>checkCollisions\<close> runs \<open>j\<close> from the last asteroid down to the
  first and leaves at the first asteroid that the bullet touches: \<open>hitIndex b as n\<close> is
  that index among the first \<open>n\<close> asteroids, if there is one.
\<close>

fun hitIndex :: "Bullet \<Rightarrow> Asteroid list \<Rightarrow> nat \<Rightarrow> nat option" where
  "hitIndex b as 0 = None"
| "hitIndex b as (Suc j) = (if checkCollision b (as ! j) then Some j else hitIndex b as j)"

text \<open>What the inner loop does at a hit: bullet \<open>i\<close> meets asteroid \<open>j\<close>.\<close>

definition destroy :: "(nat \<Rightarrow> real) \<Rightarrow> nat \<Rightarrow> nat \<Rightarrow> Game \<Rightarrow> Game" where
  "destroy rnd i j g =
     (let asteroid = asteroids g ! j;
          g1 = g\<lparr>bullets := splice1 i (bullets g)\<rparr>;
          (newAsteroids, c) = split rnd asteroid (cursor g1);
          g2 = g1\<lparr>asteroids := splice1 j (asteroids g1), cursor := c\<rparr>;
          g3 = g2\<lparr>asteroids := asteroids g2 @ newAsteroids\<rparr>;
          g4 = g3\<lparr>score := score g3 +
                 (if asize asteroid = ''large'' then 20
                  else if asize asteroid = ''medium'' then 50 else 100)\<rparr>
      in updateUI g4)"

text \<open>One round of the outer loop, for the bullet at index \<open>i\<close>.\<close>

definition bulletStep :: "(nat \<Rightarrow> real) \<Rightarrow> nat \<Rightarrow> Game \<Rightarrow> Game" where
  "bulletStep rnd i g =
     (case hitIndex (bullets g ! i) (asteroids g) (length (asteroids g)) of
        None \<Rightarrow> g
      | Some j \<Rightarrow> destroy rnd i j g)"

text \<open>
  The outer loop, \<open>i\<close> from the last bullet down to the first: \<open>bulletLoop rnd n g\<close> runs
  the rounds \<open>n - 1, \<dots>, 0\<close>. A round removes at most the bullet at its own index, so the
  bullets below it are the ones the loop started with, and the index of a round is always
  that of a bullet (\<open>bulletLoop_lengths\<close> below carries this bound through the loop).
\<close>

fun bulletLoop :: "(nat \<Rightarrow> real) \<Rightarrow> nat \<Rightarrow> Game \<Rightarrow> Game" where
  "bulletLoop rnd 0 g = g"
| "bulletLoop rnd (Suc i) g = bulletLoop rnd i (bulletStep rnd i g)"

text \<open>The second half of \<^verbatim>\<open>checkCollisions\<close>: the ship against the asteroids.\<close>

definition shipCollisions :: "Canvas \<Rightarrow> Game \<Rightarrow> Game" where
  "shipCollisions cv g =
     (if \<not> invulnerable (ship g)
      then (case find (checkCollision (ship g)) (asteroids g) of
              None \<Rightarrow> g
            | Some asteroid \<Rightarrow>
                (let g1 = updateUI (g\<lparr>lives := lives g - 1\<rparr>)
                 in if lives g1 \<le> 0 then endGame g1
                    else g1\<lparr>ship := respawn (real (width cv) / 2) (real (height cv) / 2) (ship g1)\<rparr>))
      else g)"

definition checkCollisions :: "(nat \<Rightarrow> real) \<Rightarrow> Canvas \<Rightarrow> Game \<Rightarrow> Game" where
  "checkCollisions rnd cv g = shipCollisions cv (bulletLoop rnd (length (bullets g)) g)"

text \<open>
  \<^verbatim>\<open>Game.update\<close> up to and including \<^verbatim>\<open>checkCollisions\<close> (for a game that is not over),
  and the whole method, which ends with the spawning of a new wave. \<open>waveSize\<close> is the
  argument \<^verbatim>\<open>Math.min(7, 5 + Math.floor(this.score / 1000))\<close> of that call; the loop
  \<^verbatim>\<open>for (let i = 0; i < count; i++)\<close> makes \<open>count\<close> rounds, and none for a \<open>count\<close> below
  one, hence \<open>nat\<close>.
\<close>

definition advance :: "(nat \<Rightarrow> real) \<Rightarrow> Canvas \<Rightarrow> real \<Rightarrow> Game \<Rightarrow> Game" where
  "advance rnd cv deltaTime g =
     (let g1 = handleInput deltaTime g;
          g2 = g1\<lparr>ship := Ship_update cv deltaTime (ship g1)\<rparr>;
          g3 = g2\<lparr>bullets := filter active (map (Bullet_update cv deltaTime) (bullets g2))\<rparr>;
          g4 = g3\<lparr>asteroids := map (Asteroid_update cv deltaTime) (asteroids g3)\<rparr>
      in checkCollisions rnd cv g4)"

definition waveSize :: "int \<Rightarrow> int" where
  "waveSize sc = min 7 (5 + \<lfloor>real_of_int sc / 1000\<rfloor>)"

definition update :: "(nat \<Rightarrow> real) \<Rightarrow> Canvas \<Rightarrow> real \<Rightarrow> Game \<Rightarrow> Game option" where
  "update rnd cv deltaTime g =
     (if gameOver g then Some g
      else (let g5 = advance rnd cv deltaTime g
            in if length (asteroids g5) = 0
               then spawnAsteroids rnd cv (nat (waveSize (score g5))) g5
               else Some g5))"

subsection \<open>Double arithmetic\<close>

text \<open>
  The numbers of JavaScript are IEEE 754 binary64 values. A finite double is a real number
  \<open>m * 2 ^ e\<close> with \<open>\<bar>m\<bar> < 2 ^ 53\<close> and \<open>- 1074 \<le> e\<close>, of absolute value below \<open>2 ^ 1024\<close>,
  and every arithmetic operation returns its exact result rounded to the nearest double,
  ties to the even significand.

  \<^item> \<open>rne y\<close> is the integer nearest to \<open>y\<close>, the even one of the two at a tie.
  \<^item> \<open>expo z\<close> is the exponent of the binade of \<open>z\<close>, not below \<open>- 1022\<close> (the subnormal
    numbers share the exponent of the smallest normal ones), and \<open>ulp z\<close> the distance
    between neighbouring doubles there.
  \<^item> \<open>fl z\<close> is \<open>z\<close> rounded to a multiple of \<open>ulp z\<close>.
  \<^item> \<open>dbl z\<close> is the result of an operation whose exact result is \<open>z\<close>: \<open>fl z\<close>, or \<open>None\<close>
    when the rounded value is \<open>2 ^ 1024\<close> or more in absolute value, where JavaScript
    returns \<^verbatim>\<open>Infinity\<close>.

  The operations \<^verbatim>\<open>+\<close>, \<^verbatim>\<open>-\<close>, \<^verbatim>\<open>*\<close>, \<^verbatim>\<open>/\<close> and \<^verbatim>\<open>Math.sqrt\<close> follow; a division by zero
  and the square root of a negative number, \<^verbatim>\<open>Infinity\<close> or \<^verbatim>\<open>NaN\<close> in JavaScript, are
  \<open>None\<close>. The two zeros of IEEE 754 are one number here.
\<close>

definition rne :: "real \<Rightarrow> int" where
  "rne y =
     (let f = \<lfloor>y\<rfloor>; r = y - of_int f
      in if r < 1 / 2 then f else if 1 / 2 < r then f + 1 else if even f then f else f + 1)"

definition expo :: "real \<Rightarrow> int" where
  "expo z = max \<lfloor>log 2 \<bar>z\<bar>\<rfloor> (- 1022)"

definition ulp :: "real \<Rightarrow> real" where
  "ulp z = 2 powi (expo z - 52)"

definition fl :: "real \<Rightarrow> real" where
  "fl z = (if z = 0 then 0 else ulp z * of_int (rne (z / ulp z)))"

definition dbl :: "real \<Rightarrow> real option" where
  "dbl z = (if \<bar>fl z\<bar> < 2 ^ 1024 then Some (fl z) else None)"

definition plusD :: "real \<Rightarrow> real \<Rightarrow> real option" where
  "plusD a b = dbl (a + b)"

definition minusD :: "real \<Rightarrow> real \<Rightarrow> real option" where
  "minusD a b = dbl (a - b)"

definition timesD :: "real \<Rightarrow> real \<Rightarrow> real option" where
  "timesD a b = dbl (a * b)"

definition divideD :: "real \<Rightarrow> real \<Rightarrow> real option" where
  "divideD a b = (if b = 0 then None else dbl (a / b))"

definition sqrtD :: "real \<Rightarrow> real option" where
  "sqrtD a = (if a < 0 then None else dbl (sqrt a))"

subsection \<open>The ship in double arithmetic\<close>

text \<open>
  The methods of \<^verbatim>\<open>Vector2D\<close> and \<^verbatim>\<open>Ship\<close> once more, with every arithmetic operation
  rounded as JavaScript rounds it, in the order of evaluation of the source. The records
  are those of the game; a comparison or an assignment is exact, so \<^verbatim>\<open>wrapPosition\<close> and
  \<^verbatim>\<open>respawn\<close> are as above. \<^verbatim>\<open>Math.cos\<close> and \<^verbatim>\<open>Math.sin\<close> are approximations that the
  language leaves to the engine: they are the parameters \<open>cosD\<close> and \<open>sinD\<close>. The literal
  \<^verbatim>\<open>0.99\<close> is the double nearest to it, \<open>fl 0.99\<close>; \<^verbatim>\<open>1\<close> and \<^verbatim>\<open>-0.5\<close> are doubles.
\<close>

definition addD :: "Vector2D \<Rightarrow> Vector2D \<Rightarrow> Vector2D option" where
  "addD u v =
     do { a \<leftarrow> plusD (vec_x u) (vec_x v);
          b \<leftarrow> plusD (vec_y u) (vec_y v);
          Some (Vector2D_new a b) }"

definition multiplyD :: "Vector2D \<Rightarrow> real \<Rightarrow> Vector2D option" where
  "multiplyD u scalar =
     do { a \<leftarrow> timesD (vec_x u) scalar;
          b \<leftarrow> timesD (vec_y u) scalar;
          Some (Vector2D_new a b) }"

definition magnitudeD :: "Vector2D \<Rightarrow> real option" where
  "magnitudeD u =
     do { xx \<leftarrow> timesD (vec_x u) (vec_x u);
          yy \<leftarrow> timesD (vec_y u) (vec_y u);
          sm \<leftarrow> plusD xx yy;
          sqrtD sm }"

definition GameObject_updateD ::
  "Canvas \<Rightarrow> real \<Rightarrow> 'a GameObject_scheme \<Rightarrow> 'a GameObject_scheme option" where
  "GameObject_updateD cv deltaTime obj =
     do { step \<leftarrow> multiplyD (velocity obj) deltaTime;
          p \<leftarrow> addD (position obj) step;
          Some (wrapPosition cv (obj\<lparr>position := p\<rparr>)) }"

definition thrustD :: "(real \<Rightarrow> real) \<Rightarrow> (real \<Rightarrow> real) \<Rightarrow> bool \<Rightarrow> real \<Rightarrow> Ship \<Rightarrow> Ship option" where
  "thrustD cosD sinD forward deltaTime s =
     do { t0 \<leftarrow> timesD (thrustPower s) deltaTime;
          t1 \<leftarrow> timesD t0 (if forward then 1 else - 0.5);
          th \<leftarrow> multiplyD (Vector2D_new (cosD (rotation s)) (sinD (rotation s))) t1;
          v \<leftarrow> addD (velocity s) th;
          speed \<leftarrow> magnitudeD v;
          if speed > maxSpeed s
          then do { k \<leftarrow> divideD (maxSpeed s) speed;
                    w \<leftarrow> multiplyD v k;
                    Some (s\<lparr>velocity := w\<rparr>) }
          else Some (s\<lparr>velocity := v\<rparr>) }"

definition rotateD :: "real \<Rightarrow> real \<Rightarrow> Ship \<Rightarrow> Ship option" where
  "rotateD direction deltaTime s =
     do { t0 \<leftarrow> timesD direction (rotationSpeed s);
          t1 \<leftarrow> timesD t0 deltaTime;
          r \<leftarrow> plusD (rotation s) t1;
          Some (s\<lparr>rotation := r\<rparr>) }"

definition Ship_updateD :: "Canvas \<Rightarrow> real \<Rightarrow> Ship \<Rightarrow> Ship option" where
  "Ship_updateD cv deltaTime s =
     do { s1 \<leftarrow> GameObject_updateD cv deltaTime s;
          v \<leftarrow> multiplyD (velocity s1) (fl 0.99);
          let s2 = s1\<lparr>velocity := v\<rparr>;
          if invulnerable s2
          then do { t \<leftarrow> minusD (invulnerableTime s2) deltaTime;
                    let s3 = s2\<lparr>invulnerableTime := t\<rparr>;
                    Some (if invulnerableTime s3 \<le> 0 then s3\<lparr>invulnerable := False\<rparr> else s3) }
          else Some s2 }"

subsection \<open>Minimap coordinates\<close>

text \<open>
  Of \<^verbatim>\<open>Minimap\<close> (\<^verbatim>\<open>src/ui/Minimap.js\<close>), the geometry: the size and margin of the
  square, its corner on the canvas (\<^verbatim>\<open>this.x\<close>, \<^verbatim>\<open>this.y\<close>, here \<open>corner_x\<close> and
  \<open>corner_y\<close>) and the two scale factors. The colours, the density grid and the
  listeners play no part in the coordinate conversions. \<^verbatim>\<open>gameWorld\<close> is given by its
  width and height; a point \<^verbatim>\<open>{x, y}\<close> is a pair. The arithmetic is that of doubles, each
  operation rounded, in the order in which JavaScript evaluates the expressions.
\<close>

record Minimap =
  msize :: real
  margin :: real
  corner_x :: real
  corner_y :: real
  scaleX :: real
  scaleY :: real

definition Minimap_new :: "Canvas \<Rightarrow> real \<Rightarrow> real \<Rightarrow> Minimap option" where
  "Minimap_new cv worldWidth worldHeight =
     do { x0 \<leftarrow> minusD (real (width cv)) 200;
          x1 \<leftarrow> minusD x0 20;
          y0 \<leftarrow> minusD (real (height cv)) 200;
          y1 \<leftarrow> minusD y0 20;
          sx \<leftarrow> divideD 200 worldWidth;
          sy \<leftarrow> divideD 200 worldHeight;
          Some \<lparr>msize = 200, margin = 20, corner_x = x1, corner_y = y1,
                scaleX = sx, scaleY = sy\<rparr> }"

definition worldToMinimap :: "Minimap \<Rightarrow> real \<Rightarrow> real \<Rightarrow> (real \<times> real) option" where
  "worldToMinimap m worldX worldY =
     do { px \<leftarrow> timesD worldX (scaleX m);
          a \<leftarrow> plusD (corner_x m) px;
          py \<leftarrow> timesD worldY (scaleY m);
          b \<leftarrow> plusD (corner_y m) py;
          Some (a, b) }"

definition minimapToWorld :: "Minimap \<Rightarrow> real \<Rightarrow> real \<Rightarrow> (real \<times> real) option" where
  "minimapToWorld m minimapX minimapY =
     do { dx \<leftarrow> minusD minimapX (corner_x m);
          a \<leftarrow> divideD dx (scaleX m);
          dy \<leftarrow> minusD minimapY (corner_y m);
          b \<leftarrow> divideD dy (scaleY m);
          Some (a, b) }"

definition updatePosition :: "real \<Rightarrow> real \<Rightarrow> Minimap \<Rightarrow> Minimap option" where
  "updatePosition canvasWidth canvasHeight m =
     do { x0 \<leftarrow> minusD canvasWidth (msize m);
          x1 \<leftarrow> minusD x0 (margin m);
          y0 \<leftarrow> minusD canvasHeight (msize m);
          y1 \<leftarrow> minusD y0 (margin m);
          Some (m\<lparr>corner_x := x1, corner_y := y1\<rparr>) }"

subsection \<open>UIManager: the message queue\<close>

text \<open>
  Of \<^verbatim>\<open>UIManager\<close>, the message system: the queue \<^verbatim>\<open>messages\<close>, the history, the cap
  \<^verbatim>\<open>maxMessages\<close>, \<^verbatim>\<open>messageDuration\<close>, and the texts mirrored into
  \<^verbatim>\<open>gameState.messages\<close>. A message is the object literal of \<^verbatim>\<open>showMessage\<close> (its fields
  \<^verbatim>\<open>text\<close> and \<^verbatim>\<open>type\<close> are \<open>msg_text\<close> and \<open>msg_type\<close> here); a history entry is a copy of
  the message with its duration. \<^verbatim>\<open>Date.now()\<close> is the parameter \<open>now\<close>; the default
  values of \<^verbatim>\<open>duration\<close> and \<^verbatim>\<open>type\<close> are for the caller to pass.
\<close>

record Message =
  msg_text :: string
  timeLeft :: real
  msg_type :: string
  timestamp :: real

record HistoryEntry = Message +
  duration :: real

record UIManager =
  messages :: "Message list"
  messageHistory :: "HistoryEntry list"
  maxMessages :: nat
  messageDuration :: real
  gameState_messages :: "string list"

text \<open>
  The constructor; \<open>shown\<close> is \<^verbatim>\<open>gameState.messages\<close> as the constructor finds it, \<open>None\<close>
  when it is missing.
\<close>

definition UIManager_new :: "string list option \<Rightarrow> UIManager" where
  "UIManager_new shown =
     \<lparr>messages = [], messageHistory = [], maxMessages = 3, messageDuration = 3000,
      gameState_messages = (case shown of None \<Rightarrow> [] | Some ts \<Rightarrow> ts)\<rparr>"

text \<open>
  \<^verbatim>\<open>updateMessages\<close>: the callback of \<^verbatim>\<open>filter\<close> first takes \<open>deltaTime\<close> off the time of
  the message, then keeps the message if time is left.
\<close>

definition updateMessages :: "real \<Rightarrow> UIManager \<Rightarrow> UIManager" where
  "updateMessages deltaTime u =
     (let ms = filter (\<lambda>m. timeLeft m > 0)
                 (map (\<lambda>m. m\<lparr>timeLeft := timeLeft m - deltaTime\<rparr>) (messages u))
      in u\<lparr>messages := ms, gameState_messages := map msg_text ms\<rparr>)"

definition showMessage :: "string \<Rightarrow> real \<Rightarrow> string \<Rightarrow> real \<Rightarrow> UIManager \<Rightarrow> UIManager" where
  "showMessage tx dur ty now u =
     (let message = \<lparr>msg_text = tx, timeLeft = dur, msg_type = ty, timestamp = now\<rparr>;
          u1 = u\<lparr>messages := messages u @ [message]\<rparr>;
          u2 = u1\<lparr>messageHistory := messageHistory u1 @
                 [\<lparr>msg_text = tx, timeLeft = dur, msg_type = ty, timestamp = now,
                   duration = dur\<rparr>]\<rparr>
      in if length (messages u2) > maxMessages u2
         then u2\<lparr>messages := tl (messages u2)\<rparr>
         else u2)"

definition UIManager_reset :: "UIManager \<Rightarrow> UIManager" where
  "UIManager_reset u = u\<lparr>messages := [], messageHistory := [], gameState_messages := []\<rparr>"

section \<open>Predicates, operation sequences and concrete inputs\<close>

definition onCanvas :: "Canvas \<Rightarrow> 'a GameObject_scheme \<Rightarrow> bool" where
  "onCanvas cv obj =
     (0 \<le> vec_x (position obj) \<and> vec_x (position obj) \<le> real (width cv) \<and>
      0 \<le> vec_y (position obj) \<and> vec_y (position obj) \<le> real (height cv))"

text \<open>
  Concrete inputs for the examples below: a source of random numbers that always
  returns \<open>0\<close>, and the asteroid the constructor builds from it.
\<close>

definition rnd0 :: "nat \<Rightarrow> real" where
  "rnd0 n = 0"

definition rock :: "string \<Rightarrow> real \<Rightarrow> real \<Rightarrow> Asteroid" where
  "rock sz a b = fst (Asteroid_new rnd0 a b sz 0)"

text \<open>
  The methods of \<^verbatim>\<open>Ship\<close> as operations, and a run of operations on a ship in double
  arithmetic: the run is \<open>None\<close> when an intermediate result is not a finite number.
  \<open>cosR\<close> and \<open>sinR\<close> are the correctly rounded cosine and sine, one admissible
  \<^verbatim>\<open>Math.cos\<close> and \<^verbatim>\<open>Math.sin\<close>. A ship is \<open>nearMaxSpeed\<close> when its speed, the exact
  length of its velocity, exceeds \<open>maxSpeed = 400\<close> by at most the factor \<open>1 + 1 / 2 ^ 50\<close>.
\<close>

datatype ShipOp =
  Thrust bool real
| Rotate real real
| Update real
| Respawn real real

fun shipOpD :: "(real \<Rightarrow> real) \<Rightarrow> (real \<Rightarrow> real) \<Rightarrow> Canvas \<Rightarrow> ShipOp \<Rightarrow> Ship \<Rightarrow> Ship option" where
  "shipOpD cosD sinD cv (Thrust forward deltaTime) s = thrustD cosD sinD forward deltaTime s"
| "shipOpD cosD sinD cv (Rotate direction deltaTime) s = rotateD direction deltaTime s"
| "shipOpD cosD sinD cv (Update deltaTime) s = Ship_updateD cv deltaTime s"
| "shipOpD cosD sinD cv (Respawn a b) s = Some (respawn a b s)"

fun shipOpsD :: "(real \<Rightarrow> real) \<Rightarrow> (real \<Rightarrow> real) \<Rightarrow> Canvas \<Rightarrow> ShipOp list \<Rightarrow> Ship \<Rightarrow> Ship option" where
  "shipOpsD cosD sinD cv [] s = Some s"
| "shipOpsD cosD sinD cv (op # ops) s =
     (case shipOpD cosD sinD cv op s of
        None \<Rightarrow> None
      | Some s1 \<Rightarrow> shipOpsD cosD sinD cv ops s1)"

definition cosR :: "real \<Rightarrow> real" where
  "cosR r = fl (cos r)"

definition sinR :: "real \<Rightarrow> real" where
  "sinR r = fl (sin r)"

definition nearMaxSpeed :: "Ship \<Rightarrow> bool" where
  "nearMaxSpeed s = (maxSpeed s = 400 \<and> magnitude (velocity s) \<le> 400 * (1 + 1 / 2 ^ 50))"

text \<open>
  The ship that \<^verbatim>\<open>new Ship(400, 300)\<close> and \<^verbatim>\<open>thrust(true, 1.9375)\<close> produce: its velocity
  is \<open>(400 + 1 / 2 ^ 44, 0)\<close>.
\<close>

definition shipFast :: Ship where
  "shipFast = (Ship_new 400 300)\<lparr>velocity := Vector2D_new (7036874417766401 / 2 ^ 44) 0\<rparr>"

text \<open>The three methods that write the queue, as operations, and a run of them.\<close>

datatype UIOp =
  ShowMessage string real string real
| UpdateMessages real
| ResetUI

fun uiOp :: "UIOp \<Rightarrow> UIManager \<Rightarrow> UIManager" where
  "uiOp (ShowMessage tx dur ty now) u = showMessage tx dur ty now u"
| "uiOp (UpdateMessages deltaTime) u = updateMessages deltaTime u"
| "uiOp ResetUI u = UIManager_reset u"

definition withinCap :: "UIManager \<Rightarrow> bool" where
  "withinCap u = (maxMessages u = 3 \<and> length (messages u) \<le> maxMessages u)"

text \<open>
  The events a game receives: an animation frame (a call of \<^verbatim>\<open>update\<close>), a key going
  down, a key going up. A run of events stops with \<open>None\<close> where a spawning loop never
  returns.
\<close>

datatype GameEvent =
  Frame real
| KeyDown string
| KeyUp string

fun gameEvent :: "(nat \<Rightarrow> real) \<Rightarrow> Canvas \<Rightarrow> GameEvent \<Rightarrow> Game \<Rightarrow> Game option" where
  "gameEvent rnd cv (Frame deltaTime) g = update rnd cv deltaTime g"
| "gameEvent rnd cv (KeyDown k) g = keydown rnd cv k g"
| "gameEvent rnd cv (KeyUp k) g = Some (keyup k g)"

fun gameEvents :: "(nat \<Rightarrow> real) \<Rightarrow> Canvas \<Rightarrow> GameEvent list \<Rightarrow> Game \<Rightarrow> Game option" where
  "gameEvents rnd cv [] g = Some g"
| "gameEvents rnd cv (e # es) g =
     (case gameEvent rnd cv e g of None \<Rightarrow> None | Some g1 \<Rightarrow> gameEvents rnd cv es g1)"

text \<open>
  A canvas of 800 by 600 and a game on it: the ship at rest in the centre, no bullet, no
  asteroid, no key pressed.
\<close>

definition cv0 :: Canvas where
  "cv0 = \<lparr>width = 800, height = 600\<rparr>"

definition game0 :: Game where
  "game0 =
     \<lparr>ship = Ship_new 400 300, bullets = [], asteroids = [], score = 0, lives = 5,
      gameOver = False, canShoot = True, shootCooldown = 0, keys = Map.empty,
      scoreElement = 0, livesElement = 5, finalScoreElement = 0,
      gameOverScreenHidden = True, cursor = 0\<rparr>"

text \<open>
  The three middle statements of \<^verbatim>\<open>update\<close>, which move the ship, the bullets and the
  asteroids, as one transformer.
\<close>

definition moved :: "Canvas \<Rightarrow> real \<Rightarrow> Game \<Rightarrow> Game" where
  "moved cv deltaTime g =
     g\<lparr>ship := Ship_update cv deltaTime (ship g),
       bullets := filter active (map (Bullet_update cv deltaTime) (bullets g)),
       asteroids := map (Asteroid_update cv deltaTime) (asteroids g)\<rparr>"

text \<open>
  \<open>game0\<close> with a large asteroid on top of the ship, and the same game with the ship
  invulnerable.
\<close>

definition gameHit :: Game where
  "gameHit = game0\<lparr>asteroids := [rock ''large'' 400 300]\<rparr>"

definition gameShielded :: Game where
  "gameShielded = gameHit\<lparr>ship := (ship gameHit)\<lparr>invulnerable := True, invulnerableTime := 3\<rparr>\<rparr>"

text \<open>
  \<open>game0\<close> after it is over; and \<open>gameShot sz\<close>, in which one bullet sits on an asteroid
  of size \<open>sz\<close>, far from the ship.
\<close>

definition gameEnded :: Game where
  "gameEnded = game0\<lparr>gameOver := True\<rparr>"

definition gameShot :: "string \<Rightarrow> Game" where
  "gameShot sz = game0\<lparr>bullets := [Bullet_new 100 100 0], asteroids := [rock sz 100 100]\<rparr>"

text \<open>
  \<open>farFrom p a b\<close> is the condition on which the \<^verbatim>\<open>do ... while\<close> loop of
  \<^verbatim>\<open>spawnAsteroids\<close> ends: the point \<open>(a, b)\<close> is not closer than 150 to \<open>p\<close>. The source
  of random numbers \<open>keepsFar\<close> from \<open>p\<close> when, from every cursor on, some later round of
  the loop draws such a point.
\<close>

definition farFrom :: "Vector2D \<Rightarrow> real \<Rightarrow> real \<Rightarrow> bool" where
  "farFrom p a b = (\<not> sqrt ((a - vec_x p) ^ 2 + (b - vec_y p) ^ 2) < 150)"

definition keepsFar :: "(nat \<Rightarrow> real) \<Rightarrow> Canvas \<Rightarrow> Vector2D \<Rightarrow> bool" where
  "keepsFar rnd cv p =
     (\<forall>c. \<exists>k. farFrom p (rnd (c + 2 * k) * real (width cv))
                         (rnd (c + 2 * k + 1) * real (height cv)))"

text \<open>What claim C3 says of an asteroid of a new wave, when the ship is at \<open>p\<close>.\<close>

definition freshWave :: "Vector2D \<Rightarrow> Asteroid \<Rightarrow> bool" where
  "freshWave p a =
     (asize a = ''large'' \<and>
      150 \<le> sqrt ((vec_x (position a) - vec_x p) ^ 2 + (vec_y (position a) - vec_y p) ^ 2))"

text \<open>
  What holds of every game that \<^verbatim>\<open>reset\<close> and the events produce: the score is not
  negative, and every asteroid has one of the three sizes.
\<close>

definition knownSize :: "Asteroid \<Rightarrow> bool" where
  "knownSize a = (asize a = ''large'' \<or> asize a = ''medium'' \<or> asize a = ''small'')"

definition gameInv :: "Game \<Rightarrow> bool" where
  "gameInv g = (0 \<le> score g \<and> list_all knownSize (asteroids g))"

text \<open>
  The destructions of the bullet loop of \<^verbatim>\<open>checkCollisions\<close>, in the order in which they
  happen: \<open>hits rnd n g\<close> follows the rounds \<open>n - 1\<close>, ..., \<open>0\<close> from the game \<open>g\<close> and records,
  for each round in which the inner loop finds an asteroid, the index of the bullet and
  the asteroid found. It is a trace of the loop, not part of the program.
  \<open>survivors H n bs\<close> are the elements of \<open>bs\<close> at the indices below \<open>n\<close> that do not occur in
  \<open>H\<close>; \<open>smallHits\<close> and \<open>splitHits\<close> count the destroyed asteroids that were small, and
  those that were not.
\<close>

fun hits :: "(nat \<Rightarrow> real) \<Rightarrow> nat \<Rightarrow> Game \<Rightarrow> (nat \<times> Asteroid) list" where
  "hits rnd 0 g = []"
| "hits rnd (Suc i) g =
     (case hitIndex (bullets g ! i) (asteroids g) (length (asteroids g)) of
        None \<Rightarrow> []
      | Some j \<Rightarrow> [(i, asteroids g ! j)]) @ hits rnd i (bulletStep rnd i g)"

definition survivors :: "(nat \<times> Asteroid) list \<Rightarrow> nat \<Rightarrow> 'a list \<Rightarrow> 'a list" where
  "survivors H n bs = map ((!) bs) (filter (\<lambda>i. i \<notin> fst ` set H) [0..<n])"

definition smallHits :: "(nat \<times> Asteroid) list \<Rightarrow> nat" where
  "smallHits H = length (filter (\<lambda>h. asize (snd h) = ''small'') H)"

definition splitHits :: "(nat \<times> Asteroid) list \<Rightarrow> nat" where
  "splitHits H = length (filter (\<lambda>h. asize (snd h) \<noteq> ''small'') H)"

text \<open>Two bullets on one large asteroid.\<close>

definition gameVolley :: Game where
  "gameVolley = game0\<lparr>bullets := [Bullet_new 100 100 0, Bullet_new 100 100 0],
           asteroids := [rock ''large'' 100 100]\<rparr>"

text \<open>
  The two round trips between world and minimap coordinates, and the minimap of a canvas of
  800 by 600 in a world of 1600 by 1200: its vertical scale is the double nearest to
  \<open>1 / 6\<close>.
\<close>

definition worldRoundTrip :: "Minimap \<Rightarrow> real \<Rightarrow> real \<Rightarrow> (real \<times> real) option" where
  "worldRoundTrip m x y = do { (a, b) \<leftarrow> worldToMinimap m x y; minimapToWorld m a b }"

definition minimapRoundTrip :: "Minimap \<Rightarrow> real \<Rightarrow> real \<Rightarrow> (real \<times> real) option" where
  "minimapRoundTrip m x y = do { (a, b) \<leftarrow> minimapToWorld m x y; worldToMinimap m a b }"

definition minimap0 :: Minimap where
  "minimap0 = \<lparr>msize = 200, margin = 20, corner_x = 580, corner_y = 380,
               scaleX = 1 / 8, scaleY = 6004799503160661 / 2 ^ 55\<rparr>"

section \<open>Properties\<close>

subsection \<open>Screen wrap\<close>

lemma wrapPosition_x:
  "0 \<le> vec_x (position (wrapPosition cv obj)) \<and>
   vec_x (position (wrapPosition cv obj)) \<le> real (width cv)"
  by (simp add: wrapPosition_def Let_def)

lemma wrapPosition_y:
  "0 \<le> vec_y (position (wrapPosition cv obj)) \<and>
   vec_y (position (wrapPosition cv obj)) \<le> real (height cv)"
  by (simp add: wrapPosition_def Let_def)

lemma onCanvas_wrapPosition: "onCanvas cv (wrapPosition cv obj)"
  unfolding onCanvas_def using wrapPosition_x [of cv obj] wrapPosition_y [of cv obj] by simp

lemma onCanvas_GameObject_update: "onCanvas cv (GameObject_update cv deltaTime obj)"
  unfolding GameObject_update_def by (rule onCanvas_wrapPosition)

lemma onCanvas_Ship_update: "onCanvas cv (Ship_update cv deltaTime s)"
proof -
  have "onCanvas cv (GameObject_update cv deltaTime s)"
    by (rule onCanvas_GameObject_update)
  then show ?thesis
    by (simp add: Ship_update_def Let_def onCanvas_def)
qed

lemma onCanvas_Bullet_update: "onCanvas cv (Bullet_update cv deltaTime b)"
proof -
  have "onCanvas cv (GameObject_update cv deltaTime b)"
    by (rule onCanvas_GameObject_update)
  then show ?thesis
    by (simp add: Bullet_update_def Let_def onCanvas_def)
qed

lemma onCanvas_Asteroid_update: "onCanvas cv (Asteroid_update cv deltaTime a)"
proof -
  have "onCanvas cv (GameObject_update cv deltaTime a)"
    by (rule onCanvas_GameObject_update)
  then show ?thesis
    by (simp add: Asteroid_update_def Let_def onCanvas_def)
qed

text \<open>
  Claim C5. Whatever the object, its position \<open>p\<close> (on the canvas or arbitrarily far
  outside) and its velocity \<open>v\<close>: after \<^verbatim>\<open>wrapPosition\<close>, and so after \<^verbatim>\<open>GameObject.update\<close>
  and the \<^verbatim>\<open>update\<close> of each subclass, which moves the object only through
  \<^verbatim>\<open>super.update\<close>, the position satisfies \<open>0 \<le> x \<le> canvas.width\<close> and
  \<open>0 \<le> y \<le> canvas.height\<close>.
\<close>

theorem C5_wrapPosition_on_canvas:
  "onCanvas cv (wrapPosition cv (obj\<lparr>position := p, velocity := v\<rparr>)) \<and>
   onCanvas cv (GameObject_update cv deltaTime (obj\<lparr>position := p, velocity := v\<rparr>)) \<and>
   onCanvas cv (Ship_update cv deltaTime (s\<lparr>position := p, velocity := v\<rparr>)) \<and>
   onCanvas cv (Bullet_update cv deltaTime (b\<lparr>position := p, velocity := v\<rparr>)) \<and>
   onCanvas cv (Asteroid_update cv deltaTime (a\<lparr>position := p, velocity := v\<rparr>))"
  by (simp only: onCanvas_wrapPosition onCanvas_GameObject_update onCanvas_Ship_update
      onCanvas_Bullet_update onCanvas_Asteroid_update simp_thms)

subsection \<open>Splitting an asteroid\<close>

lemma asize_Asteroid_new [simp]: "asize (fst (Asteroid_new rnd a b sz c)) = sz"
  by (simp add: Asteroid_new_def Let_def)

lemma position_Asteroid_new [simp]:
  "position (fst (Asteroid_new rnd a b sz c)) = Vector2D_new a b"
  by (simp add: Asteroid_new_def Let_def)

lemma Vector2D_new_eta [simp]: "Vector2D_new (vec_x p) (vec_y p) = p"
  by (simp add: Vector2D_new_def)

lemma split_small: "asize a = ''small'' \<Longrightarrow> split rnd a c = ([], c)"
  by (simp add: split_def)

lemma split_not_small:
  assumes "asize a \<noteq> ''small''"
  shows "\<exists>a1 a2 c'. split rnd a c = ([a1, a2], c') \<and>
           asize a1 = (if asize a = ''large'' then ''medium'' else ''small'') \<and>
           asize a2 = (if asize a = ''large'' then ''medium'' else ''small'') \<and>
           position a1 = position a \<and> position a2 = position a"
proof -
  let ?sz = "if asize a = ''large'' then ''medium'' else ''small''"
  let ?n1 = "Asteroid_new rnd (vec_x (position a)) (vec_y (position a)) ?sz c"
  let ?n2 = "Asteroid_new rnd (vec_x (position a)) (vec_y (position a)) ?sz (snd ?n1)"
  have "split rnd a c = ([fst ?n1, fst ?n2], snd ?n2)"
    using assms by (simp add: split_def Let_def split_beta)
  moreover have "asize (fst ?n1) = ?sz" "asize (fst ?n2) = ?sz"
    by (simp_all only: asize_Asteroid_new)
  moreover have "position (fst ?n1) = position a" "position (fst ?n2) = position a"
    by (simp_all only: position_Asteroid_new Vector2D_new_eta)
  ultimately show ?thesis by blast
qed

text \<open>
  Claim C2. \<^verbatim>\<open>split\<close> returns the empty list for a small asteroid; for a large
  asteroid it returns exactly two asteroids of size medium, for a medium asteroid
  exactly two of size small, each at the position of the parent.
\<close>

theorem C2_split:
  "(asize a = ''small'' \<longrightarrow> fst (split rnd a c) = []) \<and>
   (asize a = ''large'' \<longrightarrow>
      (\<exists>a1 a2. fst (split rnd a c) = [a1, a2] \<and>
         asize a1 = ''medium'' \<and> asize a2 = ''medium'' \<and>
         position a1 = position a \<and> position a2 = position a)) \<and>
   (asize a = ''medium'' \<longrightarrow>
      (\<exists>a1 a2. fst (split rnd a c) = [a1, a2] \<and>
         asize a1 = ''small'' \<and> asize a2 = ''small'' \<and>
         position a1 = position a \<and> position a2 = position a))"
proof (intro conjI impI)
  assume "asize a = ''small''"
  then show "fst (split rnd a c) = []" by (simp add: split_small)
next
  assume l: "asize a = ''large''"
  then have "asize a \<noteq> ''small''" by simp
  from split_not_small [OF this, of rnd c] l
  show "\<exists>a1 a2. fst (split rnd a c) = [a1, a2] \<and>
         asize a1 = ''medium'' \<and> asize a2 = ''medium'' \<and>
         position a1 = position a \<and> position a2 = position a"
    by auto
next
  assume m: "asize a = ''medium''"
  then have "asize a \<noteq> ''small''" by simp
  from split_not_small [OF this, of rnd c] m
  show "\<exists>a1 a2. fst (split rnd a c) = [a1, a2] \<and>
         asize a1 = ''small'' \<and> asize a2 = ''small'' \<and>
         position a1 = position a \<and> position a2 = position a"
    by auto
qed

theorem C2_split_witness:
  "fst (split rnd0 (rock ''small'' 10 20) 0) = [] \<and>
   (\<exists>a1 a2. fst (split rnd0 (rock ''large'' 10 20) 0) = [a1, a2] \<and>
      asize a1 = ''medium'' \<and> asize a2 = ''medium'' \<and>
      position a1 = Vector2D_new 10 20 \<and> position a2 = Vector2D_new 10 20) \<and>
   (\<exists>a1 a2. fst (split rnd0 (rock ''medium'' 10 20) 0) = [a1, a2] \<and>
      asize a1 = ''small'' \<and> asize a2 = ''small'' \<and>
      position a1 = Vector2D_new 10 20 \<and> position a2 = Vector2D_new 10 20)"
  using C2_split [of "rock ''small'' 10 20" rnd0 0]
        C2_split [of "rock ''large'' 10 20" rnd0 0]
        C2_split [of "rock ''medium'' 10 20" rnd0 0]
  by (simp add: rock_def)

subsection \<open>What each part of a frame leaves alone\<close>

lemma destroy_frame:
  "ship (destroy rnd i j g) = ship g \<and> lives (destroy rnd i j g) = lives g \<and>
   gameOver (destroy rnd i j g) = gameOver g \<and> keys (destroy rnd i j g) = keys g"
  by (simp add: destroy_def Let_def split_beta updateUI_def)

lemma bulletStep_frame:
  "ship (bulletStep rnd i g) = ship g \<and> lives (bulletStep rnd i g) = lives g \<and>
   gameOver (bulletStep rnd i g) = gameOver g \<and> keys (bulletStep rnd i g) = keys g"
  by (simp add: bulletStep_def destroy_frame split: option.split)

lemma bulletLoop_frame:
  "ship (bulletLoop rnd n g) = ship g \<and> lives (bulletLoop rnd n g) = lives g \<and>
   gameOver (bulletLoop rnd n g) = gameOver g \<and> keys (bulletLoop rnd n g) = keys g"
  by (induction n arbitrary: g) (simp_all add: bulletStep_frame)

lemma shipCollisions_lists:
  "bullets (shipCollisions cv g) = bullets g \<and> asteroids (shipCollisions cv g) = asteroids g \<and>
   score (shipCollisions cv g) = score g \<and> cursor (shipCollisions cv g) = cursor g"
  by (simp add: shipCollisions_def Let_def updateUI_def endGame_def split: option.split)

lemma shipCollisions_invulnerable:
  "invulnerable (ship g) \<Longrightarrow> shipCollisions cv g = g"
  by (simp add: shipCollisions_def)

lemma shipCollisions_life_lost:
  assumes "lives (shipCollisions cv g) \<noteq> lives g" and "0 < lives (shipCollisions cv g)"
  shows "lives (shipCollisions cv g) = lives g - 1 \<and>
         ship (shipCollisions cv g) = respawn (real (width cv) / 2) (real (height cv) / 2) (ship g) \<and>
         gameOver (shipCollisions cv g) = gameOver g"
  using assms
  by (simp add: shipCollisions_def Let_def updateUI_def endGame_def
      split: option.splits if_splits)

lemma thrust_frame:
  "invulnerable (thrust forward deltaTime s) = invulnerable s \<and>
   invulnerableTime (thrust forward deltaTime s) = invulnerableTime s \<and>
   maxSpeed (thrust forward deltaTime s) = maxSpeed s"
  by (simp add: thrust_def Let_def)

lemma rotate_frame:
  "invulnerable (rotate direction deltaTime s) = invulnerable s \<and>
   invulnerableTime (rotate direction deltaTime s) = invulnerableTime s \<and>
   velocity (rotate direction deltaTime s) = velocity s \<and>
   maxSpeed (rotate direction deltaTime s) = maxSpeed s"
  by (simp add: rotate_def)

lemma onKey_ship_frame:
  "lives (onKey k (\<lambda>h. h\<lparr>ship := f (ship h)\<rparr>) g) = lives g \<and>
   gameOver (onKey k (\<lambda>h. h\<lparr>ship := f (ship h)\<rparr>) g) = gameOver g \<and>
   asteroids (onKey k (\<lambda>h. h\<lparr>ship := f (ship h)\<rparr>) g) = asteroids g \<and>
   score (onKey k (\<lambda>h. h\<lparr>ship := f (ship h)\<rparr>) g) = score g"
  by (simp add: onKey_def)

lemma trigger_frame:
  "lives (trigger g) = lives g \<and> gameOver (trigger g) = gameOver g \<and>
   asteroids (trigger g) = asteroids g \<and> score (trigger g) = score g \<and>
   ship (trigger g) = ship g"
  by (simp add: trigger_def shoot_def)

lemma release_frame:
  "lives (release g) = lives g \<and> gameOver (release g) = gameOver g \<and>
   asteroids (release g) = asteroids g \<and> score (release g) = score g \<and>
   ship (release g) = ship g"
  by (simp add: release_def)

lemma cool_frame:
  "lives (cool deltaTime g) = lives g \<and> gameOver (cool deltaTime g) = gameOver g \<and>
   asteroids (cool deltaTime g) = asteroids g \<and> score (cool deltaTime g) = score g \<and>
   ship (cool deltaTime g) = ship g"
  by (simp add: cool_def Let_def)

lemma handleInput_frame:
  "lives (handleInput deltaTime g) = lives g \<and>
   gameOver (handleInput deltaTime g) = gameOver g \<and>
   asteroids (handleInput deltaTime g) = asteroids g \<and>
   score (handleInput deltaTime g) = score g"
  by (simp add: handleInput_def Let_def onKey_ship_frame trigger_frame release_frame cool_frame)

lemma onKey_thrust_ship:
  "invulnerable (ship (onKey k (\<lambda>h. h\<lparr>ship := thrust forward deltaTime (ship h)\<rparr>) g)) = invulnerable (ship g) \<and>
   invulnerableTime (ship (onKey k (\<lambda>h. h\<lparr>ship := thrust forward deltaTime (ship h)\<rparr>) g)) = invulnerableTime (ship g)"
  by (simp add: onKey_def thrust_frame)

lemma onKey_rotate_ship:
  "invulnerable (ship (onKey k (\<lambda>h. h\<lparr>ship := rotate direction deltaTime (ship h)\<rparr>) g)) = invulnerable (ship g) \<and>
   invulnerableTime (ship (onKey k (\<lambda>h. h\<lparr>ship := rotate direction deltaTime (ship h)\<rparr>) g)) = invulnerableTime (ship g)"
  by (simp add: onKey_def rotate_frame)

lemma handleInput_invulnerable:
  "invulnerable (ship (handleInput deltaTime g)) = invulnerable (ship g) \<and>
   invulnerableTime (ship (handleInput deltaTime g)) = invulnerableTime (ship g)"
  by (simp add: handleInput_def Let_def onKey_thrust_ship onKey_rotate_ship trigger_frame
      release_frame cool_frame)

lemma spawnAsteroids_frame:
  "spawnAsteroids rnd cv n g = Some g' \<Longrightarrow>
     ship g' = ship g \<and> lives g' = lives g \<and> score g' = score g \<and>
     gameOver g' = gameOver g \<and> bullets g' = bullets g \<and> keys g' = keys g"
proof (induction n arbitrary: g)
  case 0
  then show ?case by simp
next
  case (Suc n)
  from Suc.prems obtain a b c where
    p: "spawnPoint rnd cv (position (ship g)) (cursor g) = Some (a, b, c)"
    by (auto split: option.splits)
  let ?g1 = "g\<lparr>asteroids := asteroids g @ [fst (Asteroid_new rnd a b ''large'' c)],
               cursor := snd (Asteroid_new rnd a b ''large'' c)\<rparr>"
  from Suc.prems p have "spawnAsteroids rnd cv n ?g1 = Some g'"
    by (simp add: split_beta Let_def)
  from Suc.IH [OF this] show ?case by simp
qed


lemma Ship_update_still_invulnerable:
  assumes "invulnerable s" and "deltaTime < invulnerableTime s"
  shows "invulnerable (Ship_update cv deltaTime s)"
proof -
  have "invulnerable (GameObject_update cv deltaTime s) = invulnerable s"
       "invulnerableTime (GameObject_update cv deltaTime s) = invulnerableTime s"
    by (simp_all add: GameObject_update_def wrapPosition_def Let_def)
  with assms show ?thesis
    by (simp add: Ship_update_def Let_def)
qed

lemma checkCollisions_invulnerable:
  assumes "invulnerable (ship g)"
  shows "lives (checkCollisions rnd cv g) = lives g \<and>
         ship (checkCollisions rnd cv g) = ship g \<and>
         gameOver (checkCollisions rnd cv g) = gameOver g"
proof -
  let ?h = "bulletLoop rnd (length (bullets g)) g"
  have "invulnerable (ship ?h)" using assms by (simp add: bulletLoop_frame)
  then have "shipCollisions cv ?h = ?h" by (rule shipCollisions_invulnerable)
  then show ?thesis by (simp add: checkCollisions_def bulletLoop_frame)
qed

lemma checkCollisions_life_lost:
  assumes "lives (checkCollisions rnd cv g) \<noteq> lives g" and "0 < lives (checkCollisions rnd cv g)"
  shows "lives (checkCollisions rnd cv g) = lives g - 1 \<and>
         ship (checkCollisions rnd cv g) = respawn (real (width cv) / 2) (real (height cv) / 2) (ship g) \<and>
         gameOver (checkCollisions rnd cv g) = gameOver g"
proof -
  let ?h = "bulletLoop rnd (length (bullets g)) g"
  have f: "lives ?h = lives g" "ship ?h = ship g" "gameOver ?h = gameOver g"
    by (simp_all add: bulletLoop_frame)
  from assms have "lives (shipCollisions cv ?h) \<noteq> lives ?h" "0 < lives (shipCollisions cv ?h)"
    by (simp_all add: checkCollisions_def f)
  from shipCollisions_life_lost [OF this] show ?thesis
    by (simp add: checkCollisions_def f)
qed

subsection \<open>Rounding to doubles\<close>

text \<open>
  The error of one rounding: half a unit in the last place, which is at most
  \<open>\<bar>z\<bar> / 2 ^ 53\<close> for a result in the normal range and \<open>2 powi (- 1075)\<close> below it; and the
  evaluation of \<open>fl\<close> at a number whose binade and nearest significand are given.
\<close>

lemma rne_near:
  assumes "\<bar>y - of_int m\<bar> < 1 / 2"
  shows "rne y = m"
proof (cases "of_int m \<le> y")
  case True
  with assms have f: "\<lfloor>y\<rfloor> = m" by (intro floor_unique) (auto simp: abs_less_iff)
  from assms True have "y - of_int m < 1 / 2" by (simp add: abs_less_iff)
  with f show ?thesis by (simp add: rne_def Let_def)
next
  case False
  with assms have f: "\<lfloor>y\<rfloor> = m - 1" by (intro floor_unique) (auto simp: abs_less_iff)
  from assms False have "1 / 2 < y - of_int (m - 1)" by (simp add: abs_less_iff)
  with f show ?thesis by (simp add: rne_def Let_def)
qed

lemma rne_err: "\<bar>of_int (rne y) - y\<bar> \<le> 1 / 2"
proof -
  have "of_int \<lfloor>y\<rfloor> \<le> y" "y < of_int \<lfloor>y\<rfloor> + 1" by linarith+
  then show ?thesis by (auto simp add: rne_def Let_def abs_le_iff)
qed

lemma ulp_pos: "0 < ulp z"
  by (simp add: ulp_def)

lemma powr_powi: "(2::real) powr real_of_int k = 2 powi k"
  by (rule powr_real_of_int') simp_all

lemma floor_log2_bounds:
  assumes "0 < x"
  shows "2 powi \<lfloor>log 2 x\<rfloor> \<le> x" and "x < 2 powi (\<lfloor>log 2 x\<rfloor> + 1)"
proof -
  have "1 < (2::real)" by simp
  from floor_log_eq_powr_iff [OF assms this, of "\<lfloor>log 2 x\<rfloor>"]
  have "2 powr real_of_int \<lfloor>log 2 x\<rfloor> \<le> x \<and> x < 2 powr real_of_int (\<lfloor>log 2 x\<rfloor> + 1)"
    by blast
  then show "2 powi \<lfloor>log 2 x\<rfloor> \<le> x" and "x < 2 powi (\<lfloor>log 2 x\<rfloor> + 1)"
    by (simp_all only: powr_powi)
qed

lemma floor_log2_eq:
  assumes "2 powi k \<le> x" and "x < 2 powi (k + 1)"
  shows "\<lfloor>log 2 x\<rfloor> = k"
proof -
  have "0 < (2::real) powi k" by simp
  with assms(1) have pos: "0 < x" by linarith
  have "1 < (2::real)" by simp
  from assms have "2 powr real_of_int k \<le> x \<and> x < 2 powr real_of_int (k + 1)"
    by (simp only: powr_powi)
  with floor_log_eq_powr_iff [OF pos \<open>1 < 2\<close>, of k] show ?thesis by blast
qed

lemma expo_eval:
  assumes "2 powi k \<le> \<bar>z\<bar>" and "\<bar>z\<bar> < 2 powi (k + 1)" and "- 1022 \<le> k"
  shows "expo z = k"
  using floor_log2_eq [OF assms(1,2)] assms(3) by (simp add: expo_def)

lemma expo_sub:
  assumes "z \<noteq> 0" and "\<bar>z\<bar> < 2 powi (- 1022)"
  shows "expo z = - 1022"
proof -
  let ?k = "\<lfloor>log 2 \<bar>z\<bar>\<rfloor>"
  have pos: "0 < \<bar>z\<bar>" using assms(1) by simp
  from floor_log2_bounds(1) [OF pos] assms(2)
  have "(2::real) powi ?k < 2 powi (- 1022)" by linarith
  then have "?k < - 1022"
    using power_int_increasing [of "- 1022" ?k "2::real"] by (cases "?k < - 1022") simp_all
  then show ?thesis by (simp add: expo_def)
qed

lemma expo_normal:
  assumes "2 powi (- 1022) \<le> \<bar>z\<bar>"
  shows "2 powi expo z \<le> \<bar>z\<bar>"
proof -
  have "0 < (2::real) powi (- 1022)" by simp
  with assms have pos: "0 < \<bar>z\<bar>" by linarith
  from floor_log2_bounds(1) [OF pos] assms show ?thesis
    by (simp add: expo_def max_def)
qed

lemma ulp_normal:
  assumes "2 powi (- 1022) \<le> \<bar>z\<bar>"
  shows "ulp z \<le> \<bar>z\<bar> / 2 ^ 52"
proof -
  have "ulp z = 2 powi expo z / 2 ^ 52"
    by (simp add: ulp_def power_int_diff)
  with expo_normal [OF assms] show ?thesis
    by (simp add: divide_right_mono)
qed

lemma ulp_sub:
  assumes "z \<noteq> 0" and "\<bar>z\<bar> < 2 powi (- 1022)"
  shows "ulp z = 2 powi (- 1074)"
  by (simp add: ulp_def expo_sub [OF assms])

lemma fl_err: "\<bar>fl z - z\<bar> \<le> ulp z / 2"
proof (cases "z = 0")
  case True
  then show ?thesis using ulp_pos [of z] by (simp add: fl_def)
next
  case False
  have "fl z - z = ulp z * (of_int (rne (z / ulp z)) - z / ulp z)"
    using False ulp_pos [of z] by (simp add: fl_def algebra_simps)
  then have "\<bar>fl z - z\<bar> = ulp z * \<bar>of_int (rne (z / ulp z)) - z / ulp z\<bar>"
    using ulp_pos [of z] by (simp add: abs_mult)
  also have "\<dots> \<le> ulp z * (1 / 2)"
    using rne_err [of "z / ulp z"] ulp_pos [of z] by (intro mult_left_mono) simp_all
  finally show ?thesis by simp
qed

lemma fl_rel:
  assumes "2 powi (- 1022) \<le> \<bar>z\<bar>"
  shows "\<bar>fl z - z\<bar> \<le> \<bar>z\<bar> / 2 ^ 53"
proof -
  have "\<bar>fl z - z\<bar> \<le> ulp z / 2" by (rule fl_err)
  also have "\<dots> \<le> (\<bar>z\<bar> / 2 ^ 52) / 2"
    using ulp_normal [OF assms] by simp
  finally show ?thesis by simp
qed

lemma fl_abs: "\<bar>fl z - z\<bar> \<le> \<bar>z\<bar> / 2 ^ 53 + 2 powi (- 1075)"
proof (cases "2 powi (- 1022) \<le> \<bar>z\<bar>")
  case True
  from fl_rel [OF True] show ?thesis by (simp add: add_increasing2)
next
  case False
  show ?thesis
  proof (cases "z = 0")
    case True
    then show ?thesis by (simp add: fl_def)
  next
    case nz: False
    from False have "\<bar>z\<bar> < 2 powi (- 1022)" by simp
    from ulp_sub [OF nz this] fl_err [of z]
    have "\<bar>fl z - z\<bar> \<le> 2 powi (- 1074) / 2" by simp
    also have "\<dots> = 2 powi (- 1075)" by simp
    finally show ?thesis by (simp add: add_increasing)
  qed
qed

lemma fl_eval:
  assumes "2 powi k \<le> \<bar>z\<bar>" and "\<bar>z\<bar> < 2 powi (k + 1)" and "- 1022 \<le> k"
    and "\<bar>z / 2 powi (k - 52) - of_int m\<bar> < 1 / 2"
  shows "fl z = 2 powi (k - 52) * of_int m"
proof -
  have "0 < (2::real) powi k" by simp
  with assms(1) have "0 < \<bar>z\<bar>" by linarith
  then have nz: "z \<noteq> 0" by simp
  have u: "ulp z = 2 powi (k - 52)"
    by (simp add: ulp_def expo_eval [OF assms(1-3)])
  from rne_near [OF assms(4)] show ?thesis
    using nz by (simp add: fl_def u)
qed

lemma fl_0: "fl 0 = 0"
  by (simp add: fl_def)

lemma dbl_eval:
  assumes "2 powi k \<le> \<bar>z\<bar>" and "\<bar>z\<bar> < 2 powi (k + 1)" and "- 1022 \<le> k"
    and "\<bar>z / 2 powi (k - 52) - of_int m\<bar> < 1 / 2"
    and "\<bar>(2::real) powi (k - 52) * of_int m\<bar> < 2 ^ 1024"
  shows "dbl z = Some (2 powi (k - 52) * of_int m)"
  using assms(5) by (simp add: dbl_def fl_eval [OF assms(1-4)])

lemma dbl_0: "dbl 0 = Some 0"
  by (simp add: dbl_def fl_0)

lemma dbl_Some: "dbl z = Some r \<Longrightarrow> r = fl z"
  by (simp add: dbl_def split: if_splits)

lemma dbl_err:
  assumes "dbl z = Some r"
  shows "\<bar>r - z\<bar> \<le> \<bar>z\<bar> / 2 ^ 53 + 2 powi (- 1075)"
  using fl_abs [of z] dbl_Some [OF assms] by simp

lemma wmw_scaled:
  fixes x s c p a d q e :: real
  assumes e: "0 \<le> e"
    and 1: "\<bar>p - x * s\<bar> \<le> \<bar>x * s\<bar> / 2 ^ 53 + e"
    and 2: "\<bar>a - (c + p)\<bar> \<le> \<bar>c + p\<bar> / 2 ^ 53 + e"
    and 3: "\<bar>d - (a - c)\<bar> \<le> \<bar>a - c\<bar> / 2 ^ 53 + e"
    and 4: "\<bar>q * s - d\<bar> \<le> \<bar>d\<bar> / 2 ^ 53 + e * \<bar>s\<bar>"
  shows "\<bar>q * s - x * s\<bar> \<le> (\<bar>x * s\<bar> + \<bar>c\<bar>) / 2 ^ 50 + 4 * e + e * \<bar>s\<bar>"
proof -
  define X where "X = \<bar>x * s\<bar>"
  define C where "C = \<bar>c\<bar>"
  define P where "P = \<bar>p\<bar>"
  define Z where "Z = e * \<bar>s\<bar>"
  define A1 where "A1 = \<bar>p - x * s\<bar>"
  define A2 where "A2 = \<bar>a - (c + p)\<bar>"
  define A3 where "A3 = \<bar>d - (a - c)\<bar>"
  define A4 where "A4 = \<bar>q * s - d\<bar>"
  define AC where "AC = \<bar>a - c\<bar>"
  define D where "D = \<bar>d\<bar>"
  define CP where "CP = \<bar>c + p\<bar>"
  have nn: "0 \<le> X" "0 \<le> C" "0 \<le> P" "0 \<le> Z" "0 \<le> A1" "0 \<le> A2" "0 \<le> A3" "0 \<le> A4"
    using e by (simp_all add: X_def C_def P_def Z_def A1_def A2_def A3_def A4_def)
  have t: "P \<le> X + A1" "CP \<le> C + P" "AC \<le> P + A2" "D \<le> AC + A3"
    unfolding P_def X_def A1_def CP_def C_def AC_def A2_def D_def A3_def by linarith+
  have b: "A1 \<le> X / 2 ^ 53 + e" "A2 \<le> CP / 2 ^ 53 + e" "A3 \<le> AC / 2 ^ 53 + e"
    "A4 \<le> D / 2 ^ 53 + Z"
    using 1 2 3 4 by (simp_all add: A1_def A2_def A3_def A4_def X_def CP_def AC_def D_def Z_def)
  have "\<bar>q * s - x * s\<bar> \<le> A4 + A3 + A2 + A1"
    unfolding A1_def A2_def A3_def A4_def by linarith
  also have "\<dots> \<le> (X + C) / 2 ^ 50 + 4 * e + Z"
    using nn t b e by (simp; argo)
  finally show ?thesis by (simp add: X_def C_def Z_def)
qed

subsection \<open>Minimap round trip\<close>

text \<open>
  One coordinate of the two round trips: the four roundings of
  \<^verbatim>\<open>((c + x * s) - c) / s\<close> and of \<^verbatim>\<open>c + ((x - c) / s) * s\<close>.
\<close>

lemma to_and_back:
  assumes "timesD x s = Some p" and "plusD c p = Some a"
    and "minusD a c = Some d" and "divideD d s = Some q"
  shows "s \<noteq> 0"
    and "\<bar>q - x\<bar> \<le> (\<bar>x\<bar> + \<bar>c\<bar> / \<bar>s\<bar>) / 2 ^ 50 + (1 + 4 / \<bar>s\<bar>) * 2 powi (- 1075)"
proof -
  define e :: real where "e = 2 powi (- 1075)"
  have e: "0 \<le> e" by (simp add: e_def)
  from assms(4) show nz: "s \<noteq> 0" by (auto simp add: divideD_def split: if_splits)
  then have sp: "0 < \<bar>s\<bar>" by simp
  have 1: "\<bar>p - x * s\<bar> \<le> \<bar>x * s\<bar> / 2 ^ 53 + e"
    using dbl_err [of "x * s" p] assms(1) by (simp add: timesD_def e_def)
  have 2: "\<bar>a - (c + p)\<bar> \<le> \<bar>c + p\<bar> / 2 ^ 53 + e"
    using dbl_err [of "c + p" a] assms(2) by (simp add: plusD_def e_def)
  have 3: "\<bar>d - (a - c)\<bar> \<le> \<bar>a - c\<bar> / 2 ^ 53 + e"
    using dbl_err [of "a - c" d] assms(3) by (simp add: minusD_def e_def)
  have "\<bar>q - d / s\<bar> \<le> \<bar>d / s\<bar> / 2 ^ 53 + e"
    using dbl_err [of "d / s" q] assms(4) nz by (simp add: divideD_def e_def)
  then have "\<bar>q - d / s\<bar> * \<bar>s\<bar> \<le> (\<bar>d / s\<bar> / 2 ^ 53 + e) * \<bar>s\<bar>"
    using sp by (intro mult_right_mono) simp_all
  moreover have "\<bar>q - d / s\<bar> * \<bar>s\<bar> = \<bar>q * s - d\<bar>"
    using nz by (simp add: abs_mult [symmetric] algebra_simps)
  moreover have "(\<bar>d / s\<bar> / 2 ^ 53 + e) * \<bar>s\<bar> = \<bar>d\<bar> / 2 ^ 53 + e * \<bar>s\<bar>"
    using nz by (simp add: algebra_simps abs_divide)
  ultimately have 4: "\<bar>q * s - d\<bar> \<le> \<bar>d\<bar> / 2 ^ 53 + e * \<bar>s\<bar>" by simp
  from wmw_scaled [OF e 1 2 3 4]
  have "\<bar>q * s - x * s\<bar> \<le> (\<bar>x * s\<bar> + \<bar>c\<bar>) / 2 ^ 50 + 4 * e + e * \<bar>s\<bar>" .
  then have "\<bar>q * s - x * s\<bar> / \<bar>s\<bar> \<le> ((\<bar>x * s\<bar> + \<bar>c\<bar>) / 2 ^ 50 + 4 * e + e * \<bar>s\<bar>) / \<bar>s\<bar>"
    using sp by (intro divide_right_mono) simp_all
  moreover have "\<bar>q * s - x * s\<bar> / \<bar>s\<bar> = \<bar>q - x\<bar>"
  proof -
    have "q * s - x * s = (q - x) * s" by (simp add: algebra_simps)
    then show ?thesis using nz by (simp add: abs_mult)
  qed
  moreover have "((\<bar>x * s\<bar> + \<bar>c\<bar>) / 2 ^ 50 + 4 * e + e * \<bar>s\<bar>) / \<bar>s\<bar> =
      (\<bar>x\<bar> + \<bar>c\<bar> / \<bar>s\<bar>) / 2 ^ 50 + (1 + 4 / \<bar>s\<bar>) * e"
    using nz by (simp add: abs_mult field_simps)
  ultimately show "\<bar>q - x\<bar> \<le> (\<bar>x\<bar> + \<bar>c\<bar> / \<bar>s\<bar>) / 2 ^ 50 + (1 + 4 / \<bar>s\<bar>) * 2 powi (- 1075)"
    by (simp add: e_def)
qed

lemma mwm_linear:
  fixes x c d qs p a e z :: real
  assumes e: "0 \<le> e" and z: "0 \<le> z"
    and 1: "\<bar>d - (x - c)\<bar> \<le> \<bar>x - c\<bar> / 2 ^ 53 + e"
    and 2: "\<bar>qs - d\<bar> \<le> \<bar>d\<bar> / 2 ^ 53 + z"
    and 3: "\<bar>p - qs\<bar> \<le> \<bar>qs\<bar> / 2 ^ 53 + e"
    and 4: "\<bar>a - (c + p)\<bar> \<le> \<bar>c + p\<bar> / 2 ^ 53 + e"
  shows "\<bar>a - x\<bar> \<le> (\<bar>x\<bar> + \<bar>c\<bar>) / 2 ^ 50 + 4 * e + 2 * z"
proof -
  define X where "X = \<bar>x\<bar>"
  define C where "C = \<bar>c\<bar>"
  define XC where "XC = \<bar>x - c\<bar>"
  define D where "D = \<bar>d\<bar>"
  define QS where "QS = \<bar>qs\<bar>"
  define CP where "CP = \<bar>c + p\<bar>"
  define A1 where "A1 = \<bar>d - (x - c)\<bar>"
  define A2 where "A2 = \<bar>qs - d\<bar>"
  define A3 where "A3 = \<bar>p - qs\<bar>"
  define A4 where "A4 = \<bar>a - (c + p)\<bar>"
  have nn: "0 \<le> X" "0 \<le> C" "0 \<le> A1" "0 \<le> A2" "0 \<le> A3" "0 \<le> A4"
    by (simp_all add: X_def C_def A1_def A2_def A3_def A4_def)
  have t: "XC \<le> X + C" "D \<le> XC + A1" "QS \<le> D + A2" "CP \<le> X + A1 + A2 + A3"
    unfolding XC_def X_def C_def D_def A1_def QS_def A2_def CP_def A3_def by linarith+
  have b: "A1 \<le> XC / 2 ^ 53 + e" "A2 \<le> D / 2 ^ 53 + z" "A3 \<le> QS / 2 ^ 53 + e"
    "A4 \<le> CP / 2 ^ 53 + e"
    using 1 2 3 4 by (simp_all add: A1_def A2_def A3_def A4_def XC_def D_def QS_def CP_def)
  have "\<bar>a - x\<bar> \<le> A4 + A3 + A2 + A1"
    unfolding A1_def A2_def A3_def A4_def by linarith
  also have "\<dots> \<le> (X + C) / 2 ^ 50 + 4 * e + 2 * z"
    using nn t b e z by (simp; argo)
  finally show ?thesis by (simp add: X_def C_def)
qed

lemma back_and_to:
  assumes "minusD x c = Some d" and "divideD d s = Some q"
    and "timesD q s = Some p" and "plusD c p = Some a"
  shows "\<bar>a - x\<bar> \<le> (\<bar>x\<bar> + \<bar>c\<bar>) / 2 ^ 50 + (4 + 2 * \<bar>s\<bar>) * 2 powi (- 1075)"
proof -
  define e :: real where "e = 2 powi (- 1075)"
  have e: "0 \<le> e" by (simp add: e_def)
  from assms(2) have nz: "s \<noteq> 0" by (auto simp add: divideD_def split: if_splits)
  then have sp: "0 < \<bar>s\<bar>" by simp
  have z: "0 \<le> e * \<bar>s\<bar>" using e by simp
  have 1: "\<bar>d - (x - c)\<bar> \<le> \<bar>x - c\<bar> / 2 ^ 53 + e"
    using dbl_err [of "x - c" d] assms(1) by (simp add: minusD_def e_def)
  have "\<bar>q - d / s\<bar> \<le> \<bar>d / s\<bar> / 2 ^ 53 + e"
    using dbl_err [of "d / s" q] assms(2) nz by (simp add: divideD_def e_def)
  then have "\<bar>q - d / s\<bar> * \<bar>s\<bar> \<le> (\<bar>d / s\<bar> / 2 ^ 53 + e) * \<bar>s\<bar>"
    using sp by (intro mult_right_mono) simp_all
  moreover have "\<bar>q - d / s\<bar> * \<bar>s\<bar> = \<bar>q * s - d\<bar>"
    using nz by (simp add: abs_mult [symmetric] algebra_simps)
  moreover have "(\<bar>d / s\<bar> / 2 ^ 53 + e) * \<bar>s\<bar> = \<bar>d\<bar> / 2 ^ 53 + e * \<bar>s\<bar>"
    using nz by (simp add: algebra_simps abs_divide)
  ultimately have 2: "\<bar>q * s - d\<bar> \<le> \<bar>d\<bar> / 2 ^ 53 + e * \<bar>s\<bar>" by simp
  have 3: "\<bar>p - q * s\<bar> \<le> \<bar>q * s\<bar> / 2 ^ 53 + e"
    using dbl_err [of "q * s" p] assms(3) by (simp add: timesD_def e_def)
  have 4: "\<bar>a - (c + p)\<bar> \<le> \<bar>c + p\<bar> / 2 ^ 53 + e"
    using dbl_err [of "c + p" a] assms(4) by (simp add: plusD_def e_def)
  from mwm_linear [OF e z 1 2 3 4] show ?thesis
    unfolding e_def [symmetric] by (simp add: algebra_simps)
qed

lemma minimap0_fields:
  "corner_x minimap0 = 580" "corner_y minimap0 = 380"
  "scaleX minimap0 = 1 / 8" "scaleY minimap0 = 6004799503160661 / 2 ^ 55"
  by (simp_all add: minimap0_def)

lemma c7_values:
  "timesD 160 (1 / 8) = Some 20"
  "plusD 580 20 = Some 600"
  "timesD 1 (6004799503160661 / 2 ^ 55) = Some (6004799503160661 / 2 ^ 55)"
  "plusD 380 (6004799503160661 / 2 ^ 55) = Some (6687962727885483 / 2 ^ 44)"
  "minusD 600 580 = Some 20"
  "divideD 20 (1 / 8) = Some 160"
  "minusD (6687962727885483 / 2 ^ 44) 380 = Some (2932031007403 / 2 ^ 44)"
  "divideD (2932031007403 / 2 ^ 44) (6004799503160661 / 2 ^ 55) = Some (8796093022209 / 2 ^ 43)"
  "minusD 390 380 = Some 10"
  "divideD 10 (6004799503160661 / 2 ^ 55) = Some 60"
  "timesD 60 (6004799503160661 / 2 ^ 55) = Some 10"
  "plusD 380 10 = Some 390"
proof -
  show "timesD 160 (1 / 8) = Some 20"
    using dbl_eval [of 4 20 5629499534213120] by (simp add: timesD_def)
  show "plusD 580 20 = Some 600"
    using dbl_eval [of 9 600 5277655813324800] by (simp add: plusD_def)
  show "timesD 1 (6004799503160661 / 2 ^ 55) = Some (6004799503160661 / 2 ^ 55)"
    using dbl_eval [of "- 3" "6004799503160661 / 2 ^ 55" 6004799503160661]
    by (simp add: timesD_def)
  show "plusD 380 (6004799503160661 / 2 ^ 55) = Some (6687962727885483 / 2 ^ 44)"
    using dbl_eval [of 8 "380 + 6004799503160661 / 2 ^ 55" 6687962727885483]
    by (simp add: plusD_def)
  show "minusD 600 580 = Some 20"
    using dbl_eval [of 4 20 5629499534213120] by (simp add: minusD_def)
  show "divideD 20 (1 / 8) = Some 160"
    using dbl_eval [of 7 160 5629499534213120] by (simp add: divideD_def)
  show "minusD (6687962727885483 / 2 ^ 44) 380 = Some (2932031007403 / 2 ^ 44)"
    using dbl_eval [of "- 3" "6687962727885483 / 2 ^ 44 - 380" 6004799503161344]
    by (simp add: minusD_def)
  show "divideD (2932031007403 / 2 ^ 44) (6004799503160661 / 2 ^ 55) = Some (8796093022209 / 2 ^ 43)"
    using dbl_eval [of 0 "(2932031007403 / 2 ^ 44) / (6004799503160661 / 2 ^ 55)" 4503599627371008]
    by (simp add: divideD_def)
  show "minusD 390 380 = Some 10"
    using dbl_eval [of 3 10 5629499534213120] by (simp add: minusD_def)
  show "divideD 10 (6004799503160661 / 2 ^ 55) = Some 60"
    using dbl_eval [of 5 "10 / (6004799503160661 / 2 ^ 55)" 8444249301319680]
    by (simp add: divideD_def)
  show "timesD 60 (6004799503160661 / 2 ^ 55) = Some 10"
    using dbl_eval [of 3 "60 * (6004799503160661 / 2 ^ 55)" 5629499534213120]
    by (simp add: timesD_def)
  show "plusD 380 10 = Some 390"
    using dbl_eval [of 8 390 6860952557322240] by (simp add: plusD_def)
qed

lemma minimap0_new: "Minimap_new \<lparr>width = 800, height = 600\<rparr> 1600 1200 = Some minimap0"
proof -
  have "minusD 800 200 = Some 600"
    using dbl_eval [of 9 600 5277655813324800] by (simp add: minusD_def)
  moreover have "minusD 600 20 = Some 580"
    using dbl_eval [of 9 580 5101733952880640] by (simp add: minusD_def)
  moreover have "minusD 600 200 = Some 400"
    using dbl_eval [of 8 400 7036874417766400] by (simp add: minusD_def)
  moreover have "minusD 400 20 = Some 380"
    using dbl_eval [of 8 380 6685030696878080] by (simp add: minusD_def)
  moreover have "divideD 200 1600 = Some (1 / 8)"
    using dbl_eval [of "- 3" "1 / 8" 4503599627370496] by (simp add: divideD_def)
  moreover have "divideD 200 1200 = Some (6004799503160661 / 2 ^ 55)"
    using dbl_eval [of "- 3" "200 / 1200" 6004799503160661] by (simp add: divideD_def)
  ultimately show ?thesis
    by (simp add: Minimap_new_def minimap0_def)
qed

lemma minimap0_to: "worldToMinimap minimap0 160 1 = Some (600, 6687962727885483 / 2 ^ 44)"
  by (simp only: worldToMinimap_def minimap0_fields c7_values bind.bind_lunit)

lemma minimap0_back:
  "minimapToWorld minimap0 600 (6687962727885483 / 2 ^ 44) = Some (160, 8796093022209 / 2 ^ 43)"
  by (simp only: minimapToWorld_def minimap0_fields c7_values bind.bind_lunit)

lemma minimap0_world_trip: "worldRoundTrip minimap0 160 1 = Some (160, 8796093022209 / 2 ^ 43)"
  by (simp only: worldRoundTrip_def minimap0_to minimap0_back bind.bind_lunit prod.case)

lemma minimap0_minimap_trip: "minimapRoundTrip minimap0 600 390 = Some (600, 390)"
  by (simp only: minimapRoundTrip_def minimapToWorld_def worldToMinimap_def minimap0_fields
      c7_values bind.bind_lunit prod.case)

text \<open>
  Claim C7 says that, with nonzero scale factors, both round trips return the point they
  started from. On the minimap of a canvas of 800 by 600 in a world of 1600 by 1200 (scale
  factors \<open>1 / 8\<close> and the double nearest to \<open>1 / 6\<close>), the world point \<open>(160, 1)\<close> goes to
  \<open>(600, 380.1666666666667)\<close> and comes back as \<open>(160, 1.0000000000001137)\<close>: the second
  coordinate has moved by \<open>1 / 2 ^ 43\<close>.
\<close>

theorem C7_round_trip_not_exact:
  "Minimap_new \<lparr>width = 800, height = 600\<rparr> 1600 1200 = Some minimap0 \<and>
   scaleX minimap0 \<noteq> 0 \<and> scaleY minimap0 \<noteq> 0 \<and>
   worldToMinimap minimap0 160 1 = Some (600, 6687962727885483 / 2 ^ 44) \<and>
   minimapToWorld minimap0 600 (6687962727885483 / 2 ^ 44) = Some (160, 1 + 1 / 2 ^ 43) \<and>
   worldRoundTrip minimap0 160 1 \<noteq> Some (160, 1)"
  using minimap0_new minimap0_to minimap0_back minimap0_world_trip
  by (simp add: minimap0_fields)

text \<open>
  Claim C7, as it holds of the code. Whenever a round trip returns a point (no
  intermediate result overflows, and the scale factors are not zero), each coordinate of the
  result is within a relative distance of \<open>1 / 2 ^ 50\<close> of the coordinate it started from,
  the distance being relative to the size of the intermediate values: for a world
  coordinate \<open>x\<close>, corner \<open>c\<close> and scale \<open>s\<close>, to \<open>\<bar>x\<bar> + \<bar>c\<bar> / \<bar>s\<bar>\<close> (world to minimap
  and back), and for a minimap coordinate \<open>x\<close> to \<open>\<bar>x\<bar> + \<bar>c\<bar>\<close> (minimap to world and back),
  up to a term for results in the subnormal range.
\<close>

theorem C7_minimap_round_trip:
  "(worldRoundTrip m x y = Some (x', y') \<longrightarrow>
      scaleX m \<noteq> 0 \<and> scaleY m \<noteq> 0 \<and>
      \<bar>x' - x\<bar> \<le> (\<bar>x\<bar> + \<bar>corner_x m\<bar> / \<bar>scaleX m\<bar>) / 2 ^ 50
                   + (1 + 4 / \<bar>scaleX m\<bar>) * 2 powi (- 1075) \<and>
      \<bar>y' - y\<bar> \<le> (\<bar>y\<bar> + \<bar>corner_y m\<bar> / \<bar>scaleY m\<bar>) / 2 ^ 50
                   + (1 + 4 / \<bar>scaleY m\<bar>) * 2 powi (- 1075)) \<and>
   (minimapRoundTrip m x y = Some (x', y') \<longrightarrow>
      scaleX m \<noteq> 0 \<and> scaleY m \<noteq> 0 \<and>
      \<bar>x' - x\<bar> \<le> (\<bar>x\<bar> + \<bar>corner_x m\<bar>) / 2 ^ 50 + (4 + 2 * \<bar>scaleX m\<bar>) * 2 powi (- 1075) \<and>
      \<bar>y' - y\<bar> \<le> (\<bar>y\<bar> + \<bar>corner_y m\<bar>) / 2 ^ 50 + (4 + 2 * \<bar>scaleY m\<bar>) * 2 powi (- 1075))"
proof (intro conjI impI)
  assume "worldRoundTrip m x y = Some (x', y')"
  then obtain px a py b dx dy where
    w: "timesD x (scaleX m) = Some px" "plusD (corner_x m) px = Some a"
      "timesD y (scaleY m) = Some py" "plusD (corner_y m) py = Some b"
    and v: "minusD a (corner_x m) = Some dx" "divideD dx (scaleX m) = Some x'"
      "minusD b (corner_y m) = Some dy" "divideD dy (scaleY m) = Some y'"
    by (auto simp add: worldRoundTrip_def worldToMinimap_def minimapToWorld_def
        bind_eq_Some_conv)
  from to_and_back [OF w(1,2) v(1,2)]
  show "scaleX m \<noteq> 0"
    and "\<bar>x' - x\<bar> \<le> (\<bar>x\<bar> + \<bar>corner_x m\<bar> / \<bar>scaleX m\<bar>) / 2 ^ 50
                   + (1 + 4 / \<bar>scaleX m\<bar>) * 2 powi (- 1075)"
    by simp_all
  from to_and_back [OF w(3,4) v(3,4)]
  show "scaleY m \<noteq> 0"
    and "\<bar>y' - y\<bar> \<le> (\<bar>y\<bar> + \<bar>corner_y m\<bar> / \<bar>scaleY m\<bar>) / 2 ^ 50
                   + (1 + 4 / \<bar>scaleY m\<bar>) * 2 powi (- 1075)"
    by simp_all
next
  assume "minimapRoundTrip m x y = Some (x', y')"
  then obtain dx a dy b px py where
    v: "minusD x (corner_x m) = Some dx" "divideD dx (scaleX m) = Some a"
      "minusD y (corner_y m) = Some dy" "divideD dy (scaleY m) = Some b"
    and w: "timesD a (scaleX m) = Some px" "plusD (corner_x m) px = Some x'"
      "timesD b (scaleY m) = Some py" "plusD (corner_y m) py = Some y'"
    by (auto simp add: minimapRoundTrip_def worldToMinimap_def minimapToWorld_def
        bind_eq_Some_conv)
  from v(2) show "scaleX m \<noteq> 0" by (auto simp add: divideD_def split: if_splits)
  from v(4) show "scaleY m \<noteq> 0" by (auto simp add: divideD_def split: if_splits)
  from back_and_to [OF v(1,2) w(1,2)]
  show "\<bar>x' - x\<bar> \<le> (\<bar>x\<bar> + \<bar>corner_x m\<bar>) / 2 ^ 50 + (4 + 2 * \<bar>scaleX m\<bar>) * 2 powi (- 1075)" .
  from back_and_to [OF v(3,4) w(3,4)]
  show "\<bar>y' - y\<bar> \<le> (\<bar>y\<bar> + \<bar>corner_y m\<bar>) / 2 ^ 50 + (4 + 2 * \<bar>scaleY m\<bar>) * 2 powi (- 1075)" .
qed

theorem C7_minimap_round_trip_witness:
  "worldRoundTrip minimap0 160 1 = Some (160, 1 + 1 / 2 ^ 43) \<and>
   \<bar>(1 + 1 / 2 ^ 43) - 1\<bar> \<le> (\<bar>1\<bar> + \<bar>corner_y minimap0\<bar> / \<bar>scaleY minimap0\<bar>) / 2 ^ 50
                   + (1 + 4 / \<bar>scaleY minimap0\<bar>) * 2 powi (- 1075) \<and>
   minimapRoundTrip minimap0 600 390 = Some (600, 390) \<and>
   \<bar>390 - 390\<bar> \<le> (\<bar>390\<bar> + \<bar>corner_y minimap0\<bar>) / 2 ^ 50
                   + (4 + 2 * \<bar>scaleY minimap0\<bar>) * 2 powi (- 1075)"
proof -
  have t: "worldRoundTrip minimap0 160 1 = Some (160, 1 + 1 / 2 ^ 43)"
    using minimap0_world_trip by simp
  have r: "minimapRoundTrip minimap0 600 390 = Some (600, 390)"
    by (rule minimap0_minimap_trip)
  from C7_minimap_round_trip [of minimap0 160 1 160 "1 + 1 / 2 ^ 43"] t
  have 1: "\<bar>(1 + 1 / 2 ^ 43) - 1\<bar> \<le> (\<bar>1\<bar> + \<bar>corner_y minimap0\<bar> / \<bar>scaleY minimap0\<bar>) / 2 ^ 50
                   + (1 + 4 / \<bar>scaleY minimap0\<bar>) * 2 powi (- 1075)"
    by blast
  from C7_minimap_round_trip [of minimap0 600 390 600 390] r
  have 2: "\<bar>390 - 390\<bar> \<le> (\<bar>390\<bar> + \<bar>corner_y minimap0\<bar>) / 2 ^ 50
                   + (4 + 2 * \<bar>scaleY minimap0\<bar>) * 2 powi (- 1075)"
    by blast
  from t 1 r 2 show ?thesis by blast
qed

subsection \<open>The speed of the ship\<close>

text \<open>
  The speed of a ship is \<open>magnitude (velocity s)\<close>, the exact length of its velocity;
  \<open>magnitudeD\<close> is what \<^verbatim>\<open>magnitude()\<close> computes from it, with four roundings.
\<close>

lemma dbl_lt: "dbl z = Some r \<Longrightarrow> \<bar>r\<bar> < 2 ^ 1024"
  by (simp add: dbl_def split: if_splits)

lemma magnitude_nonneg: "0 \<le> magnitude v"
  by (simp add: magnitude_def)

lemma tiny: "(2::real) powi (- 1075) \<le> 1 / 2 ^ 200"
  by (simp add: power_int_minus field_simps)

text \<open>The exact sum of squares against the computed one.\<close>

lemma sumsq_linear:
  fixes X2 Y2 xx yy sm e :: real
  assumes "0 \<le> X2" and "0 \<le> Y2" and "0 \<le> e"
    and 1: "\<bar>xx - X2\<bar> \<le> \<bar>X2\<bar> / 2 ^ 53 + e"
    and 2: "\<bar>yy - Y2\<bar> \<le> \<bar>Y2\<bar> / 2 ^ 53 + e"
    and 3: "\<bar>sm - (xx + yy)\<bar> \<le> \<bar>xx + yy\<bar> / 2 ^ 53 + e"
  shows "(X2 + Y2) * (1 - 3 / 2 ^ 53) \<le> sm + 4 * e"
proof -
  define A1 where "A1 = \<bar>xx - X2\<bar>"
  define A2 where "A2 = \<bar>yy - Y2\<bar>"
  define A3 where "A3 = \<bar>sm - (xx + yy)\<bar>"
  define S where "S = \<bar>xx + yy\<bar>"
  have t: "S \<le> X2 + Y2 + A1 + A2" "X2 + Y2 \<le> sm + A1 + A2 + A3"
    using assms(1,2) unfolding S_def A1_def A2_def A3_def by linarith+
  have b: "A1 \<le> X2 / 2 ^ 53 + e" "A2 \<le> Y2 / 2 ^ 53 + e" "A3 \<le> S / 2 ^ 53 + e"
    using 1 2 3 assms(1,2) by (simp_all add: A1_def A2_def A3_def S_def)
  from t b assms(1-3) show ?thesis by (simp; argo)
qed

lemma speed_le:
  assumes m: "magnitudeD v = Some sp" and B: "sp \<le> B" "400 \<le> B"
  shows "magnitude v \<le> B * (1 + 4 / 2 ^ 53)"
proof -
  define e :: real where "e = 2 powi (- 1075)"
  have e: "0 \<le> e" "e \<le> 1 / 2 ^ 200"
    unfolding e_def by (simp, rule tiny)
  define X2 where "X2 = vec_x v * vec_x v"
  define Y2 where "Y2 = vec_y v * vec_y v"
  have nn: "0 \<le> X2" "0 \<le> Y2" by (simp_all add: X2_def Y2_def)
  from m obtain xx yy sm where
    xx: "dbl X2 = Some xx" and yy: "dbl Y2 = Some yy" and sm: "dbl (xx + yy) = Some sm"
    and sq: "sqrtD sm = Some sp"
    by (auto simp add: magnitudeD_def timesD_def plusD_def bind_eq_Some_conv X2_def Y2_def)
  from sq have sm0: "0 \<le> sm" and sp: "dbl (sqrt sm) = Some sp"
    by (auto simp add: sqrtD_def split: if_splits)
  define r where "r = sqrt sm"
  have r0: "0 \<le> r" using sm0 by (simp add: r_def)
  have rr: "r * r = sm" using sm0 by (simp add: r_def)
  have 1: "(X2 + Y2) * (1 - 3 / 2 ^ 53) \<le> sm + 4 * e"
    unfolding e_def
    by (rule sumsq_linear [OF nn _ dbl_err [OF xx] dbl_err [OF yy] dbl_err [OF sm]]) simp
  have "\<bar>sp - r\<bar> \<le> \<bar>r\<bar> / 2 ^ 53 + e"
    unfolding e_def r_def by (rule dbl_err [OF sp])
  then have "r - r / 2 ^ 53 \<le> sp + e" using r0 by (simp add: abs_le_iff)
  with B e have 2: "r \<le> B * (1 + 2 / 2 ^ 53)" by (simp; argo)
  have B0: "0 \<le> B * (1 + 2 / 2 ^ 53)" using B by simp
  have "r * r \<le> (B * (1 + 2 / 2 ^ 53)) * (B * (1 + 2 / 2 ^ 53))"
    using 2 r0 by (intro mult_mono) simp_all
  then have 3: "sm \<le> (B * B) * ((1 + 2 / 2 ^ 53) * (1 + 2 / 2 ^ 53))"
    by (simp add: rr mult_ac)
  have BB: "160000 \<le> B * B"
  proof -
    have "400 * 400 \<le> B * B" using B(2) by (intro mult_mono) simp_all
    then show ?thesis by simp
  qed
  define C where "C = B * B"
  from 1 3 BB e have "X2 + Y2 \<le> C * ((1 + 4 / 2 ^ 53) * (1 + 4 / 2 ^ 53))"
    unfolding C_def [symmetric] by (simp; argo)
  then have "X2 + Y2 \<le> (B * (1 + 4 / 2 ^ 53))\<^sup>2"
    by (simp add: C_def power2_eq_square mult_ac)
  moreover have "0 \<le> B * (1 + 4 / 2 ^ 53)" using B by simp
  ultimately have "sqrt (X2 + Y2) \<le> B * (1 + 4 / 2 ^ 53)"
    by (rule real_le_lsqrt [rotated])
  then show ?thesis by (simp add: magnitude_def X2_def Y2_def)
qed

text \<open>Scaling a vector by a rounded factor.\<close>

lemma sqrt_sumsq_mono:
  fixes a b c d :: real
  assumes "\<bar>a\<bar> \<le> c" and "\<bar>b\<bar> \<le> d"
  shows "sqrt (a * a + b * b) \<le> sqrt (c * c + d * d)"
proof -
  have "\<bar>a\<bar> * \<bar>a\<bar> \<le> c * c" using assms(1) by (intro mult_mono) simp_all
  then have "a * a \<le> c * c" by simp
  moreover have "\<bar>b\<bar> * \<bar>b\<bar> \<le> d * d" using assms(2) by (intro mult_mono) simp_all
  then have "b * b \<le> d * d" by simp
  ultimately show ?thesis by (simp add: add_mono)
qed

lemma magnitude_scaled:
  assumes "multiplyD v k = Some w"
  shows "magnitude w \<le> \<bar>k\<bar> * (1 + 1 / 2 ^ 53) * magnitude v + 2 * 2 powi (- 1075)"
proof -
  define e :: real where "e = 2 powi (- 1075)"
  have e: "0 \<le> e" by (simp add: e_def)
  define c where "c = \<bar>k\<bar> * (1 + 1 / 2 ^ 53)"
  have c0: "0 \<le> c" by (simp add: c_def)
  from assms obtain a b where a: "dbl (vec_x v * k) = Some a" and b: "dbl (vec_y v * k) = Some b"
    and w: "w = Vector2D_new a b"
    by (auto simp add: multiplyD_def timesD_def bind_eq_Some_conv)
  have "\<bar>a - vec_x v * k\<bar> \<le> \<bar>vec_x v * k\<bar> / 2 ^ 53 + e"
    unfolding e_def by (rule dbl_err [OF a])
  then have "\<bar>a\<bar> \<le> \<bar>vec_x v * k\<bar> + \<bar>vec_x v * k\<bar> / 2 ^ 53 + e" by linarith
  also have "\<bar>vec_x v * k\<bar> + \<bar>vec_x v * k\<bar> / 2 ^ 53 = \<bar>vec_x v\<bar> * c"
    by (simp add: c_def abs_mult algebra_simps)
  finally have A: "\<bar>a\<bar> \<le> \<bar>vec_x v\<bar> * c + e" .
  have "\<bar>b - vec_y v * k\<bar> \<le> \<bar>vec_y v * k\<bar> / 2 ^ 53 + e"
    unfolding e_def by (rule dbl_err [OF b])
  then have "\<bar>b\<bar> \<le> \<bar>vec_y v * k\<bar> + \<bar>vec_y v * k\<bar> / 2 ^ 53 + e" by linarith
  also have "\<bar>vec_y v * k\<bar> + \<bar>vec_y v * k\<bar> / 2 ^ 53 = \<bar>vec_y v\<bar> * c"
    by (simp add: c_def abs_mult algebra_simps)
  finally have B: "\<bar>b\<bar> \<le> \<bar>vec_y v\<bar> * c + e" .
  have "magnitude w = sqrt (a * a + b * b)"
    by (simp add: w magnitude_def Vector2D_new_def)
  also have "\<dots> \<le> sqrt ((\<bar>vec_x v\<bar> * c + e) * (\<bar>vec_x v\<bar> * c + e) + (\<bar>vec_y v\<bar> * c + e) * (\<bar>vec_y v\<bar> * c + e))"
    by (rule sqrt_sumsq_mono [OF A B])
  also have "\<dots> = sqrt ((\<bar>vec_x v\<bar> * c + e)\<^sup>2 + (\<bar>vec_y v\<bar> * c + e)\<^sup>2)"
    by (simp add: power2_eq_square)
  also have "\<dots> \<le> sqrt ((\<bar>vec_x v\<bar> * c)\<^sup>2 + (\<bar>vec_y v\<bar> * c)\<^sup>2) + sqrt (e\<^sup>2 + e\<^sup>2)"
    by (rule real_sqrt_sum_squares_triangle_ineq)
  also have "sqrt ((\<bar>vec_x v\<bar> * c)\<^sup>2 + (\<bar>vec_y v\<bar> * c)\<^sup>2) = c * magnitude v"
  proof -
    have "(\<bar>vec_x v\<bar> * c)\<^sup>2 + (\<bar>vec_y v\<bar> * c)\<^sup>2 = c\<^sup>2 * (vec_x v * vec_x v + vec_y v * vec_y v)"
      by (simp add: power2_eq_square algebra_simps)
    then show ?thesis using c0 by (simp add: real_sqrt_mult magnitude_def)
  qed
  also have "sqrt (e\<^sup>2 + e\<^sup>2) \<le> 2 * e"
    using sqrt_sum_squares_le_sum_abs [of e e] e by simp
  finally show ?thesis unfolding c_def e_def by simp
qed

lemma velocity_wrapPosition: "velocity (wrapPosition cv obj) = velocity obj"
  by (simp add: wrapPosition_def Let_def)

lemma maxSpeed_wrapPosition: "maxSpeed (wrapPosition cv s) = maxSpeed s"
  by (simp add: wrapPosition_def Let_def)

lemma magnitude_zero: "magnitude (Vector2D_new 0 0) = 0"
  by (simp add: magnitude_def Vector2D_new_def)

lemma nearMaxSpeed_Ship_new: "nearMaxSpeed (Ship_new a b)"
  by (simp add: nearMaxSpeed_def Ship_new_def magnitude_zero)

lemma nearMaxSpeed_respawn: "nearMaxSpeed s \<Longrightarrow> nearMaxSpeed (respawn a b s)"
  by (simp add: nearMaxSpeed_def respawn_def magnitude_zero)

lemma nearMaxSpeed_rotateD:
  "rotateD direction deltaTime s = Some s' \<Longrightarrow> nearMaxSpeed s \<Longrightarrow> nearMaxSpeed s'"
  by (auto simp add: rotateD_def bind_eq_Some_conv nearMaxSpeed_def)

lemma damping: "\<bar>fl 0.99\<bar> \<le> 199 / 200"
proof -
  define e :: real where "e = 2 powi (- 1075)"
  have e: "e \<le> 1 / 2 ^ 200" unfolding e_def by (rule tiny)
  have "\<bar>fl 0.99 - 0.99\<bar> \<le> \<bar>0.99\<bar> / 2 ^ 53 + e" unfolding e_def by (rule fl_abs)
  with e show ?thesis by (simp; argo)
qed

lemma GameObject_updateD_frame:
  assumes "GameObject_updateD cv deltaTime s = Some s1"
  shows "velocity s1 = velocity s" and "maxSpeed s1 = maxSpeed s"
proof -
  from assms obtain p where "s1 = wrapPosition cv (s\<lparr>position := p\<rparr>)"
    by (auto simp add: GameObject_updateD_def bind_eq_Some_conv)
  then show "velocity s1 = velocity s" and "maxSpeed s1 = maxSpeed s"
    by (simp_all add: velocity_wrapPosition maxSpeed_wrapPosition)
qed

lemma Ship_updateD_velocity:
  assumes "Ship_updateD cv deltaTime s = Some s'"
  shows "\<exists>s1 v. GameObject_updateD cv deltaTime s = Some s1 \<and>
           multiplyD (velocity s1) (fl 0.99) = Some v \<and>
           velocity s' = v \<and> maxSpeed s' = maxSpeed s1"
proof -
  from assms obtain s1 where s1: "GameObject_updateD cv deltaTime s = Some s1"
    and r1: "(multiplyD (velocity s1) (fl 0.99) \<bind> (\<lambda>v. let s2 = s1\<lparr>velocity := v\<rparr> in
          if invulnerable s2
          then do { t \<leftarrow> minusD (invulnerableTime s2) deltaTime;
                    let s3 = s2\<lparr>invulnerableTime := t\<rparr>;
                    Some (if invulnerableTime s3 \<le> 0 then s3\<lparr>invulnerable := False\<rparr> else s3) }
          else Some s2)) = Some s'"
    unfolding Ship_updateD_def by (cases "GameObject_updateD cv deltaTime s") simp_all
  from r1 obtain v where v: "multiplyD (velocity s1) (fl 0.99) = Some v"
    and r2: "(let s2 = s1\<lparr>velocity := v\<rparr> in
          if invulnerable s2
          then do { t \<leftarrow> minusD (invulnerableTime s2) deltaTime;
                    let s3 = s2\<lparr>invulnerableTime := t\<rparr>;
                    Some (if invulnerableTime s3 \<le> 0 then s3\<lparr>invulnerable := False\<rparr> else s3) }
          else Some s2) = Some s'"
    by (cases "multiplyD (velocity s1) (fl 0.99)") simp_all
  have "velocity s' = v \<and> maxSpeed s' = maxSpeed s1"
  proof (cases "invulnerable s1")
    case True
    with r2 obtain t where "s' = (if t \<le> 0
        then s1\<lparr>velocity := v, invulnerableTime := t, invulnerable := False\<rparr>
        else s1\<lparr>velocity := v, invulnerableTime := t\<rparr>)"
      by (cases "minusD (invulnerableTime s1) deltaTime") (auto simp add: Let_def)
    then show ?thesis by (cases "t \<le> 0") simp_all
  next
    case False
    with r2 show ?thesis by (auto simp add: Let_def)
  qed
  with s1 v show ?thesis by blast
qed

lemma nearMaxSpeed_Ship_updateD:
  assumes "Ship_updateD cv deltaTime s = Some s'" and "nearMaxSpeed s"
  shows "nearMaxSpeed s'"
proof -
  from Ship_updateD_velocity [OF assms(1)] obtain s1 v where
    s1: "GameObject_updateD cv deltaTime s = Some s1"
    and v: "multiplyD (velocity s1) (fl 0.99) = Some v"
    and s': "velocity s' = v" "maxSpeed s' = maxSpeed s1"
    by blast
  note f = GameObject_updateD_frame [OF s1]
  define N where "N = magnitude (velocity s1)"
  have N: "0 \<le> N" "N \<le> 400 * (1 + 1 / 2 ^ 50)"
    using assms(2) by (simp_all add: N_def f nearMaxSpeed_def magnitude_nonneg)
  define e :: real where "e = 2 powi (- 1075)"
  have e: "e \<le> 1 / 2 ^ 200" unfolding e_def by (rule tiny)
  have "magnitude v \<le> \<bar>fl 0.99\<bar> * (1 + 1 / 2 ^ 53) * N + 2 * e"
    unfolding N_def e_def by (rule magnitude_scaled [OF v])
  moreover have "\<bar>fl 0.99\<bar> * (1 + 1 / 2 ^ 53) * N \<le> 199 / 200 * (1 + 1 / 2 ^ 53) * N"
    using damping N(1) by (intro mult_right_mono) simp_all
  ultimately have "magnitude v \<le> 400 * (1 + 1 / 2 ^ 50)"
    using N e by (simp; argo)
  with s' f assms(2) show ?thesis by (simp add: nearMaxSpeed_def)
qed

text \<open>
  The clamp of \<^verbatim>\<open>thrust\<close>: the factor \<open>maxSpeed / speed\<close> is rounded, and so are its
  products with the two components.
\<close>

lemma tiny_big: "(2::real) powi (- 1075) * 2 ^ 1024 = 1 / 2 ^ 51"
proof -
  have "(2::real) powi (- 1075) * 2 powi 1024 = 2 powi (- 1075 + 1024)"
    by (rule power_int_add [symmetric]) simp
  then show ?thesis by (simp add: power_int_minus field_simps)
qed

lemma thrustD_cases:
  assumes "thrustD cosD sinD forward deltaTime s = Some s'"
  obtains (keep) v sp where "magnitudeD v = Some sp" "\<not> sp > maxSpeed s" "s' = s\<lparr>velocity := v\<rparr>"
  | (clamp) v sp k w where "magnitudeD v = Some sp" "sp > maxSpeed s"
      "divideD (maxSpeed s) sp = Some k" "multiplyD v k = Some w" "s' = s\<lparr>velocity := w\<rparr>"
proof -
  from assms obtain v sp where sp: "magnitudeD v = Some sp"
    and r: "(if sp > maxSpeed s
          then do { k \<leftarrow> divideD (maxSpeed s) sp;
                    w \<leftarrow> multiplyD v k;
                    Some (s\<lparr>velocity := w\<rparr>) }
          else Some (s\<lparr>velocity := v\<rparr>)) = Some s'"
    unfolding thrustD_def by (auto simp add: bind_eq_Some_conv)
  show ?thesis
  proof (cases "sp > maxSpeed s")
    case True
    with r obtain k w where "divideD (maxSpeed s) sp = Some k" "multiplyD v k = Some w"
      "s' = s\<lparr>velocity := w\<rparr>"
      by (auto simp add: bind_eq_Some_conv)
    with sp True show ?thesis by (rule clamp)
  next
    case False
    with r have "s' = s\<lparr>velocity := v\<rparr>" by simp
    with sp False show ?thesis by (rule keep)
  qed
qed

lemma clamp_bound:
  assumes sp: "magnitudeD v = Some sp" and gt: "sp > 400"
    and k: "divideD 400 sp = Some k" and w: "multiplyD v k = Some w"
  shows "magnitude w \<le> 400 * (1 + 1 / 2 ^ 50)"
proof -
  define e :: real where "e = 2 powi (- 1075)"
  have e: "0 \<le> e" "e \<le> 1 / 2 ^ 200"
    unfolding e_def by (simp, rule tiny)
  define N where "N = magnitude v"
  have N0: "0 \<le> N" by (simp add: N_def magnitude_nonneg)
  have N: "N \<le> sp * (1 + 4 / 2 ^ 53)"
    unfolding N_def using gt by (intro speed_le [OF sp]) simp_all
  from sp obtain sm where "dbl (sqrt sm) = Some sp"
    by (auto simp add: magnitudeD_def sqrtD_def bind_eq_Some_conv split: if_splits)
  from dbl_lt [OF this] have big: "sp < 2 ^ 1024" by linarith
  have "e * sp \<le> e * 2 ^ 1024" using big e(1) by (intro mult_left_mono) simp_all
  also have "\<dots> = 1 / 2 ^ 51" unfolding e_def by (rule tiny_big)
  finally have es: "e * sp \<le> 1 / 2 ^ 51" .
  from k gt have dk: "dbl (400 / sp) = Some k" by (simp add: divideD_def split: if_splits)
  have "\<bar>k - 400 / sp\<bar> \<le> \<bar>400 / sp\<bar> / 2 ^ 53 + e"
    unfolding e_def by (rule dbl_err [OF dk])
  moreover have "\<bar>400 / sp\<bar> = 400 / sp" using gt by simp
  ultimately have kb: "\<bar>k\<bar> \<le> 400 / sp + (400 / sp) / 2 ^ 53 + e" by linarith
  have q0: "0 \<le> 400 / sp + (400 / sp) / 2 ^ 53 + e" using gt e(1) by simp
  have "\<bar>k\<bar> * N \<le> (400 / sp + (400 / sp) / 2 ^ 53 + e) * (sp * (1 + 4 / 2 ^ 53))"
    using kb N N0 q0 by (intro mult_mono) simp_all
  also have "\<dots> = 400 * (1 + 1 / 2 ^ 53) * (1 + 4 / 2 ^ 53) + (e * sp) * (1 + 4 / 2 ^ 53)"
    using gt by (simp add: field_simps)
  finally have P: "\<bar>k\<bar> * N \<le> 400 * (1 + 1 / 2 ^ 53) * (1 + 4 / 2 ^ 53) + (e * sp) * (1 + 4 / 2 ^ 53)" .
  define P where "P = \<bar>k\<bar> * N"
  define Z where "Z = e * sp"
  have "magnitude w \<le> \<bar>k\<bar> * (1 + 1 / 2 ^ 53) * N + 2 * e"
    unfolding N_def e_def by (rule magnitude_scaled [OF w])
  also have "\<bar>k\<bar> * (1 + 1 / 2 ^ 53) * N = (1 + 1 / 2 ^ 53) * P"
    by (simp add: P_def)
  finally have "magnitude w \<le> (1 + 1 / 2 ^ 53) * P + 2 * e" .
  moreover have "P \<le> 400 * (1 + 1 / 2 ^ 53) * (1 + 4 / 2 ^ 53) + Z * (1 + 4 / 2 ^ 53)"
    using P by (simp only: P_def Z_def)
  moreover have "Z \<le> 1 / 2 ^ 51" using es by (simp only: Z_def)
  ultimately show ?thesis using e by (simp; argo)
qed

lemma nearMaxSpeed_thrustD:
  assumes "thrustD cosD sinD forward deltaTime s = Some s'" and "maxSpeed s = 400"
  shows "nearMaxSpeed s'"
  using assms(1)
proof (cases rule: thrustD_cases)
  case (keep v sp)
  from keep(2) assms(2) have "sp \<le> 400" by simp
  from speed_le [OF keep(1) this] have "magnitude v \<le> 400 * (1 + 4 / 2 ^ 53)" by simp
  then have "magnitude v \<le> 400 * (1 + 1 / 2 ^ 50)" by simp
  with keep(3) assms(2) show ?thesis by (simp add: nearMaxSpeed_def)
next
  case (clamp v sp k w)
  from clamp(2,3) assms(2) have "sp > 400" "divideD 400 sp = Some k" by simp_all
  from clamp_bound [OF clamp(1) this clamp(4)] clamp(5) assms(2)
  show ?thesis by (simp add: nearMaxSpeed_def)
qed

lemma nearMaxSpeed_shipOpD:
  assumes "shipOpD cosD sinD cv op s = Some s'" and "nearMaxSpeed s"
  shows "nearMaxSpeed s'"
proof (cases op)
  case (Thrust forward deltaTime)
  with assms(1) have "thrustD cosD sinD forward deltaTime s = Some s'" by simp
  moreover from assms(2) have "maxSpeed s = 400" by (simp add: nearMaxSpeed_def)
  ultimately show ?thesis by (rule nearMaxSpeed_thrustD)
next
  case (Rotate direction deltaTime)
  with assms show ?thesis by (simp add: nearMaxSpeed_rotateD)
next
  case (Update deltaTime)
  with assms show ?thesis by (simp add: nearMaxSpeed_Ship_updateD)
next
  case (Respawn a b)
  with assms show ?thesis by (auto simp add: nearMaxSpeed_respawn)
qed

lemma nearMaxSpeed_shipOpsD:
  "shipOpsD cosD sinD cv ops s = Some s' \<Longrightarrow> nearMaxSpeed s \<Longrightarrow> nearMaxSpeed s'"
proof (induction ops arbitrary: s)
  case Nil
  then show ?case by simp
next
  case (Cons op ops)
  from Cons.prems(1) obtain s1 where 1: "shipOpD cosD sinD cv op s = Some s1"
    and 2: "shipOpsD cosD sinD cv ops s1 = Some s'"
    by (auto split: option.splits)
  from nearMaxSpeed_shipOpD [OF 1 Cons.prems(2)] have "nearMaxSpeed s1" .
  with 2 show ?case by (rule Cons.IH)
qed

text \<open>
  A ship at rest with rotation \<open>0\<close>, so that \<^verbatim>\<open>Math.cos\<close> returns \<open>1\<close> and \<^verbatim>\<open>Math.sin\<close>
  returns \<open>0\<close>, and one call \<^verbatim>\<open>thrust(true, 1.9375)\<close>: the velocity becomes
  \<open>(581.25, 0)\<close>, the speed \<open>581.25\<close> exceeds \<open>400\<close>, the factor \<open>400 / 581.25\<close> is rounded
  to \<open>3099251356470019 / 2 ^ 52\<close>, and the product with \<open>581.25\<close> is rounded to
  \<open>400 + 1 / 2 ^ 44\<close>.
\<close>

lemma fl_1: "fl 1 = 1"
  using fl_eval [of 0 1 4503599627370496] by simp

lemma cosR_0: "cosR 0 = 1" and sinR_0: "sinR 0 = 0"
  by (simp_all add: cosR_def sinR_def fl_1 fl_0)

lemma sqrt_581: "sqrt (5405625 / 2 ^ 4) = 2325 / 2 ^ 2"
  by (rule real_sqrt_unique) (simp_all add: power2_eq_square)

lemma sqrt_400:
  "\<bar>sqrt (2748779069440001 / 2 ^ 34) / 2 powi (8 - 52) - of_int 7036874417766401\<bar> < 1 / 2"
proof -
  have lo: "(14073748835532801 / 2 ^ 45 :: real) < sqrt (2748779069440001 / 2 ^ 34)"
    by (rule real_less_rsqrt) (simp add: power2_eq_square)
  have hi: "sqrt (2748779069440001 / 2 ^ 34) < (14073748835532803 / 2 ^ 45 :: real)"
    by (rule real_less_lsqrt) (simp_all add: power2_eq_square)
  define r :: real where "r = sqrt (2748779069440001 / 2 ^ 34)"
  have "r / 2 powi (8 - 52) = r * 2 ^ 44"
    by (simp add: power_int_minus field_simps)
  moreover have "14073748835532801 / 2 < r * 2 ^ 44" "r * 2 ^ 44 < 14073748835532803 / 2"
    using lo hi unfolding r_def [symmetric] by (simp_all add: field_simps)
  ultimately show ?thesis
    unfolding r_def [symmetric] by (simp; argo)
qed

lemma c8_values:
  "timesD 300 (31 / 16) = Some (2325 / 2 ^ 2)"
  "timesD (2325 / 2 ^ 2) 1 = Some (2325 / 2 ^ 2)"
  "timesD 1 (2325 / 2 ^ 2) = Some (2325 / 2 ^ 2)"
  "timesD 0 (2325 / 2 ^ 2) = Some 0"
  "plusD 0 (2325 / 2 ^ 2) = Some (2325 / 2 ^ 2)"
  "plusD 0 0 = Some 0"
  "timesD (2325 / 2 ^ 2) (2325 / 2 ^ 2) = Some (5405625 / 2 ^ 4)"
  "timesD 0 0 = Some 0"
  "plusD (5405625 / 2 ^ 4) 0 = Some (5405625 / 2 ^ 4)"
  "sqrtD (5405625 / 2 ^ 4) = Some (2325 / 2 ^ 2)"
  "divideD 400 (2325 / 2 ^ 2) = Some (3099251356470019 / 2 ^ 52)"
  "timesD (2325 / 2 ^ 2) (3099251356470019 / 2 ^ 52) = Some (7036874417766401 / 2 ^ 44)"
  "timesD 0 (3099251356470019 / 2 ^ 52) = Some 0"
  "timesD (7036874417766401 / 2 ^ 44) (7036874417766401 / 2 ^ 44) = Some (2748779069440001 / 2 ^ 34)"
  "plusD (2748779069440001 / 2 ^ 34) 0 = Some (2748779069440001 / 2 ^ 34)"
  "sqrtD (2748779069440001 / 2 ^ 34) = Some (7036874417766401 / 2 ^ 44)"
proof -
  have a: "dbl (2325 / 2 ^ 2) = Some (2325 / 2 ^ 2)"
    using dbl_eval [of 9 "2325 / 2 ^ 2" 5112729069158400] by simp
  have b: "dbl (5405625 / 2 ^ 4) = Some (5405625 / 2 ^ 4)"
    using dbl_eval [of 18 "5405625 / 2 ^ 4" 5804245647360000] by simp
  have c: "dbl (2748779069440001 / 2 ^ 34) = Some (2748779069440001 / 2 ^ 34)"
    using dbl_eval [of 17 "2748779069440001 / 2 ^ 34" 5497558138880002] by simp
  show "timesD 300 (31 / 16) = Some (2325 / 2 ^ 2)"
    using a by (simp add: timesD_def)
  show "timesD (2325 / 2 ^ 2) 1 = Some (2325 / 2 ^ 2)"
    using a by (simp add: timesD_def)
  show "timesD 1 (2325 / 2 ^ 2) = Some (2325 / 2 ^ 2)"
    using a by (simp add: timesD_def)
  show "timesD 0 (2325 / 2 ^ 2) = Some 0"
    by (simp add: timesD_def dbl_0)
  show "plusD 0 (2325 / 2 ^ 2) = Some (2325 / 2 ^ 2)"
    using a by (simp add: plusD_def)
  show "plusD 0 0 = Some 0"
    by (simp add: plusD_def dbl_0)
  show "timesD (2325 / 2 ^ 2) (2325 / 2 ^ 2) = Some (5405625 / 2 ^ 4)"
    using b by (simp add: timesD_def)
  show "timesD 0 0 = Some 0"
    by (simp add: timesD_def dbl_0)
  show "plusD (5405625 / 2 ^ 4) 0 = Some (5405625 / 2 ^ 4)"
    using b by (simp add: plusD_def)
  show "sqrtD (5405625 / 2 ^ 4) = Some (2325 / 2 ^ 2)"
    unfolding sqrtD_def sqrt_581 using a by simp
  show "divideD 400 (2325 / 2 ^ 2) = Some (3099251356470019 / 2 ^ 52)"
    using dbl_eval [of "- 1" "400 / (2325 / 2 ^ 2)" 6198502712940038] by (simp add: divideD_def)
  show "timesD (2325 / 2 ^ 2) (3099251356470019 / 2 ^ 52) = Some (7036874417766401 / 2 ^ 44)"
    using dbl_eval [of 8 "(2325 / 2 ^ 2) * (3099251356470019 / 2 ^ 52)" 7036874417766401]
    by (simp add: timesD_def)
  show "timesD 0 (3099251356470019 / 2 ^ 52) = Some 0"
    by (simp add: timesD_def dbl_0)
  show "timesD (7036874417766401 / 2 ^ 44) (7036874417766401 / 2 ^ 44) = Some (2748779069440001 / 2 ^ 34)"
    using dbl_eval [of 17 "(7036874417766401 / 2 ^ 44) * (7036874417766401 / 2 ^ 44)" 5497558138880002]
    by (simp add: timesD_def)
  show "plusD (2748779069440001 / 2 ^ 34) 0 = Some (2748779069440001 / 2 ^ 34)"
    using c by (simp add: plusD_def)
  have s0: "0 \<le> sqrt (2748779069440001 / 2 ^ 34)" by simp
  have lo: "(256::real) \<le> sqrt (2748779069440001 / 2 ^ 34)"
    by (rule real_le_rsqrt) (simp add: power2_eq_square)
  have hi: "sqrt (2748779069440001 / 2 ^ 34) < (512::real)"
    by (rule real_less_lsqrt) (simp_all add: power2_eq_square)
  have "dbl (sqrt (2748779069440001 / 2 ^ 34)) = Some (2 powi (8 - 52) * of_int 7036874417766401)"
  proof (rule dbl_eval)
    show "2 powi 8 \<le> \<bar>sqrt (2748779069440001 / 2 ^ 34)\<bar>" using lo by simp
    show "\<bar>sqrt (2748779069440001 / 2 ^ 34)\<bar> < 2 powi (8 + 1)" using hi by simp
    show "- 1022 \<le> (8::int)" by simp
    show "\<bar>sqrt (2748779069440001 / 2 ^ 34) / 2 powi (8 - 52) - of_int 7036874417766401\<bar> < 1 / 2"
      by (rule sqrt_400)
    show "\<bar>(2::real) powi (8 - 52) * of_int 7036874417766401\<bar> < 2 ^ 1024" by simp
  qed
  moreover have "(2::real) powi (8 - 52) * of_int 7036874417766401 = 7036874417766401 / 2 ^ 44"
    by (simp add: power_int_minus field_simps)
  ultimately show "sqrtD (2748779069440001 / 2 ^ 34) = Some (7036874417766401 / 2 ^ 44)"
    by (simp add: sqrtD_def)
qed

lemma ship0_fields:
  "thrustPower (Ship_new 400 300) = 300" "rotation (Ship_new 400 300) = 0"
  "velocity (Ship_new 400 300) = Vector2D_new 0 0" "maxSpeed (Ship_new 400 300) = 400"
  by (simp_all add: Ship_new_def)

lemma vec_fields: "vec_x (Vector2D_new a b) = a" "vec_y (Vector2D_new a b) = b"
  by (simp_all add: Vector2D_new_def)

lemma shipFast_fields:
  "velocity shipFast = Vector2D_new (7036874417766401 / 2 ^ 44) 0" "maxSpeed shipFast = 400"
  by (simp_all add: shipFast_def Ship_new_def)

lemma shipFast_thrust: "thrustD cosR sinR True (31 / 16) (Ship_new 400 300) = Some shipFast"
proof -
  have gt: "(400::real) < 2325 / 2 ^ 2" by simp
  show ?thesis
    by (simp only: thrustD_def multiplyD_def addD_def magnitudeD_def ship0_fields vec_fields
        cosR_0 sinR_0 c8_values bind.bind_lunit if_True gt shipFast_def)
qed

lemma shipFast_run:
  "shipOpsD cosR sinR cv0 [Thrust True (31 / 16)] (Ship_new 400 300) = Some shipFast"
  by (simp add: shipFast_thrust)

lemma shipFast_magnitudeD: "magnitudeD (velocity shipFast) = Some (7036874417766401 / 2 ^ 44)"
  by (simp only: magnitudeD_def shipFast_fields vec_fields c8_values bind.bind_lunit)

lemma shipFast_magnitude: "magnitude (velocity shipFast) = 7036874417766401 / 2 ^ 44"
proof -
  have "magnitude (velocity shipFast) = sqrt ((7036874417766401 / 2 ^ 44)\<^sup>2)"
    by (simp add: magnitude_def shipFast_fields vec_fields power2_eq_square)
  also have "\<dots> = 7036874417766401 / 2 ^ 44"
    by (simp only: real_sqrt_abs) simp
  finally show ?thesis .
qed

text \<open>
  Claim C8 says that the speed of the ship never exceeds \<open>maxSpeed = 400\<close>, because
  \<^verbatim>\<open>thrust\<close> clamps the velocity to \<open>maxSpeed\<close>. After \<^verbatim>\<open>new Ship(400, 300)\<close> and
  \<^verbatim>\<open>thrust(true, 1.9375)\<close> the velocity is \<open>(400.00000000000006, 0)\<close>: its length, and
  the value that \<^verbatim>\<open>magnitude()\<close> computes for it, is \<open>400 + 1 / 2 ^ 44\<close>, above
  \<open>maxSpeed\<close>.
\<close>

theorem C8_speed_exceeds_maxSpeed:
  "shipOpsD cosR sinR cv0 [Thrust True (31 / 16)] (Ship_new 400 300) = Some shipFast \<and>
   maxSpeed shipFast = 400 \<and>
   velocity shipFast = Vector2D_new (400 + 1 / 2 ^ 44) 0 \<and>
   magnitude (velocity shipFast) = 400 + 1 / 2 ^ 44 \<and>
   magnitudeD (velocity shipFast) = Some (400 + 1 / 2 ^ 44) \<and>
   \<not> magnitude (velocity shipFast) \<le> maxSpeed shipFast"
  using shipFast_run shipFast_magnitudeD shipFast_magnitude
  by (simp add: shipFast_fields)

text \<open>
  Claim C8, as it holds of the code. A ship is created at rest with \<open>maxSpeed = 400\<close>;
  whatever operations (\<^verbatim>\<open>thrust\<close>, \<^verbatim>\<open>rotate\<close>, \<^verbatim>\<open>update\<close>, \<^verbatim>\<open>respawn\<close>, with any
  arguments, and any \<^verbatim>\<open>Math.cos\<close> and \<^verbatim>\<open>Math.sin\<close>) are then applied to it, in any order,
  as long as every intermediate result is a finite number, \<open>maxSpeed\<close> stays \<open>400\<close> and the
  speed is at most \<open>400 * (1 + 1 / 2 ^ 50)\<close>: the clamp of \<^verbatim>\<open>thrust\<close> reaches \<open>maxSpeed\<close>
  up to rounding. Every single operation preserves this bound; \<^verbatim>\<open>thrust\<close> establishes it
  from any velocity; \<^verbatim>\<open>update\<close> multiplies the velocity by the double nearest to \<open>0.99\<close>,
  rounding each component; \<^verbatim>\<open>respawn\<close> sets the velocity to zero.
\<close>

theorem C8_ship_speed_bounded:
  "(shipOpsD cosD sinD cv ops (Ship_new a b) = Some s \<longrightarrow>
      maxSpeed s = 400 \<and> magnitude (velocity s) \<le> 400 * (1 + 1 / 2 ^ 50)) \<and>
   (nearMaxSpeed s \<and> shipOpD cosD sinD cv op s = Some s' \<longrightarrow> nearMaxSpeed s') \<and>
   (maxSpeed s = 400 \<and> thrustD cosD sinD forward deltaTime s = Some s' \<longrightarrow>
      magnitude (velocity s') \<le> 400 * (1 + 1 / 2 ^ 50)) \<and>
   (Ship_updateD cv deltaTime s = Some s' \<longrightarrow>
      multiplyD (velocity s) (fl 0.99) = Some (velocity s') \<and> maxSpeed s' = maxSpeed s) \<and>
   velocity (respawn a b s) = Vector2D_new 0 0"
proof (intro conjI impI)
  assume "shipOpsD cosD sinD cv ops (Ship_new a b) = Some s"
  from nearMaxSpeed_shipOpsD [OF this nearMaxSpeed_Ship_new]
  show "maxSpeed s = 400" and "magnitude (velocity s) \<le> 400 * (1 + 1 / 2 ^ 50)"
    by (simp_all add: nearMaxSpeed_def)
next
  assume "nearMaxSpeed s \<and> shipOpD cosD sinD cv op s = Some s'"
  then show "nearMaxSpeed s'" using nearMaxSpeed_shipOpD by blast
next
  assume "maxSpeed s = 400 \<and> thrustD cosD sinD forward deltaTime s = Some s'"
  then have "nearMaxSpeed s'" using nearMaxSpeed_thrustD by blast
  then show "magnitude (velocity s') \<le> 400 * (1 + 1 / 2 ^ 50)"
    by (simp add: nearMaxSpeed_def)
next
  assume u: "Ship_updateD cv deltaTime s = Some s'"
  from Ship_updateD_velocity [OF u] obtain s1 v where
    s1: "GameObject_updateD cv deltaTime s = Some s1"
    and v: "multiplyD (velocity s1) (fl 0.99) = Some v"
    and s': "velocity s' = v" "maxSpeed s' = maxSpeed s1"
    by blast
  note f = GameObject_updateD_frame [OF s1]
  from v s' f show "multiplyD (velocity s) (fl 0.99) = Some (velocity s')" by simp
  from s' f show "maxSpeed s' = maxSpeed s" by simp
next
  show "velocity (respawn a b s) = Vector2D_new 0 0" by (simp add: respawn_def)
qed

theorem C8_ship_speed_bounded_witness:
  "shipOpsD cosR sinR cv0 [Thrust True (31 / 16)] (Ship_new 400 300) = Some shipFast \<and>
   maxSpeed shipFast = 400 \<and>
   magnitude (velocity shipFast) = 400 + 1 / 2 ^ 44 \<and>
   magnitude (velocity shipFast) \<le> 400 * (1 + 1 / 2 ^ 50) \<and>
   nearMaxSpeed (Ship_new 400 300) \<and> nearMaxSpeed shipFast"
proof -
  note inst = C8_ship_speed_bounded [of cosR sinR cv0 "[Thrust True (31 / 16)]" 400 300 shipFast
      "Thrust True (31 / 16)" shipFast True "31 / 16"]
  from inst shipFast_run
  have 1: "maxSpeed shipFast = 400" "magnitude (velocity shipFast) \<le> 400 * (1 + 1 / 2 ^ 50)"
    by blast+
  then have 2: "nearMaxSpeed shipFast" by (simp add: nearMaxSpeed_def)
  have 3: "magnitude (velocity shipFast) = 400 + 1 / 2 ^ 44"
    using shipFast_magnitude by simp
  from shipFast_run 1 2 3 nearMaxSpeed_Ship_new [of 400 300] show ?thesis by blast
qed

subsection \<open>The message queue is bounded and holds live messages\<close>

lemma updateMessages_positive:
  "m \<in> set (messages (updateMessages deltaTime u)) \<Longrightarrow> 0 < timeLeft m"
  by (auto simp add: updateMessages_def Let_def)

lemma messages_showMessage:
  "messages (showMessage tx dur ty now u) =
     (if length (messages u) + 1 > maxMessages u
      then tl (messages u @ [\<lparr>msg_text = tx, timeLeft = dur, msg_type = ty, timestamp = now\<rparr>])
      else messages u @ [\<lparr>msg_text = tx, timeLeft = dur, msg_type = ty, timestamp = now\<rparr>])"
  by (simp add: showMessage_def Let_def)

lemma maxMessages_showMessage: "maxMessages (showMessage tx dur ty now u) = maxMessages u"
  by (simp add: showMessage_def Let_def)

lemma withinCap_new: "withinCap (UIManager_new shown)"
  by (simp add: withinCap_def UIManager_new_def)

lemma withinCap_showMessage: "withinCap u \<Longrightarrow> withinCap (showMessage tx dur ty now u)"
  by (simp add: withinCap_def messages_showMessage maxMessages_showMessage)

lemma withinCap_updateMessages: "withinCap u \<Longrightarrow> withinCap (updateMessages deltaTime u)"
proof -
  assume c: "withinCap u"
  have "length (messages (updateMessages deltaTime u)) \<le> length (messages u)"
    using length_filter_le [of "\<lambda>m. timeLeft m > 0"
        "map (\<lambda>m. m\<lparr>timeLeft := timeLeft m - deltaTime\<rparr>) (messages u)"]
    by (simp add: updateMessages_def Let_def)
  moreover have "maxMessages (updateMessages deltaTime u) = maxMessages u"
    by (simp add: updateMessages_def Let_def)
  ultimately show ?thesis using c by (simp add: withinCap_def)
qed

lemma withinCap_reset: "withinCap u \<Longrightarrow> withinCap (UIManager_reset u)"
  by (simp add: withinCap_def UIManager_reset_def)

lemma withinCap_uiOp: "withinCap u \<Longrightarrow> withinCap (uiOp op u)"
  by (cases op) (simp_all add: withinCap_showMessage withinCap_updateMessages withinCap_reset)

lemma withinCap_fold: "withinCap u \<Longrightarrow> withinCap (fold uiOp ops u)"
  by (induction ops arbitrary: u) (simp_all add: withinCap_uiOp)

text \<open>
  Claim C6. After \<^verbatim>\<open>updateMessages\<close>, every message of the queue has time left
  (\<open>timeLeft > 0\<close>). In every state \<open>u\<close> a \<^verbatim>\<open>UIManager\<close> reaches from its constructor by
  \<^verbatim>\<open>showMessage\<close>, \<^verbatim>\<open>updateMessages\<close> and \<^verbatim>\<open>reset\<close>, the queue after one more \<^verbatim>\<open>showMessage\<close>
  holds at most \<open>maxMessages = 3\<close> messages; when the new message is the fourth, the queue
  becomes the old one without its first (oldest) message, followed by the new message, and
  otherwise the new message is appended and nothing is evicted.
\<close>

theorem C6_message_queue:
  fixes shown :: "string list option" and ops :: "UIOp list" and tx :: string and dur ty now
  defines "u \<equiv> fold uiOp ops (UIManager_new shown)"
  defines "msg \<equiv> \<lparr>msg_text = tx, timeLeft = dur, msg_type = ty, timestamp = now\<rparr>"
  shows "(\<forall>m \<in> set (messages (updateMessages deltaTime v)). 0 < timeLeft m) \<and>
         maxMessages (showMessage tx dur ty now u) = 3 \<and>
         length (messages (showMessage tx dur ty now u)) \<le> 3 \<and>
         (length (messages u) = 3 \<longrightarrow>
            messages (showMessage tx dur ty now u) = tl (messages u) @ [msg]) \<and>
         (length (messages u) < 3 \<longrightarrow>
            messages (showMessage tx dur ty now u) = messages u @ [msg])"
proof -
  have c: "withinCap u"
    unfolding u_def by (rule withinCap_fold [OF withinCap_new])
  then have c': "withinCap (showMessage tx dur ty now u)"
    by (rule withinCap_showMessage)
  have mx: "maxMessages u = 3" using c by (simp add: withinCap_def)
  have 1: "\<forall>m \<in> set (messages (updateMessages deltaTime v)). 0 < timeLeft m"
    using updateMessages_positive by blast
  have 2: "maxMessages (showMessage tx dur ty now u) = 3"
    using c' by (simp add: withinCap_def)
  have 3: "length (messages (showMessage tx dur ty now u)) \<le> 3"
    using c' by (simp add: withinCap_def)
  have 4: "length (messages u) = 3 \<longrightarrow>
            messages (showMessage tx dur ty now u) = tl (messages u) @ [msg]"
  proof
    assume l: "length (messages u) = 3"
    then have "messages u \<noteq> []" by auto
    with l mx show "messages (showMessage tx dur ty now u) = tl (messages u) @ [msg]"
      by (simp add: messages_showMessage msg_def)
  qed
  have 5: "length (messages u) < 3 \<longrightarrow>
            messages (showMessage tx dur ty now u) = messages u @ [msg]"
    using mx by (simp add: messages_showMessage msg_def)
  from 1 2 3 4 5 show ?thesis by blast
qed


theorem C6_message_queue_witness:
  "length (messages (fold uiOp
      [ShowMessage ''a'' 500 ''info'' 1, ShowMessage ''b'' 3000 ''info'' 2,
       ShowMessage ''c'' 3000 ''warning'' 3] (UIManager_new None))) = 3 \<and>
   map msg_text (messages (showMessage ''d'' 2000 ''info'' 4 (fold uiOp
      [ShowMessage ''a'' 500 ''info'' 1, ShowMessage ''b'' 3000 ''info'' 2,
       ShowMessage ''c'' 3000 ''warning'' 3] (UIManager_new None)))) = [''b'', ''c'', ''d''] \<and>
   map timeLeft (messages (updateMessages 1000 (fold uiOp
      [ShowMessage ''a'' 500 ''info'' 1, ShowMessage ''b'' 3000 ''info'' 2,
       ShowMessage ''c'' 3000 ''warning'' 3] (UIManager_new None)))) = [2000, 2000] \<and>
   0 < timeLeft (hd (messages (updateMessages 1000 (fold uiOp
      [ShowMessage ''a'' 500 ''info'' 1, ShowMessage ''b'' 3000 ''info'' 2,
       ShowMessage ''c'' 3000 ''warning'' 3] (UIManager_new None)))))"
proof -
  let ?ops = "[ShowMessage ''a'' 500 ''info'' 1, ShowMessage ''b'' 3000 ''info'' 2,
       ShowMessage ''c'' 3000 ''warning'' 3]"
  let ?u = "fold uiOp ?ops (UIManager_new None)"
  have q: "messages ?u =
      [\<lparr>msg_text = ''a'', timeLeft = 500, msg_type = ''info'', timestamp = 1\<rparr>,
       \<lparr>msg_text = ''b'', timeLeft = 3000, msg_type = ''info'', timestamp = 2\<rparr>,
       \<lparr>msg_text = ''c'', timeLeft = 3000, msg_type = ''warning'', timestamp = 3\<rparr>]"
    by (simp add: showMessage_def UIManager_new_def Let_def)
  have l: "length (messages ?u) = 3"
    by (simp only: q list.size)
  have upd: "messages (updateMessages 1000 ?u) =
      [\<lparr>msg_text = ''b'', timeLeft = 2000, msg_type = ''info'', timestamp = 2\<rparr>,
       \<lparr>msg_text = ''c'', timeLeft = 2000, msg_type = ''warning'', timestamp = 3\<rparr>]"
    by (simp add: updateMessages_def showMessage_def UIManager_new_def Let_def)
  note inst = C6_message_queue [where deltaTime = 1000 and v = ?u and tx = "''d''" and dur = 2000
      and ty = "''info''" and now = 4 and ops = ?ops and shown = None]
  from inst l have "messages (showMessage ''d'' 2000 ''info'' 4 ?u) =
      tl (messages ?u) @ [\<lparr>msg_text = ''d'', timeLeft = 2000, msg_type = ''info'', timestamp = 4\<rparr>]"
    by blast
  then have shown: "map msg_text (messages (showMessage ''d'' 2000 ''info'' 4 ?u)) = [''b'', ''c'', ''d'']"
    by (simp only: q) simp
  from inst have "\<forall>m \<in> set (messages (updateMessages 1000 ?u)). 0 < timeLeft m"
    by blast
  then have pos: "0 < timeLeft (hd (messages (updateMessages 1000 ?u)))"
    by (simp only: upd) simp
  have tls: "map timeLeft (messages (updateMessages 1000 ?u)) = [2000, 2000]"
    by (simp only: upd) simp
  from l shown tls pos show ?thesis by blast
qed

subsection \<open>Invulnerability and respawn\<close>

lemma advance_moved:
  "advance rnd cv deltaTime g = checkCollisions rnd cv (moved cv deltaTime (handleInput deltaTime g))"
  by (simp add: advance_def moved_def Let_def)

lemma moved_frame:
  "lives (moved cv deltaTime g) = lives g \<and> gameOver (moved cv deltaTime g) = gameOver g \<and>
   score (moved cv deltaTime g) = score g \<and> cursor (moved cv deltaTime g) = cursor g \<and>
   ship (moved cv deltaTime g) = Ship_update cv deltaTime (ship g)"
  by (simp add: moved_def)

lemma update_running:
  assumes "\<not> gameOver g" and "update rnd cv deltaTime g = Some g'"
  shows "lives g' = lives (advance rnd cv deltaTime g) \<and>
         ship g' = ship (advance rnd cv deltaTime g) \<and>
         score g' = score (advance rnd cv deltaTime g) \<and>
         gameOver g' = gameOver (advance rnd cv deltaTime g)"
proof (cases "length (asteroids (advance rnd cv deltaTime g)) = 0")
  case True
  with assms have "spawnAsteroids rnd cv (nat (waveSize (score (advance rnd cv deltaTime g))))
      (advance rnd cv deltaTime g) = Some g'"
    by (simp add: update_def Let_def)
  from spawnAsteroids_frame [OF this] show ?thesis by simp
next
  case False
  with assms have "g' = advance rnd cv deltaTime g"
    by (simp add: update_def Let_def)
  then show ?thesis by simp
qed

lemma respawn_fields:
  "position (respawn a b s) = Vector2D_new a b \<and> velocity (respawn a b s) = Vector2D_new 0 0 \<and>
   invulnerable (respawn a b s) \<and> invulnerableTime (respawn a b s) = 3"
  by (simp add: respawn_def)

text \<open>The two concrete games, evaluated.\<close>

lemma rock_fields:
  "position (rock sz a b) = Vector2D_new a b \<and>
   velocity (rock sz a b) =
     Vector2D_new (if sz = ''large'' then 50 else if sz = ''medium'' then 80 else 120) 0 \<and>
   radius (rock sz a b) = (if sz = ''large'' then 40 else if sz = ''medium'' then 25 else 15) \<and>
   asize (rock sz a b) = sz"
  by (simp add: rock_def Asteroid_new_def Let_def rnd0_def)

lemma handleInput_idle:
  assumes "keys g = Map.empty" and "canShoot g" and "shootCooldown g = 0"
  shows "handleInput deltaTime g = g"
  using assms
  by (simp add: handleInput_def Let_def onKey_def trigger_def release_def cool_def pressed_def)

lemma checkCollisions_no_bullets:
  "bullets g = [] \<Longrightarrow> checkCollisions rnd cv g = shipCollisions cv g"
  by (simp add: checkCollisions_def)

lemma gameHit_fields:
  "keys gameHit = Map.empty \<and> canShoot gameHit \<and> shootCooldown gameHit = 0 \<and>
   bullets gameHit = [] \<and> lives gameHit = 5 \<and> \<not> gameOver gameHit \<and>
   asteroids gameHit = [rock ''large'' 400 300] \<and> ship gameHit = Ship_new 400 300"
  by (simp add: gameHit_def game0_def)

lemma Ship_new_update: "Ship_update cv0 (1 / 50) (Ship_new 400 300) = Ship_new 400 300"
  by (simp add: Ship_update_def GameObject_update_def wrapPosition_def Let_def Ship_new_def
      add_def multiply_def Vector2D_new_def cv0_def)

lemma hit_collides: "checkCollision (Ship_new 400 300) (rock ''large'' 400 300)"
  by (simp add: checkCollision_def Let_def rock_fields Ship_new_def Vector2D_new_def)

lemma hit_collides_moved:
  "checkCollision (Ship_new 400 300) (Asteroid_update cv0 (1 / 50) (rock ''large'' 400 300))"
  by (simp add: checkCollision_def Let_def rock_fields Ship_new_def Vector2D_new_def
      Asteroid_update_def GameObject_update_def wrapPosition_def add_def multiply_def cv0_def)

lemma Ship_new_vulnerable: "\<not> invulnerable (Ship_new a b)"
  by (simp add: Ship_new_def)

lemma gameHit_check: "lives (checkCollisions rnd0 cv0 gameHit) = 4"
  by (simp add: checkCollisions_no_bullets gameHit_fields shipCollisions_def hit_collides
      Ship_new_vulnerable updateUI_def Let_def)

lemma gameHit_advance:
  "lives (advance rnd0 cv0 (1 / 50) gameHit) = 4 \<and>
   asteroids (advance rnd0 cv0 (1 / 50) gameHit) =
     [Asteroid_update cv0 (1 / 50) (rock ''large'' 400 300)]"
proof -
  have h: "handleInput (1 / 50) gameHit = gameHit"
    by (rule handleInput_idle) (simp_all add: gameHit_fields)
  have m: "moved cv0 (1 / 50) gameHit =
      gameHit\<lparr>ship := Ship_new 400 300, bullets := [],
        asteroids := [Asteroid_update cv0 (1 / 50) (rock ''large'' 400 300)]\<rparr>"
    by (simp add: moved_def gameHit_fields Ship_new_update)
  show ?thesis
    by (simp add: advance_moved h m checkCollisions_no_bullets shipCollisions_def
        hit_collides_moved Ship_new_vulnerable updateUI_def Let_def gameHit_fields)
qed

lemma gameHit_update:
  "update rnd0 cv0 (1 / 50) gameHit = Some (advance rnd0 cv0 (1 / 50) gameHit)"
  by (simp add: update_def Let_def gameHit_fields gameHit_advance)

lemma gameShielded_fields:
  "invulnerable (ship gameShielded) \<and> invulnerableTime (ship gameShielded) = 3 \<and>
   lives gameShielded = 5 \<and> \<not> gameOver gameShielded \<and>
   asteroids gameShielded = [rock ''large'' 400 300] \<and> bullets gameShielded = [] \<and>
   keys gameShielded = Map.empty \<and> canShoot gameShielded \<and> shootCooldown gameShielded = 0"
  by (simp add: gameShielded_def gameHit_fields)

lemma gameShielded_update:
  "update rnd0 cv0 (1 / 50) gameShielded = Some (advance rnd0 cv0 (1 / 50) gameShielded)"
proof -
  have h: "handleInput (1 / 50) gameShielded = gameShielded"
    by (rule handleInput_idle) (simp_all add: gameShielded_fields)
  have "asteroids (checkCollisions rnd0 cv0 (moved cv0 (1 / 50) gameShielded)) \<noteq> []"
    by (simp add: checkCollisions_no_bullets shipCollisions_lists moved_def gameShielded_fields)
  then show ?thesis
    by (simp add: update_def Let_def gameShielded_fields advance_moved h)
qed

text \<open>
  Claim C10. With the ship invulnerable, \<^verbatim>\<open>checkCollisions\<close> leaves the lives, the ship
  and \<open>gameOver\<close> as they are; so does a whole frame, as long as the invulnerability
  outlasts it. Whenever \<^verbatim>\<open>checkCollisions\<close>, or a whole frame, changes the lives and
  leaves a positive number of them, exactly one life was lost and the ship is at the centre
  of the canvas, at rest, with \<open>invulnerable = true\<close> and \<open>invulnerableTime = 3\<close>.
\<close>

theorem C10_invulnerable_and_respawn:
  "(invulnerable (ship g) \<longrightarrow>
      lives (checkCollisions rnd cv g) = lives g \<and>
      ship (checkCollisions rnd cv g) = ship g \<and>
      gameOver (checkCollisions rnd cv g) = gameOver g) \<and>
   (lives (checkCollisions rnd cv g) \<noteq> lives g \<and> 0 < lives (checkCollisions rnd cv g) \<longrightarrow>
      lives (checkCollisions rnd cv g) = lives g - 1 \<and>
      position (ship (checkCollisions rnd cv g)) =
        Vector2D_new (real (width cv) / 2) (real (height cv) / 2) \<and>
      velocity (ship (checkCollisions rnd cv g)) = Vector2D_new 0 0 \<and>
      invulnerable (ship (checkCollisions rnd cv g)) \<and>
      invulnerableTime (ship (checkCollisions rnd cv g)) = 3) \<and>
   (\<not> gameOver g \<and> invulnerable (ship g) \<and> deltaTime < invulnerableTime (ship g) \<and>
    update rnd cv deltaTime g = Some g' \<longrightarrow> lives g' = lives g) \<and>
   (\<not> gameOver g \<and> update rnd cv deltaTime g = Some g' \<and>
    lives g' \<noteq> lives g \<and> 0 < lives g' \<longrightarrow>
      lives g' = lives g - 1 \<and>
      position (ship g') = Vector2D_new (real (width cv) / 2) (real (height cv) / 2) \<and>
      velocity (ship g') = Vector2D_new 0 0 \<and>
      invulnerable (ship g') \<and> invulnerableTime (ship g') = 3)"
proof (intro conjI impI)
  assume "invulnerable (ship g)"
  from checkCollisions_invulnerable [OF this, of rnd cv]
  show "lives (checkCollisions rnd cv g) = lives g"
    and "ship (checkCollisions rnd cv g) = ship g"
    and "gameOver (checkCollisions rnd cv g) = gameOver g"
    by simp_all
next
  assume "lives (checkCollisions rnd cv g) \<noteq> lives g \<and> 0 < lives (checkCollisions rnd cv g)"
  then have "lives (checkCollisions rnd cv g) \<noteq> lives g" "0 < lives (checkCollisions rnd cv g)"
    by simp_all
  from checkCollisions_life_lost [OF this]
  show "lives (checkCollisions rnd cv g) = lives g - 1"
    and "position (ship (checkCollisions rnd cv g)) =
          Vector2D_new (real (width cv) / 2) (real (height cv) / 2)"
    and "velocity (ship (checkCollisions rnd cv g)) = Vector2D_new 0 0"
    and "invulnerable (ship (checkCollisions rnd cv g))"
    and "invulnerableTime (ship (checkCollisions rnd cv g)) = 3"
    by (simp_all add: respawn_fields)
next
  assume a: "\<not> gameOver g \<and> invulnerable (ship g) \<and> deltaTime < invulnerableTime (ship g) \<and>
    update rnd cv deltaTime g = Some g'"
  let ?h = "moved cv deltaTime (handleInput deltaTime g)"
  from a have "invulnerable (ship (handleInput deltaTime g))"
    and "deltaTime < invulnerableTime (ship (handleInput deltaTime g))"
    by (simp_all add: handleInput_invulnerable)
  then have "invulnerable (ship ?h)"
    by (simp add: moved_frame Ship_update_still_invulnerable)
  from checkCollisions_invulnerable [OF this, of rnd cv]
  have "lives (advance rnd cv deltaTime g) = lives g"
    by (simp add: advance_moved moved_frame handleInput_frame)
  with a update_running [of g rnd cv deltaTime g'] show "lives g' = lives g"
    by simp
next
  assume a: "\<not> gameOver g \<and> update rnd cv deltaTime g = Some g' \<and>
    lives g' \<noteq> lives g \<and> 0 < lives g'"
  let ?h = "moved cv deltaTime (handleInput deltaTime g)"
  from a update_running [of g rnd cv deltaTime g']
  have eq: "lives g' = lives (checkCollisions rnd cv ?h)" "ship g' = ship (checkCollisions rnd cv ?h)"
    by (simp_all add: advance_moved)
  have l: "lives ?h = lives g"
    by (simp add: moved_frame handleInput_frame)
  from a eq l have "lives (checkCollisions rnd cv ?h) \<noteq> lives ?h" "0 < lives (checkCollisions rnd cv ?h)"
    by simp_all
  from checkCollisions_life_lost [OF this] eq l
  show "lives g' = lives g - 1"
    and "position (ship g') = Vector2D_new (real (width cv) / 2) (real (height cv) / 2)"
    and "velocity (ship g') = Vector2D_new 0 0"
    and "invulnerable (ship g')"
    and "invulnerableTime (ship g') = 3"
    by (simp_all add: respawn_fields)
qed

theorem C10_invulnerable_and_respawn_witness:
  "lives (checkCollisions rnd0 cv0 gameShielded) = 5 \<and>
   lives (checkCollisions rnd0 cv0 gameHit) = 4 \<and>
   position (ship (checkCollisions rnd0 cv0 gameHit)) = Vector2D_new 400 300 \<and>
   invulnerable (ship (checkCollisions rnd0 cv0 gameHit)) \<and>
   invulnerableTime (ship (checkCollisions rnd0 cv0 gameHit)) = 3 \<and>
   lives (advance rnd0 cv0 (1 / 50) gameShielded) = 5 \<and>
   lives (advance rnd0 cv0 (1 / 50) gameHit) = 4 \<and>
   invulnerable (ship (advance rnd0 cv0 (1 / 50) gameHit)) \<and>
   invulnerableTime (ship (advance rnd0 cv0 (1 / 50) gameHit)) = 3"
proof -
  note inst1 = C10_invulnerable_and_respawn [where g = gameShielded and rnd = rnd0 and cv = cv0
      and deltaTime = "1 / 50" and g' = "advance rnd0 cv0 (1 / 50) gameShielded"]
  note inst2 = C10_invulnerable_and_respawn [where g = gameHit and rnd = rnd0 and cv = cv0
      and deltaTime = "1 / 50" and g' = "advance rnd0 cv0 (1 / 50) gameHit"]
  have a: "lives (checkCollisions rnd0 cv0 gameShielded) = 5"
    using inst1 by (simp add: gameShielded_fields)
  have b: "lives (advance rnd0 cv0 (1 / 50) gameShielded) = 5"
    using inst1 gameShielded_update by (simp add: gameShielded_fields)
  have c: "lives (checkCollisions rnd0 cv0 gameHit) = 4"
    by (rule gameHit_check)
  have d: "position (ship (checkCollisions rnd0 cv0 gameHit)) = Vector2D_new 400 300 \<and>
      invulnerable (ship (checkCollisions rnd0 cv0 gameHit)) \<and>
      invulnerableTime (ship (checkCollisions rnd0 cv0 gameHit)) = 3"
    using inst2 c by (simp add: gameHit_fields cv0_def)
  have e: "lives (advance rnd0 cv0 (1 / 50) gameHit) = 4"
    by (simp add: gameHit_advance)
  have f: "invulnerable (ship (advance rnd0 cv0 (1 / 50) gameHit)) \<and>
      invulnerableTime (ship (advance rnd0 cv0 (1 / 50) gameHit)) = 3"
    using inst2 e gameHit_update by (simp add: gameHit_fields)
  from a b c d e f show ?thesis by blast
qed

subsection \<open>Bullets against asteroids\<close>

lemma hitIndex_Some:
  "hitIndex b as n = Some j \<Longrightarrow> j < n \<and> checkCollision b (as ! j)"
  by (induction n) (auto split: if_splits simp: less_Suc_eq)

lemma hitIndex_None:
  "hitIndex b as n = None \<Longrightarrow> k < n \<Longrightarrow> \<not> checkCollision b (as ! k)"
  by (induction n) (auto split: if_splits simp: less_Suc_eq)

lemma length_splice1: "i < length xs \<Longrightarrow> length (splice1 i xs) + 1 = length xs"
  by (simp add: splice1_def)

lemma length_split:
  "length (fst (split rnd a c)) = (if asize a = ''small'' then 0 else 2)"
  by (simp add: split_def Let_def split_beta)

lemma destroy_lists:
  "bullets (destroy rnd i j g) = splice1 i (bullets g) \<and>
   asteroids (destroy rnd i j g) =
     splice1 j (asteroids g) @ fst (split rnd (asteroids g ! j) (cursor g))"
  by (simp add: destroy_def Let_def split_beta updateUI_def)

lemma destroy_score:
  "score (destroy rnd i j g) = score g +
     (if asize (asteroids g ! j) = ''large'' then 20
      else if asize (asteroids g ! j) = ''medium'' then 50 else 100)"
  by (simp add: destroy_def Let_def split_beta updateUI_def)

lemma bulletStep_miss:
  "hitIndex (bullets g ! i) (asteroids g) (length (asteroids g)) = None \<Longrightarrow>
     bulletStep rnd i g = g"
  by (simp add: bulletStep_def)

lemma bulletStep_hit:
  "hitIndex (bullets g ! i) (asteroids g) (length (asteroids g)) = Some j \<Longrightarrow>
     bulletStep rnd i g = destroy rnd i j g"
  by (simp add: bulletStep_def)

lemma bulletStep_lengths:
  assumes "i < length (bullets g)"
  shows "(bulletStep rnd i g = g) \<or>
         (length (bullets (bulletStep rnd i g)) + 1 = length (bullets g) \<and>
          (length (asteroids (bulletStep rnd i g)) = length (asteroids g) + 1 \<or>
           length (asteroids (bulletStep rnd i g)) + 1 = length (asteroids g)))"
proof (cases "hitIndex (bullets g ! i) (asteroids g) (length (asteroids g))")
  case None
  then show ?thesis by (simp add: bulletStep_miss)
next
  case (Some j)
  then have j: "j < length (asteroids g)" using hitIndex_Some by blast
  have "length (bullets (destroy rnd i j g)) + 1 = length (bullets g)"
    using length_splice1 [OF assms] by (simp add: destroy_lists)
  moreover have "length (asteroids (destroy rnd i j g)) =
      length (splice1 j (asteroids g)) + (if asize (asteroids g ! j) = ''small'' then 0 else 2)"
    by (simp add: destroy_lists length_split)
  ultimately show ?thesis
    using length_splice1 [OF j] Some by (auto simp add: bulletStep_hit)
qed

lemma bulletLoop_lengths:
  "n \<le> length (bullets g) \<Longrightarrow>
     length (bullets (bulletLoop rnd n g)) \<le> length (bullets g) \<and>
     length (bullets g) \<le> length (bullets (bulletLoop rnd n g)) + n \<and>
     int (length (asteroids (bulletLoop rnd n g))) \<le>
       int (length (asteroids g)) + (int (length (bullets g)) - int (length (bullets (bulletLoop rnd n g)))) \<and>
     int (length (asteroids g)) - (int (length (bullets g)) - int (length (bullets (bulletLoop rnd n g)))) \<le>
       int (length (asteroids (bulletLoop rnd n g)))"
proof (induction n arbitrary: g)
  case 0
  then show ?case by simp
next
  case (Suc n)
  let ?g1 = "bulletStep rnd n g"
  from Suc.prems have lt: "n < length (bullets g)" by simp
  note step = bulletStep_lengths [OF lt, of rnd]
  from step lt have "n \<le> length (bullets ?g1)" by auto
  from Suc.IH [OF this] step show ?case
    by (simp only: bulletLoop.simps) (elim disjE conjE; simp; linarith)
qed


text \<open>A round leaves the bullets below its index alone: each round meets a bullet the loop started with.\<close>

lemma bulletStep_keeps_lower:
  assumes "i < length (bullets g)"
  shows "take i (bullets (bulletStep rnd i g)) = take i (bullets g)"
proof (cases "hitIndex (bullets g ! i) (asteroids g) (length (asteroids g))")
  case None
  then show ?thesis by (simp add: bulletStep_miss)
next
  case (Some j)
  have "take i (splice1 i (bullets g)) = take i (bullets g)"
    using assms by (simp add: splice1_def)
  with Some show ?thesis by (simp add: bulletStep_hit destroy_lists)
qed

lemma checkCollisions_lengths:
  "length (bullets (checkCollisions rnd cv g)) \<le> length (bullets g) \<and>
   \<bar>int (length (asteroids (checkCollisions rnd cv g))) - int (length (asteroids g))\<bar>
     \<le> int (length (bullets g)) - int (length (bullets (checkCollisions rnd cv g)))"
  using bulletLoop_lengths [of "length (bullets g)" g rnd]
  by (simp add: checkCollisions_def shipCollisions_lists abs_le_iff)

lemma knownSize_Asteroid_new:
  "sz = ''large'' \<or> sz = ''medium'' \<or> sz = ''small'' \<Longrightarrow>
     knownSize (fst (Asteroid_new rnd a b sz c))"
  by (simp add: knownSize_def)

lemma knownSize_split: "list_all knownSize (fst (split rnd a c))"
  by (simp add: split_def Let_def split_beta knownSize_def)

lemma knownSize_Asteroid_update: "knownSize (Asteroid_update cv deltaTime a) = knownSize a"
  by (simp add: knownSize_def Asteroid_update_def GameObject_update_def wrapPosition_def Let_def)

lemma knownSize_splice1: "list_all knownSize xs \<Longrightarrow> list_all knownSize (splice1 j xs)"
  by (auto simp add: splice1_def list_all_iff dest: in_set_takeD in_set_dropD)

lemma knownSize_bulletStep:
  "list_all knownSize (asteroids g) \<Longrightarrow> list_all knownSize (asteroids (bulletStep rnd i g))"
  by (simp add: bulletStep_def destroy_lists knownSize_splice1 knownSize_split
      split: option.split)

lemma knownSize_bulletLoop:
  "list_all knownSize (asteroids g) \<Longrightarrow> list_all knownSize (asteroids (bulletLoop rnd n g))"
  by (induction n arbitrary: g) (simp_all add: knownSize_bulletStep)

text \<open>The call as a run of rounds, and the destructions of a call.\<close>

lemma bulletLoop_fold: "bulletLoop rnd n g = fold (bulletStep rnd) (rev [0..<n]) g"
  by (induction n arbitrary: g) simp_all

lemma bulletStep_bullets_length:
  "i < length (bullets g) \<Longrightarrow> i \<le> length (bullets (bulletStep rnd i g))"
  using bulletStep_lengths [of i g rnd] by auto

lemma bulletStep_nth_lower:
  assumes "i < length (bullets g)" and "k < i"
  shows "bullets (bulletStep rnd i g) ! k = bullets g ! k"
proof -
  have "take i (bullets (bulletStep rnd i g)) ! k = take i (bullets g) ! k"
    by (simp only: bulletStep_keeps_lower [OF assms(1)])
  with assms(2) show ?thesis by simp
qed

lemma bulletStep_drop:
  assumes "i < length (bullets g)"
  shows "drop i (bullets (bulletStep rnd i g)) =
     (case hitIndex (bullets g ! i) (asteroids g) (length (asteroids g)) of
        None \<Rightarrow> bullets g ! i # drop (Suc i) (bullets g)
      | Some j \<Rightarrow> drop (Suc i) (bullets g))"
proof (cases "hitIndex (bullets g ! i) (asteroids g) (length (asteroids g))")
  case None
  with assms show ?thesis by (simp add: bulletStep_miss Cons_nth_drop_Suc)
next
  case (Some j)
  with assms show ?thesis by (simp add: bulletStep_hit destroy_lists splice1_def)
qed

lemma hits_index: "h \<in> set (hits rnd n g) \<Longrightarrow> fst h < n"
proof (induction n arbitrary: g)
  case 0
  then show ?case by simp
next
  case (Suc n)
  then show ?case by (fastforce split: option.splits simp: less_Suc_eq)
qed

lemma hits_distinct: "distinct (map fst (hits rnd n g))"
proof (induction n arbitrary: g)
  case 0
  show ?case by simp
next
  case (Suc n)
  have "n \<notin> fst ` set (hits rnd n (bulletStep rnd n g))"
    using hits_index [of _ rnd n "bulletStep rnd n g"] by auto
  with Suc show ?case by (simp split: option.split)
qed

lemma hits_touch:
  "n \<le> length (bullets g) \<Longrightarrow> h \<in> set (hits rnd n g) \<Longrightarrow>
     checkCollision (bullets g ! fst h) (snd h)"
proof (induction n arbitrary: g)
  case 0
  then show ?case by simp
next
  case (Suc n)
  from Suc.prems(1) have lt: "n < length (bullets g)" by simp
  have "(\<exists>j. hitIndex (bullets g ! n) (asteroids g) (length (asteroids g)) = Some j \<and>
            h = (n, asteroids g ! j)) \<or> h \<in> set (hits rnd n (bulletStep rnd n g))"
    using Suc.prems(2)
    by (cases "hitIndex (bullets g ! n) (asteroids g) (length (asteroids g))") auto
  then consider
    (now) j where "hitIndex (bullets g ! n) (asteroids g) (length (asteroids g)) = Some j"
      "h = (n, asteroids g ! j)"
    | (later) "h \<in> set (hits rnd n (bulletStep rnd n g))"
    by blast
  then show ?case
  proof cases
    case now
    with hitIndex_Some [OF now(1)] show ?thesis by simp
  next
    case later
    from Suc.IH [OF bulletStep_bullets_length [OF lt] later]
    have "checkCollision (bullets (bulletStep rnd n g) ! fst h) (snd h)" .
    moreover from hits_index [OF later] have "fst h < n" .
    ultimately show ?thesis by (simp add: bulletStep_nth_lower [OF lt])
  qed
qed

lemma hits_empty:
  "hits rnd n g = [] \<Longrightarrow> i < n \<Longrightarrow>
     hitIndex (bullets g ! i) (asteroids g) (length (asteroids g)) = None"
proof (induction n arbitrary: g)
  case 0
  then show ?case by simp
next
  case (Suc n)
  from Suc.prems(1)
  have none: "hitIndex (bullets g ! n) (asteroids g) (length (asteroids g)) = None"
    by (auto split: option.splits)
  then have same: "bulletStep rnd n g = g" by (rule bulletStep_miss)
  from Suc.prems(1) have rest: "hits rnd n g = []" by (simp add: none same)
  show ?case
  proof (cases "i = n")
    case True
    with none show ?thesis by simp
  next
    case False
    with Suc.prems(2) have "i < n" by simp
    from Suc.IH [OF rest this] show ?thesis .
  qed
qed

lemma survivors_cong:
  assumes "\<And>k. k < n \<Longrightarrow> bs ! k = cs ! k"
  shows "survivors H n bs = survivors H n cs"
  using assms by (simp add: survivors_def)

lemma survivors_later:
  assumes "\<And>h. h \<in> set H \<Longrightarrow> fst h < n"
  shows "survivors H (Suc n) bs = survivors H n bs @ [bs ! n]"
proof -
  have "n \<notin> fst ` set H" using assms by auto
  then show ?thesis by (simp add: survivors_def)
qed

lemma survivors_hit:
  "survivors ((n, a) # H) (Suc n) bs = survivors ((n, a) # H) n bs"
  by (simp add: survivors_def)

lemma survivors_drop_head:
  assumes "\<And>h. h \<in> set H \<Longrightarrow> fst h < n"
  shows "survivors ((n, a) # H) n bs = survivors H n bs"
proof -
  have "filter (\<lambda>i. i \<notin> fst ` set ((n, a) # H)) [0..<n] = filter (\<lambda>i. i \<notin> fst ` set H) [0..<n]"
    by (rule filter_cong) auto
  then show ?thesis by (simp add: survivors_def)
qed

lemma bulletLoop_bullets:
  "n \<le> length (bullets g) \<Longrightarrow>
     bullets (bulletLoop rnd n g) = survivors (hits rnd n g) n (bullets g) @ drop n (bullets g)"
proof (induction n arbitrary: g)
  case 0
  then show ?case by (simp add: survivors_def)
next
  case (Suc n)
  let ?g1 = "bulletStep rnd n g"
  from Suc.prems have lt: "n < length (bullets g)" by simp
  have idx: "\<And>h. h \<in> set (hits rnd n ?g1) \<Longrightarrow> fst h < n" by (rule hits_index)
  have low: "survivors H n (bullets ?g1) = survivors H n (bullets g)" for H
    by (rule survivors_cong) (rule bulletStep_nth_lower [OF lt])
  from Suc.IH [OF bulletStep_bullets_length [OF lt]]
  have IH: "bullets (bulletLoop rnd n ?g1) =
      survivors (hits rnd n ?g1) n (bullets g) @ drop n (bullets ?g1)"
    by (simp add: low)
  show ?case
  proof (cases "hitIndex (bullets g ! n) (asteroids g) (length (asteroids g))")
    case None
    then have d: "drop n (bullets ?g1) = bullets g ! n # drop (Suc n) (bullets g)"
      using bulletStep_drop [OF lt, of rnd] by simp
    from None have h: "hits rnd (Suc n) g = hits rnd n ?g1" by simp
    show ?thesis
      unfolding h by (simp add: IH d survivors_later [OF idx])
  next
    case (Some j)
    then have d: "drop n (bullets ?g1) = drop (Suc n) (bullets g)"
      using bulletStep_drop [OF lt, of rnd] by simp
    from Some have h: "hits rnd (Suc n) g = (n, asteroids g ! j) # hits rnd n ?g1" by simp
    show ?thesis
      unfolding h by (simp add: IH d survivors_hit survivors_drop_head [OF idx])
  qed
qed

lemma bulletStep_asteroids_length:
  "length (asteroids (bulletStep rnd i g)) +
     (case hitIndex (bullets g ! i) (asteroids g) (length (asteroids g)) of
        None \<Rightarrow> 0 | Some j \<Rightarrow> if asize (asteroids g ! j) = ''small'' then 1 else 0) =
   length (asteroids g) +
     (case hitIndex (bullets g ! i) (asteroids g) (length (asteroids g)) of
        None \<Rightarrow> 0 | Some j \<Rightarrow> if asize (asteroids g ! j) = ''small'' then 0 else 1)"
proof (cases "hitIndex (bullets g ! i) (asteroids g) (length (asteroids g))")
  case None
  then show ?thesis by (simp add: bulletStep_miss)
next
  case (Some j)
  from hitIndex_Some [OF Some] have "j < length (asteroids g)" by simp
  from length_splice1 [OF this] Some show ?thesis
    by (simp add: bulletStep_hit destroy_lists length_split)
qed

lemma bulletLoop_asteroids_length:
  "length (asteroids (bulletLoop rnd n g)) + smallHits (hits rnd n g) =
   length (asteroids g) + splitHits (hits rnd n g)"
proof (induction n arbitrary: g)
  case 0
  show ?case by (simp add: smallHits_def splitHits_def)
next
  case (Suc n)
  from Suc [of "bulletStep rnd n g"] bulletStep_asteroids_length [of rnd n g]
  show ?case
    by (cases "hitIndex (bullets g ! n) (asteroids g) (length (asteroids g))")
       (auto simp add: smallHits_def splitHits_def)
qed

lemma hits_length:
  "n \<le> length (bullets g) \<Longrightarrow>
     length (bullets (bulletLoop rnd n g)) + length (hits rnd n g) = length (bullets g)"
proof (induction n arbitrary: g)
  case 0
  show ?case by simp
next
  case (Suc n)
  from Suc.prems have lt: "n < length (bullets g)" by simp
  from Suc.IH [OF bulletStep_bullets_length [OF lt], of rnd]
  show ?case
  proof (cases "hitIndex (bullets g ! n) (asteroids g) (length (asteroids g))")
    case None
    with Suc.IH [OF bulletStep_bullets_length [OF lt], of rnd] show ?thesis
      by (simp add: bulletStep_miss)
  next
    case (Some j)
    have "length (bullets (bulletStep rnd n g)) + 1 = length (bullets g)"
      using length_splice1 [OF lt] Some by (simp add: bulletStep_hit destroy_lists)
    with Some Suc.IH [OF bulletStep_bullets_length [OF lt], of rnd] show ?thesis
      by simp
  qed
qed

lemma hits_knownSize:
  "list_all knownSize (asteroids g) \<Longrightarrow> h \<in> set (hits rnd n g) \<Longrightarrow> knownSize (snd h)"
proof (induction n arbitrary: g)
  case 0
  then show ?case by simp
next
  case (Suc n)
  have "(\<exists>j. hitIndex (bullets g ! n) (asteroids g) (length (asteroids g)) = Some j \<and>
            h = (n, asteroids g ! j)) \<or> h \<in> set (hits rnd n (bulletStep rnd n g))"
    using Suc.prems(2)
    by (cases "hitIndex (bullets g ! n) (asteroids g) (length (asteroids g))") auto
  then show ?case
  proof
    assume "\<exists>j. hitIndex (bullets g ! n) (asteroids g) (length (asteroids g)) = Some j \<and>
            h = (n, asteroids g ! j)"
    then obtain j where j: "hitIndex (bullets g ! n) (asteroids g) (length (asteroids g)) = Some j"
      and h: "h = (n, asteroids g ! j)" by blast
    from hitIndex_Some [OF j] have "j < length (asteroids g)" by simp
    with Suc.prems(1) h show ?thesis by (simp add: list_all_length)
  next
    assume "h \<in> set (hits rnd n (bulletStep rnd n g))"
    with Suc.IH [OF knownSize_bulletStep [OF Suc.prems(1)]] show ?thesis .
  qed
qed

lemma checkCollisions_rounds:
  "checkCollisions rnd cv g =
     shipCollisions cv (fold (bulletStep rnd) (rev [0..<length (bullets g)]) g)"
  by (simp add: checkCollisions_def bulletLoop_fold)

lemma hits_none_touch:
  assumes "hits rnd (length (bullets g)) g = []" and "i < length (bullets g)"
    and "a \<in> set (asteroids g)"
  shows "\<not> checkCollision (bullets g ! i) a"
proof -
  from assms(3) obtain k where k: "k < length (asteroids g)" "a = asteroids g ! k"
    by (auto simp add: in_set_conv_nth)
  from hits_empty [OF assms(1,2)] have "hitIndex (bullets g ! i) (asteroids g) (length (asteroids g)) = None" .
  from hitIndex_None [OF this k(1)] k(2) show ?thesis by simp
qed

text \<open>
  Claim C4. A call of \<^verbatim>\<open>checkCollisions\<close> runs one round per bullet, from the last index
  down to the first, and then the ship's collisions, which leave bullets and asteroids
  alone. In the round of the bullet at index \<open>i\<close>, either no asteroid touches the bullet and
  nothing changes, or exactly one asteroid, at an index \<open>j\<close>, is destroyed: the bullet is
  removed, and the asteroid is replaced by what \<^verbatim>\<open>split\<close> returns, two asteroids for a large
  or medium one (the number of asteroids grows by one) and none for a small one (the number
  falls by one).

  For the whole call, let \<open>H\<close> be the list of its destructions, each a pair of the index
  of a bullet in the list the call started with and the asteroid it destroyed. No bullet
  occurs twice in \<open>H\<close>: a bullet destroys at most one asteroid. Every bullet of \<open>H\<close>
  touched the asteroid it is paired with. The bullets left after the call are exactly the
  bullets that do not occur in \<open>H\<close>, in their order: a bullet is removed if and only if it
  destroyed an asteroid. The number of asteroids after the call is the number before, plus
  one for every destroyed asteroid that was not small, minus one for every small one; when
  every asteroid has one of the three sizes, so has every destroyed one. If \<open>H\<close> is empty,
  no bullet touched any asteroid.
\<close>

theorem C4_bullet_destroys_one_asteroid:
  fixes rnd :: "nat \<Rightarrow> real" and cv :: Canvas and g :: Game and i :: nat
  defines "H \<equiv> hits rnd (length (bullets g)) g"
  shows
  "(i < length (bullets g) \<longrightarrow>
      (case hitIndex (bullets g ! i) (asteroids g) (length (asteroids g)) of
         None \<Rightarrow> bulletStep rnd i g = g
       | Some j \<Rightarrow>
           j < length (asteroids g) \<and> checkCollision (bullets g ! i) (asteroids g ! j) \<and>
           bullets (bulletStep rnd i g) = splice1 i (bullets g) \<and>
           length (bullets (bulletStep rnd i g)) + 1 = length (bullets g) \<and>
           asteroids (bulletStep rnd i g) =
             splice1 j (asteroids g) @ fst (split rnd (asteroids g ! j) (cursor g)) \<and>
           (asize (asteroids g ! j) = ''large'' \<or> asize (asteroids g ! j) = ''medium'' \<longrightarrow>
              length (fst (split rnd (asteroids g ! j) (cursor g))) = 2 \<and>
              length (asteroids (bulletStep rnd i g)) = length (asteroids g) + 1) \<and>
           (asize (asteroids g ! j) = ''small'' \<longrightarrow>
              fst (split rnd (asteroids g ! j) (cursor g)) = [] \<and>
              length (asteroids (bulletStep rnd i g)) + 1 = length (asteroids g)))) \<and>
   length (bullets (checkCollisions rnd cv g)) \<le> length (bullets g) \<and>
   \<bar>int (length (asteroids (checkCollisions rnd cv g))) - int (length (asteroids g))\<bar>
     \<le> int (length (bullets g)) - int (length (bullets (checkCollisions rnd cv g))) \<and>
   checkCollisions rnd cv g =
     shipCollisions cv (fold (bulletStep rnd) (rev [0..<length (bullets g)]) g) \<and>
   distinct (map fst H) \<and>
   (\<forall>h \<in> set H. fst h < length (bullets g) \<and> checkCollision (bullets g ! fst h) (snd h)) \<and>
   bullets (checkCollisions rnd cv g) = survivors H (length (bullets g)) (bullets g) \<and>
   length (bullets (checkCollisions rnd cv g)) + length H = length (bullets g) \<and>
   length (asteroids (checkCollisions rnd cv g)) + smallHits H =
     length (asteroids g) + splitHits H \<and>
   (list_all knownSize (asteroids g) \<longrightarrow>
      (\<forall>h \<in> set H. asize (snd h) = ''large'' \<or> asize (snd h) = ''medium'' \<or>
                     asize (snd h) = ''small'')) \<and>
   (H = [] \<longrightarrow>
      (\<forall>k < length (bullets g). \<forall>a \<in> set (asteroids g). \<not> checkCollision (bullets g ! k) a))"
proof -
  let ?n = "length (bullets g)"
  have step: "case hitIndex (bullets g ! i) (asteroids g) (length (asteroids g)) of
         None \<Rightarrow> bulletStep rnd i g = g
       | Some j \<Rightarrow>
           j < length (asteroids g) \<and> checkCollision (bullets g ! i) (asteroids g ! j) \<and>
           bullets (bulletStep rnd i g) = splice1 i (bullets g) \<and>
           length (bullets (bulletStep rnd i g)) + 1 = length (bullets g) \<and>
           asteroids (bulletStep rnd i g) =
             splice1 j (asteroids g) @ fst (split rnd (asteroids g ! j) (cursor g)) \<and>
           (asize (asteroids g ! j) = ''large'' \<or> asize (asteroids g ! j) = ''medium'' \<longrightarrow>
              length (fst (split rnd (asteroids g ! j) (cursor g))) = 2 \<and>
              length (asteroids (bulletStep rnd i g)) = length (asteroids g) + 1) \<and>
           (asize (asteroids g ! j) = ''small'' \<longrightarrow>
              fst (split rnd (asteroids g ! j) (cursor g)) = [] \<and>
              length (asteroids (bulletStep rnd i g)) + 1 = length (asteroids g))"
    if i: "i < length (bullets g)"
  proof (cases "hitIndex (bullets g ! i) (asteroids g) (length (asteroids g))")
    case None
    then show ?thesis by (simp add: bulletStep_miss)
  next
    case (Some j)
    from hitIndex_Some [OF Some]
    have j: "j < length (asteroids g)" and c: "checkCollision (bullets g ! i) (asteroids g ! j)"
      by simp_all
    have st: "bulletStep rnd i g = destroy rnd i j g"
      using Some by (rule bulletStep_hit)
    have b: "bullets (bulletStep rnd i g) = splice1 i (bullets g)"
      and a: "asteroids (bulletStep rnd i g) =
             splice1 j (asteroids g) @ fst (split rnd (asteroids g ! j) (cursor g))"
      by (simp_all add: st destroy_lists)
    have lb: "length (bullets (bulletStep rnd i g)) + 1 = length (bullets g)"
      using length_splice1 [OF i] by (simp add: b)
    have la: "length (asteroids (bulletStep rnd i g)) + 1 =
        length (asteroids g) + length (fst (split rnd (asteroids g ! j) (cursor g)))"
      using length_splice1 [OF j] by (simp add: a)
    have big: "asize (asteroids g ! j) = ''large'' \<or> asize (asteroids g ! j) = ''medium'' \<longrightarrow>
              length (fst (split rnd (asteroids g ! j) (cursor g))) = 2 \<and>
              length (asteroids (bulletStep rnd i g)) = length (asteroids g) + 1"
      using la by (auto simp add: length_split)
    have small: "asize (asteroids g ! j) = ''small'' \<longrightarrow>
              fst (split rnd (asteroids g ! j) (cursor g)) = [] \<and>
              length (asteroids (bulletStep rnd i g)) + 1 = length (asteroids g)"
      using la by (auto simp add: split_def)
    from j c b lb a big small show ?thesis
      by (simp only: Some option.case simp_thms)
  qed
  have same: "bullets (checkCollisions rnd cv g) = bullets (bulletLoop rnd ?n g)"
    "asteroids (checkCollisions rnd cv g) = asteroids (bulletLoop rnd ?n g)"
    by (simp_all add: checkCollisions_def shipCollisions_lists)
  have 1: "distinct (map fst H)"
    unfolding H_def by (rule hits_distinct)
  have 2: "\<forall>h \<in> set H. fst h < length (bullets g) \<and> checkCollision (bullets g ! fst h) (snd h)"
    unfolding H_def using hits_index [of _ rnd ?n g] hits_touch [of ?n g _ rnd] by blast
  have 3: "bullets (checkCollisions rnd cv g) = survivors H (length (bullets g)) (bullets g)"
    unfolding H_def using bulletLoop_bullets [of ?n g rnd] by (simp add: same)
  have 4: "length (bullets (checkCollisions rnd cv g)) + length H = length (bullets g)"
    unfolding H_def using hits_length [of ?n g rnd] by (simp add: same)
  have 5: "length (asteroids (checkCollisions rnd cv g)) + smallHits H =
     length (asteroids g) + splitHits H"
    unfolding H_def using bulletLoop_asteroids_length [of rnd ?n g] by (simp add: same)
  have 6: "list_all knownSize (asteroids g) \<longrightarrow>
      (\<forall>h \<in> set H. asize (snd h) = ''large'' \<or> asize (snd h) = ''medium'' \<or>
                     asize (snd h) = ''small'')"
    unfolding H_def using hits_knownSize [of g _ rnd ?n] by (auto simp add: knownSize_def)
  have 7: "H = [] \<longrightarrow>
      (\<forall>k < length (bullets g). \<forall>a \<in> set (asteroids g). \<not> checkCollision (bullets g ! k) a)"
    unfolding H_def using hits_none_touch [of rnd g] by blast
  from step checkCollisions_lengths [of rnd cv g] checkCollisions_rounds [of rnd cv g]
    1 2 3 4 5 6 7
  show ?thesis by blast
qed

lemma gameShot_fields:
  "bullets (gameShot sz) = [Bullet_new 100 100 0] \<and> asteroids (gameShot sz) = [rock sz 100 100] \<and>
   score (gameShot sz) = 0 \<and> cursor (gameShot sz) = 0 \<and> \<not> invulnerable (ship (gameShot sz)) \<and>
   ship (gameShot sz) = Ship_new 400 300"
  by (simp add: gameShot_def game0_def Ship_new_def)

lemma shot_collides: "checkCollision (Bullet_new 100 100 0) (rock sz 100 100)"
  by (simp add: checkCollision_def Let_def rock_fields Bullet_new_def Vector2D_new_def)

lemma gameShot_hit:
  "hitIndex (bullets (gameShot sz) ! 0) (asteroids (gameShot sz)) (length (asteroids (gameShot sz)))
     = Some 0"
  by (simp add: gameShot_fields shot_collides)

lemma split_not_small_eq:
  "asize a \<noteq> ''small'' \<Longrightarrow>
     fst (split rnd a c) =
       [fst (Asteroid_new rnd (vec_x (position a)) (vec_y (position a))
              (if asize a = ''large'' then ''medium'' else ''small'') c),
        fst (Asteroid_new rnd (vec_x (position a)) (vec_y (position a))
              (if asize a = ''large'' then ''medium'' else ''small'')
              (snd (Asteroid_new rnd (vec_x (position a)) (vec_y (position a))
                     (if asize a = ''large'' then ''medium'' else ''small'') c)))]"
  by (simp add: split_def Let_def split_beta)

lemma shot_collides_new:
  "checkCollision (Bullet_new a b r) (fst (Asteroid_new rnd a b sz c))"
  by (simp add: checkCollision_def Let_def Bullet_new_def Asteroid_new_def Vector2D_new_def)

lemma gameVolley_fields:
  "bullets gameVolley = [Bullet_new 100 100 0, Bullet_new 100 100 0] \<and>
   asteroids gameVolley = [rock ''large'' 100 100]"
  by (simp add: gameVolley_def game0_def)

lemma gameVolley_round1:
  "bullets (bulletStep rnd0 1 gameVolley) = [Bullet_new 100 100 0] \<and>
   map asize (asteroids (bulletStep rnd0 1 gameVolley)) = [''medium'', ''medium''] \<and>
   list_all (checkCollision (Bullet_new 100 100 0)) (asteroids (bulletStep rnd0 1 gameVolley)) \<and>
   list_all (\<lambda>a. position a = Vector2D_new 100 100) (asteroids (bulletStep rnd0 1 gameVolley))"
proof -
  have h: "hitIndex (bullets gameVolley ! 1) (asteroids gameVolley) (length (asteroids gameVolley)) = Some 0"
    by (simp add: gameVolley_fields shot_collides)
  have s: "bulletStep rnd0 1 gameVolley = destroy rnd0 1 0 gameVolley"
    using h by (rule bulletStep_hit)
  show ?thesis
    unfolding s
    by (simp add: destroy_lists gameVolley_fields splice1_def split_not_small_eq rock_fields
        shot_collides_new Vector2D_new_def)
qed


lemma split_sizes:
  "map asize (fst (split rnd a c)) =
     (if asize a = ''small'' then []
      else if asize a = ''large'' then [''medium'', ''medium''] else [''small'', ''small''])"
  by (simp add: split_def Let_def split_beta)

lemma gameVolley_check:
  "bullets (checkCollisions rnd0 cv0 gameVolley) = [] \<and>
   map asize (asteroids (checkCollisions rnd0 cv0 gameVolley)) = [''medium'', ''small'', ''small'']"
proof -
  define g1 where "g1 = bulletStep rnd0 1 gameVolley"
  from gameVolley_round1 obtain m1 m2 where
    as: "asteroids g1 = [m1, m2]" and sz: "asize m1 = ''medium''" "asize m2 = ''medium''"
    and hit: "checkCollision (Bullet_new 100 100 0) m2"
    unfolding g1_def [symmetric] by (auto simp add: map_eq_Cons_conv)
  have bs: "bullets g1 = [Bullet_new 100 100 0]"
    using gameVolley_round1 unfolding g1_def [symmetric] by simp
  have h: "hitIndex (bullets g1 ! 0) (asteroids g1) (length (asteroids g1)) = Some 1"
    by (simp add: as bs hit)
  have st: "bulletStep rnd0 0 g1 = destroy rnd0 0 1 g1"
    using h by (rule bulletStep_hit)
  have loop: "bulletLoop rnd0 (length (bullets gameVolley)) gameVolley = bulletStep rnd0 0 g1"
    by (simp add: gameVolley_fields g1_def)
  have "bullets (bulletStep rnd0 0 g1) = []"
    by (simp add: st destroy_lists bs splice1_def)
  moreover have "map asize (asteroids (bulletStep rnd0 0 g1)) = [''medium'', ''small'', ''small'']"
    by (simp add: st destroy_lists as splice1_def split_sizes sz)
  ultimately show ?thesis
    by (simp add: checkCollisions_def shipCollisions_lists loop)
qed

lemma gameShot_check:
  "bullets (checkCollisions rnd0 cv0 (gameShot sz)) = [] \<and>
   map asize (asteroids (checkCollisions rnd0 cv0 (gameShot sz))) =
     (if sz = ''small'' then []
      else if sz = ''large'' then [''medium'', ''medium''] else [''small'', ''small''])"
proof -
  have "bulletLoop rnd0 (length (bullets (gameShot sz))) (gameShot sz) =
        destroy rnd0 0 0 (gameShot sz)"
    using bulletStep_hit [OF gameShot_hit, where rnd = rnd0 and sz1 = sz]
    by (simp add: gameShot_fields)
  then show ?thesis
    by (simp add: checkCollisions_def shipCollisions_lists destroy_lists gameShot_fields
        splice1_def split_sizes rock_fields)
qed

lemma gameVolley_hits:
  "map fst (hits rnd0 (length (bullets gameVolley)) gameVolley) = [1, 0] \<and>
   map (\<lambda>h. asize (snd h)) (hits rnd0 (length (bullets gameVolley)) gameVolley) =
     [''large'', ''medium'']"
proof -
  define g1 where "g1 = bulletStep rnd0 1 gameVolley"
  from gameVolley_round1 obtain m1 m2 where
    as: "asteroids g1 = [m1, m2]" and sz: "asize m1 = ''medium''" "asize m2 = ''medium''"
    and hit: "checkCollision (Bullet_new 100 100 0) m2"
    unfolding g1_def [symmetric] by (auto simp add: map_eq_Cons_conv)
  have bs: "bullets g1 = [Bullet_new 100 100 0]"
    using gameVolley_round1 unfolding g1_def [symmetric] by simp
  have h0: "hitIndex (bullets g1 ! 0) (asteroids g1) (length (asteroids g1)) = Some 1"
    by (simp add: as bs hit)
  have h1: "hitIndex (bullets gameVolley ! 1) (asteroids gameVolley) (length (asteroids gameVolley)) = Some 0"
    by (simp add: gameVolley_fields shot_collides)
  have "hits rnd0 (length (bullets gameVolley)) gameVolley = hits rnd0 (Suc (Suc 0)) gameVolley"
    by (simp add: gameVolley_fields)
  also have "\<dots> = (1, asteroids gameVolley ! 0) # hits rnd0 (Suc 0) g1"
    using h1 by (simp add: g1_def)
  also have "hits rnd0 (Suc 0) g1 = [(0, asteroids g1 ! 1)]"
    using h0 by simp
  finally show ?thesis
    by (simp add: gameVolley_fields rock_fields as sz)
qed

theorem C4_bullet_destroys_one_asteroid_witness:
  "bullets (bulletStep rnd0 0 (gameShot ''large'')) = [] \<and>
   length (asteroids (bulletStep rnd0 0 (gameShot ''large''))) = 2 \<and>
   length (asteroids (bulletStep rnd0 0 (gameShot ''medium''))) = 2 \<and>
   asteroids (bulletStep rnd0 0 (gameShot ''small'')) = [] \<and>
   bullets (checkCollisions rnd0 cv0 (gameShot ''large'')) = [] \<and>
   map asize (asteroids (checkCollisions rnd0 cv0 (gameShot ''large''))) = [''medium'', ''medium''] \<and>
   asteroids (checkCollisions rnd0 cv0 (gameShot ''small'')) = [] \<and>
   map fst (hits rnd0 (length (bullets gameVolley)) gameVolley) = [1, 0] \<and>
   bullets (checkCollisions rnd0 cv0 gameVolley) = [] \<and>
   length (asteroids (checkCollisions rnd0 cv0 gameVolley)) = 3 \<and>
   map asize (asteroids (checkCollisions rnd0 cv0 gameVolley)) = [''medium'', ''small'', ''small'']"
proof -
  have i: "0 < length (bullets (gameShot sz))" for sz
    by (simp add: gameShot_fields)
  have l: "bullets (bulletStep rnd0 0 (gameShot ''large'')) = [] \<and>
      length (asteroids (bulletStep rnd0 0 (gameShot ''large''))) = 2"
    using C4_bullet_destroys_one_asteroid [of 0 "gameShot ''large''" rnd0 cv0] i [of "''large''"]
    by (simp add: gameShot_fields shot_collides rock_fields splice1_def)
  have m: "length (asteroids (bulletStep rnd0 0 (gameShot ''medium''))) = 2"
    using C4_bullet_destroys_one_asteroid [of 0 "gameShot ''medium''" rnd0 cv0] i [of "''medium''"]
    by (simp add: gameShot_fields shot_collides rock_fields splice1_def)
  have s: "asteroids (bulletStep rnd0 0 (gameShot ''small'')) = []"
    using C4_bullet_destroys_one_asteroid [of 0 "gameShot ''small''" rnd0 cv0] i [of "''small''"]
    by (simp add: gameShot_fields shot_collides rock_fields splice1_def)
  have c: "bullets (checkCollisions rnd0 cv0 (gameShot ''large'')) = []"
    "map asize (asteroids (checkCollisions rnd0 cv0 (gameShot ''large''))) = [''medium'', ''medium'']"
    "asteroids (checkCollisions rnd0 cv0 (gameShot ''small'')) = []"
    using gameShot_check [of "''large''"] gameShot_check [of "''small''"] by simp_all
  let ?H = "hits rnd0 (length (bullets gameVolley)) gameVolley"
  have H: "length ?H = 2" "smallHits ?H = 0" "splitHits ?H = 2"
  proof -
    from gameVolley_hits have "length (map fst ?H) = 2" by simp
    then show "length ?H = 2" by simp
    from gameVolley_hits
    have z: "map (\<lambda>h. asize (snd h)) ?H = [''large'', ''medium'']" by simp
    have "smallHits ?H = length (filter (\<lambda>z. z = ''small'') (map (\<lambda>h. asize (snd h)) ?H))"
      by (simp add: smallHits_def filter_map comp_def)
    then show "smallHits ?H = 0" by (simp add: z)
    have "splitHits ?H = length (filter (\<lambda>z. z \<noteq> ''small'') (map (\<lambda>h. asize (snd h)) ?H))"
      by (simp add: splitHits_def filter_map comp_def)
    then show "splitHits ?H = 2" by (simp add: z)
  qed
  note inst = C4_bullet_destroys_one_asteroid [of 0 gameVolley rnd0 cv0]
  from inst have "length (bullets (checkCollisions rnd0 cv0 gameVolley)) + length ?H =
      length (bullets gameVolley)"
    by blast
  with H have vb: "bullets (checkCollisions rnd0 cv0 gameVolley) = []"
    by (simp add: gameVolley_fields)
  from inst have "length (asteroids (checkCollisions rnd0 cv0 gameVolley)) + smallHits ?H =
      length (asteroids gameVolley) + splitHits ?H"
    by blast
  with H have va: "length (asteroids (checkCollisions rnd0 cv0 gameVolley)) = 3"
    by (simp add: gameVolley_fields)
  from gameVolley_hits have vh: "map fst ?H = [1, 0]" by simp
  from gameVolley_check
  have vs: "map asize (asteroids (checkCollisions rnd0 cv0 gameVolley)) = [''medium'', ''small'', ''small'']"
    by simp
  from l m s c vh vb va vs show ?thesis by blast
qed

text \<open>
  Claim C1 says that destroying a small asteroid scores 20, a medium one 50 and a large one
  100, as the release notes have it. \<^verbatim>\<open>checkCollisions\<close> awards 20 for a large asteroid, 50
  for a medium one and 100 for any other: the bullet of \<open>gameShot sz\<close> destroys the one
  asteroid, and the score goes from \<open>0\<close> to \<open>20\<close> for the large asteroid and to \<open>100\<close> for
  the small one.
\<close>

theorem C1_score_by_size:
  "score (gameShot ''large'') = 0 \<and>
   score (checkCollisions rnd0 cv0 (gameShot ''large'')) = 20 \<and>
   score (checkCollisions rnd0 cv0 (gameShot ''medium'')) = 50 \<and>
   score (checkCollisions rnd0 cv0 (gameShot ''small'')) = 100"
proof -
  have "score (checkCollisions rnd0 cv0 (gameShot sz)) =
      (if sz = ''large'' then 20 else if sz = ''medium'' then 50 else 100)" for sz
  proof -
    have "bulletLoop rnd0 (length (bullets (gameShot sz))) (gameShot sz) =
        destroy rnd0 0 0 (gameShot sz)"
      using bulletStep_hit [OF gameShot_hit, where rnd = rnd0 and sz1 = sz]
      by (simp add: gameShot_fields)
    then show ?thesis
      by (simp add: checkCollisions_def shipCollisions_lists destroy_score gameShot_fields
          rock_fields)
  qed
  then show ?thesis by (simp add: gameShot_fields)
qed

subsection \<open>Spawning a wave\<close>

lemma spawnPoint_far:
  assumes "spawnPoint rnd cv p c = Some r"
  shows "farFrom p (fst r) (fst (snd r))"
proof (rule spawnPoint.raw_induct
    [where P = "\<lambda>rnd cv p c r. farFrom p (fst r) (fst (snd r))", OF _ assms])
  fix sp :: "(nat \<Rightarrow> real) \<Rightarrow> Canvas \<Rightarrow> Vector2D \<Rightarrow> nat \<Rightarrow> (real \<times> real \<times> nat) option"
  fix rnd cv p c r
  assume IH: "\<And>rnd cv p c r. sp rnd cv p c = Some r \<Longrightarrow> farFrom p (fst r) (fst (snd r))"
  assume eq: "(let a = rnd c * real (width cv); b = rnd (c + 1) * real (height cv)
      in if sqrt ((a - vec_x p)\<^sup>2 + (b - vec_y p)\<^sup>2) < 150
         then sp rnd cv p (c + 2) else Some (a, b, c + 2)) = Some r"
  show "farFrom p (fst r) (fst (snd r))"
  proof (cases "sqrt ((rnd c * real (width cv) - vec_x p)\<^sup>2 +
                      (rnd (c + 1) * real (height cv) - vec_y p)\<^sup>2) < 150")
    case True
    with eq have "sp rnd cv p (c + 2) = Some r" by (simp add: Let_def)
    then show ?thesis by (rule IH)
  next
    case False
    with eq have "r = (rnd c * real (width cv), rnd (c + 1) * real (height cv), c + 2)"
      by (simp add: Let_def)
    with False show ?thesis by (simp add: farFrom_def)
  qed
qed

lemma spawnPoint_step:
  "spawnPoint rnd cv p c =
     (if farFrom p (rnd c * real (width cv)) (rnd (c + 1) * real (height cv))
      then Some (rnd c * real (width cv), rnd (c + 1) * real (height cv), c + 2)
      else spawnPoint rnd cv p (c + 2))"
  by (subst spawnPoint.simps) (simp add: Let_def farFrom_def)

lemma spawnPoint_returns_after:
  "farFrom p (rnd (c + 2 * k) * real (width cv)) (rnd (c + 2 * k + 1) * real (height cv)) \<Longrightarrow>
     \<exists>r. spawnPoint rnd cv p c = Some r"
proof (induction k arbitrary: c)
  case 0
  then show ?case by (subst spawnPoint_step) simp
next
  case (Suc k)
  show ?case
  proof (cases "farFrom p (rnd c * real (width cv)) (rnd (c + 1) * real (height cv))")
    case True
    then show ?thesis by (subst spawnPoint_step) simp
  next
    case False
    from Suc.prems
    have "farFrom p (rnd (c + 2 + 2 * k) * real (width cv)) (rnd (c + 2 + 2 * k + 1) * real (height cv))"
      by (simp add: add.commute add.left_commute)
    from Suc.IH [OF this] obtain r where r: "spawnPoint rnd cv p (c + 2) = Some r" by blast
    have "spawnPoint rnd cv p c = spawnPoint rnd cv p (c + 2)"
      using False by (subst spawnPoint_step) simp
    with r have "spawnPoint rnd cv p c = Some r" by simp
    then show ?thesis ..
  qed
qed

lemma spawnPoint_returns:
  "keepsFar rnd cv p \<Longrightarrow> \<exists>r. spawnPoint rnd cv p c = Some r"
  unfolding keepsFar_def using spawnPoint_returns_after by blast

lemma spawnAsteroids_Suc:
  "spawnPoint rnd cv (position (ship g)) (cursor g) = Some (a, b, c) \<Longrightarrow>
     spawnAsteroids rnd cv (Suc n) g =
       spawnAsteroids rnd cv n
         (g\<lparr>asteroids := asteroids g @ [fst (Asteroid_new rnd a b ''large'' c)],
            cursor := snd (Asteroid_new rnd a b ''large'' c)\<rparr>)"
  by (simp add: split_beta Let_def)

lemma spawnAsteroids_returns:
  "keepsFar rnd cv (position (ship g)) \<Longrightarrow> \<exists>g'. spawnAsteroids rnd cv n g = Some g'"
proof (induction n arbitrary: g)
  case 0
  then show ?case by simp
next
  case (Suc n)
  from spawnPoint_returns [OF Suc.prems, of "cursor g"]
  obtain a b c where p: "spawnPoint rnd cv (position (ship g)) (cursor g) = Some (a, b, c)"
    by (metis prod_cases3)
  let ?g1 = "g\<lparr>asteroids := asteroids g @ [fst (Asteroid_new rnd a b ''large'' c)],
               cursor := snd (Asteroid_new rnd a b ''large'' c)\<rparr>"
  from Suc.prems have "keepsFar rnd cv (position (ship ?g1))" by simp
  from Suc.IH [OF this] show ?case by (simp only: spawnAsteroids_Suc [OF p])
qed

lemma spawnAsteroids_result:
  "spawnAsteroids rnd cv n g = Some g' \<Longrightarrow>
     \<exists>new. asteroids g' = asteroids g @ new \<and> length new = n \<and>
           (\<forall>a \<in> set new. freshWave (position (ship g)) a)"
proof (induction n arbitrary: g)
  case 0
  then show ?case by simp
next
  case (Suc n)
  from Suc.prems obtain a b c where
    p: "spawnPoint rnd cv (position (ship g)) (cursor g) = Some (a, b, c)"
    by (auto split: option.splits)
  let ?ast = "fst (Asteroid_new rnd a b ''large'' c)"
  let ?g1 = "g\<lparr>asteroids := asteroids g @ [?ast],
               cursor := snd (Asteroid_new rnd a b ''large'' c)\<rparr>"
  from spawnPoint_far [OF p] have far: "farFrom (position (ship g)) a b" by simp
  have fresh: "freshWave (position (ship g)) ?ast"
    using far by (simp add: freshWave_def farFrom_def Vector2D_new_def)
  from Suc.prems have "spawnAsteroids rnd cv n ?g1 = Some g'"
    by (simp only: spawnAsteroids_Suc [OF p])
  from Suc.IH [OF this] obtain new where
    n: "asteroids g' = asteroids ?g1 @ new" "length new = n"
       "\<forall>a \<in> set new. freshWave (position (ship ?g1)) a"
    by blast
  then have "asteroids g' = asteroids g @ (?ast # new) \<and> length (?ast # new) = Suc n \<and>
      (\<forall>a \<in> set (?ast # new). freshWave (position (ship g)) a)"
    using fresh by simp
  then show ?case by blast
qed



lemma score_bulletStep: "score g \<le> score (bulletStep rnd i g)"
  by (simp add: bulletStep_def destroy_score split: option.split)

lemma score_bulletLoop: "score g \<le> score (bulletLoop rnd n g)"
proof (induction n arbitrary: g)
  case 0
  show ?case by simp
next
  case (Suc n)
  have "score g \<le> score (bulletStep rnd n g)" by (rule score_bulletStep)
  also have "\<dots> \<le> score (bulletLoop rnd n (bulletStep rnd n g))" by (rule Suc.IH)
  finally show ?case by simp
qed

lemma score_advance: "score g \<le> score (advance rnd cv deltaTime g)"
  using score_bulletLoop [of "moved cv deltaTime (handleInput deltaTime g)" rnd
      "length (bullets (moved cv deltaTime (handleInput deltaTime g)))"]
  by (simp add: advance_moved checkCollisions_def shipCollisions_lists moved_frame
      handleInput_frame)




text \<open>The example: on an empty field, \<open>rnd0\<close> draws the corner \<open>(0, 0)\<close>, 500 away from the ship.\<close>

lemma far_corner: "farFrom (Vector2D_new 400 300) 0 0"
proof -
  have "sqrt ((500::real)\<^sup>2) = 500" by (simp only: real_sqrt_abs abs_numeral)
  then have "sqrt (250000::real) = 500" by simp
  then show ?thesis by (simp add: farFrom_def Vector2D_new_def)
qed

lemma keepsFar_rnd0: "keepsFar rnd0 cv0 (Vector2D_new 400 300)"
  unfolding keepsFar_def using far_corner by (simp add: rnd0_def)




subsection \<open>A game that is over stays as it is\<close>

lemma gameEvent_over:
  assumes "gameOver g" and "e \<noteq> KeyDown ''r''"
  shows "\<exists>g1. gameEvent rnd cv e g = Some g1 \<and> gameOver g1 \<and> g1\<lparr>keys := keys g\<rparr> = g"
proof (cases e)
  case (Frame deltaTime)
  with assms show ?thesis by (simp add: update_def)
next
  case (KeyDown k)
  with assms show ?thesis by (simp add: keydown_def Let_def)
next
  case (KeyUp k)
  with assms show ?thesis by (simp add: keyup_def)
qed

lemma gameEvents_over:
  assumes "gameOver g" and "KeyDown ''r'' \<notin> set es"
  shows "\<exists>g1. gameEvents rnd cv es g = Some g1 \<and> gameOver g1 \<and> g1\<lparr>keys := keys g\<rparr> = g"
  using assms
proof (induction es arbitrary: g)
  case Nil
  then show ?case by simp
next
  case (Cons e es)
  from Cons.prems have ne: "e \<noteq> KeyDown ''r''" and rest: "KeyDown ''r'' \<notin> set es"
    by auto
  from gameEvent_over [OF Cons.prems(1) ne, of rnd cv]
  obtain g1 where s1: "gameEvent rnd cv e g = Some g1" and o1: "gameOver g1"
    and k1: "g1\<lparr>keys := keys g\<rparr> = g"
    by blast
  from Cons.IH [OF o1 rest]
  obtain g2 where s2: "gameEvents rnd cv es g1 = Some g2" and o2: "gameOver g2"
    and k2: "g2\<lparr>keys := keys g1\<rparr> = g1"
    by blast
  have "g2\<lparr>keys := keys g\<rparr> = (g2\<lparr>keys := keys g1\<rparr>)\<lparr>keys := keys g\<rparr>"
    by simp
  also have "\<dots> = g" by (simp only: k2 k1)
  finally have "g2\<lparr>keys := keys g\<rparr> = g" .
  with s1 s2 o2 show ?case by simp
qed

lemma reset_fields:
  assumes "reset rnd cv g = Some g'"
  shows "\<not> gameOver g' \<and> score g' = 0 \<and> lives g' = 5 \<and> bullets g' = []"
proof -
  let ?g1 = "g\<lparr>ship := Ship_new (real (width cv) / 2) (real (height cv) / 2),
                  bullets := [], asteroids := [], score := 0, lives := 5, gameOver := False,
                  canShoot := True, shootCooldown := 0\<rparr>"
  from assms obtain g2 where sp: "spawnAsteroids rnd cv 5 ?g1 = Some g2"
    and g': "g' = (updateUI g2)\<lparr>gameOverScreenHidden := True\<rparr>"
    by (auto simp add: reset_def Let_def split: option.splits)
  from spawnAsteroids_frame [OF sp] show ?thesis
    by (simp add: g' updateUI_def)
qed

text \<open>
  Claim C9. Once \<open>gameOver\<close> holds, \<^verbatim>\<open>update\<close> and \<^verbatim>\<open>handleInput\<close> return at once and leave
  the whole game as it is. Over any run of frames and key events without a press of
  \<open>r\<close>, the game stays over and every field keeps its value, except the table \<open>keys\<close> in
  which the listeners record the keys. A press of \<open>r\<close> while the game is over is a call
  of \<^verbatim>\<open>reset\<close>.
\<close>

theorem C9_game_over_frozen:
  assumes "gameOver g"
  shows "update rnd cv deltaTime g = Some g \<and>
         handleInput deltaTime g = g \<and>
         (KeyDown ''r'' \<notin> set es \<longrightarrow>
            (\<exists>g1. gameEvents rnd cv es g = Some g1 \<and> gameOver g1 \<and> g1\<lparr>keys := keys g\<rparr> = g)) \<and>
         keydown rnd cv ''r'' g = reset rnd cv (g\<lparr>keys := (keys g)(''r'' \<mapsto> True)\<rparr>) \<and>
         (\<forall>g'. keydown rnd cv ''r'' g = Some g' \<longrightarrow>
            \<not> gameOver g' \<and> score g' = 0 \<and> lives g' = 5 \<and> bullets g' = [])"
proof -
  have 1: "update rnd cv deltaTime g = Some g"
    using assms by (simp add: update_def)
  have 2: "handleInput deltaTime g = g"
    using assms by (simp add: handleInput_def)
  have 3: "KeyDown ''r'' \<notin> set es \<longrightarrow>
            (\<exists>g1. gameEvents rnd cv es g = Some g1 \<and> gameOver g1 \<and> g1\<lparr>keys := keys g\<rparr> = g)"
    using gameEvents_over [OF assms] by blast
  have 4: "keydown rnd cv ''r'' g = reset rnd cv (g\<lparr>keys := (keys g)(''r'' \<mapsto> True)\<rparr>)"
    using assms by (simp add: keydown_def Let_def)
  have 5: "\<forall>g'. keydown rnd cv ''r'' g = Some g' \<longrightarrow>
            \<not> gameOver g' \<and> score g' = 0 \<and> lives g' = 5 \<and> bullets g' = []"
    using reset_fields by (simp only: 4) blast
  from 1 2 3 4 5 show ?thesis by blast
qed

lemma gameEnded_fields: "gameOver gameEnded \<and> keys gameEnded = Map.empty"
  by (simp add: gameEnded_def game0_def)

theorem C9_game_over_frozen_witness:
  "update rnd0 cv0 (1 / 50) gameEnded = Some gameEnded \<and>
   handleInput (1 / 50) gameEnded = gameEnded \<and>
   gameEvents rnd0 cv0 [Frame (1 / 50), KeyDown ''w'', Frame (1 / 50), KeyUp ''w''] gameEnded =
     Some (gameEnded\<lparr>keys := [''w'' \<mapsto> False]\<rparr>) \<and>
   (\<exists>g'. keydown rnd0 cv0 ''r'' gameEnded = Some g' \<and> \<not> gameOver g' \<and> lives g' = 5)"
proof -
  have o: "gameOver gameEnded" by (simp add: gameEnded_fields)
  note inst = C9_game_over_frozen [OF o, of rnd0 cv0 "1 / 50"
      "[Frame (1 / 50), KeyDown ''w'', Frame (1 / 50), KeyUp ''w'']"]
  have ne: "KeyDown ''r'' \<notin> set [Frame (1 / 50), KeyDown ''w'', Frame (1 / 50), KeyUp ''w'']"
    by simp
  from inst ne obtain g1 where
    e: "gameEvents rnd0 cv0 [Frame (1 / 50), KeyDown ''w'', Frame (1 / 50), KeyUp ''w''] gameEnded = Some g1"
    and k: "g1\<lparr>keys := keys gameEnded\<rparr> = gameEnded"
    by blast
  have ev: "gameEvents rnd0 cv0 [Frame (1 / 50), KeyDown ''w'', Frame (1 / 50), KeyUp ''w''] gameEnded =
     Some (gameEnded\<lparr>keys := [''w'' \<mapsto> False]\<rparr>)"
    by (simp add: update_def keydown_def keyup_def Let_def gameEnded_fields)
  have "keepsFar rnd0 cv0 (position (ship (gameEnded\<lparr>keys := (keys gameEnded)(''r'' \<mapsto> True),
                  ship := Ship_new (real (width cv0) / 2) (real (height cv0) / 2),
                  bullets := [], asteroids := [], score := 0, lives := 5, gameOver := False,
                  canShoot := True, shootCooldown := 0\<rparr>)))"
    using keepsFar_rnd0 by (simp add: cv0_def Ship_new_def)
  from spawnAsteroids_returns [OF this, of 5]
  obtain g2 where "reset rnd0 cv0 (gameEnded\<lparr>keys := (keys gameEnded)(''r'' \<mapsto> True)\<rparr>) = Some g2"
    by (auto simp add: reset_def Let_def)
  with inst have r: "\<exists>g'. keydown rnd0 cv0 ''r'' gameEnded = Some g' \<and> \<not> gameOver g' \<and> lives g' = 5"
    by simp
  from inst ev r show ?thesis by blast
qed

subsection \<open>Invariants of a running game\<close>

lemma knownSize_spawnAsteroids:
  assumes "spawnAsteroids rnd cv n g = Some g'" and "list_all knownSize (asteroids g)"
  shows "list_all knownSize (asteroids g')"
proof -
  from spawnAsteroids_result [OF assms(1)] obtain new where
    "asteroids g' = asteroids g @ new" "\<forall>a \<in> set new. freshWave (position (ship g)) a"
    by blast
  with assms(2) show ?thesis
    by (auto simp add: list_all_iff freshWave_def knownSize_def)
qed

lemma gameInv_advance:
  assumes "gameInv g"
  shows "gameInv (advance rnd cv deltaTime g)"
proof -
  let ?h = "handleInput deltaTime g"
  let ?m = "moved cv deltaTime ?h"
  let ?b = "bulletLoop rnd (length (bullets ?m)) ?m"
  from assms have s: "0 \<le> score g" and k: "list_all knownSize (asteroids g)"
    by (simp_all add: gameInv_def)
  have "score g \<le> score (advance rnd cv deltaTime g)" by (rule score_advance)
  with s have 1: "0 \<le> score (advance rnd cv deltaTime g)" by linarith
  have "list_all knownSize (asteroids ?m)"
    using k by (simp add: moved_def handleInput_frame list_all_iff knownSize_Asteroid_update)
  then have "list_all knownSize (asteroids ?b)" by (rule knownSize_bulletLoop)
  then have 3: "list_all knownSize (asteroids (advance rnd cv deltaTime g))"
    by (simp add: advance_moved checkCollisions_def shipCollisions_lists)
  from 1 3 show ?thesis by (simp add: gameInv_def)
qed

lemma gameInv_spawnAsteroids:
  assumes "spawnAsteroids rnd cv n g = Some g'" and "gameInv g"
  shows "gameInv g'"
  using spawnAsteroids_frame [OF assms(1)] knownSize_spawnAsteroids [OF assms(1)] assms(2)
  by (simp add: gameInv_def)

lemma gameInv_update:
  assumes "update rnd cv deltaTime g = Some g'" and "gameInv g"
  shows "gameInv g'"
proof (cases "gameOver g")
  case True
  with assms show ?thesis by (simp add: update_def)
next
  case False
  have a: "gameInv (advance rnd cv deltaTime g)" using assms(2) by (rule gameInv_advance)
  show ?thesis
  proof (cases "length (asteroids (advance rnd cv deltaTime g)) = 0")
    case True
    with False assms(1)
    have "spawnAsteroids rnd cv (nat (waveSize (score (advance rnd cv deltaTime g))))
        (advance rnd cv deltaTime g) = Some g'"
      by (simp add: update_def Let_def)
    then show ?thesis using a by (rule gameInv_spawnAsteroids)
  next
    case nonempty: False
    with False assms(1) have "g' = advance rnd cv deltaTime g"
      by (simp add: update_def Let_def)
    with a show ?thesis by simp
  qed
qed

lemma gameInv_reset:
  assumes "reset rnd cv g = Some g'"
  shows "gameInv g'"
proof -
  let ?g1 = "g\<lparr>ship := Ship_new (real (width cv) / 2) (real (height cv) / 2),
                  bullets := [], asteroids := [], score := 0, lives := 5, gameOver := False,
                  canShoot := True, shootCooldown := 0\<rparr>"
  from assms obtain g2 where sp: "spawnAsteroids rnd cv 5 ?g1 = Some g2"
    and g': "g' = (updateUI g2)\<lparr>gameOverScreenHidden := True\<rparr>"
    by (auto simp add: reset_def Let_def split: option.splits)
  have "gameInv ?g1" by (simp add: gameInv_def)
  with sp have "gameInv g2" by (rule gameInv_spawnAsteroids)
  then show ?thesis by (simp add: g' gameInv_def updateUI_def)
qed

lemma gameInv_gameEvent:
  assumes "gameEvent rnd cv e g = Some g'" and "gameInv g"
  shows "gameInv g'"
proof (cases e)
  case (Frame deltaTime)
  with assms show ?thesis by (simp add: gameInv_update)
next
  case (KeyDown k)
  show ?thesis
  proof (cases "k = ''r'' \<and> gameOver g")
    case True
    with KeyDown assms(1) have "reset rnd cv (g\<lparr>keys := (keys g)(k \<mapsto> True)\<rparr>) = Some g'"
      by (simp add: keydown_def Let_def)
    then show ?thesis by (rule gameInv_reset)
  next
    case False
    with KeyDown assms(1) have "g' = g\<lparr>keys := (keys g)(k \<mapsto> True)\<rparr>"
      by (auto simp add: keydown_def Let_def)
    with assms(2) show ?thesis by (simp add: gameInv_def)
  qed
next
  case (KeyUp k)
  with assms show ?thesis by (auto simp add: keyup_def gameInv_def)
qed

lemma gameInv_gameEvents:
  "gameEvents rnd cv es g = Some g' \<Longrightarrow> gameInv g \<Longrightarrow> gameInv g'"
proof (induction es arbitrary: g)
  case Nil
  then show ?case by simp
next
  case (Cons e es)
  from Cons.prems(1) obtain g1 where 1: "gameEvent rnd cv e g = Some g1"
    and 2: "gameEvents rnd cv es g1 = Some g'"
    by (auto split: option.splits)
  from 1 Cons.prems(2) have "gameInv g1" by (rule gameInv_gameEvent)
  with 2 show ?case by (rule Cons.IH)
qed

text \<open>
  From \<^verbatim>\<open>reset\<close> on, through any frames and key events: the score is at least \<open>0\<close>, and
  every asteroid is large, medium or small.
\<close>

lemma game_invariants:
  assumes "reset rnd cv g = Some g1" and "gameEvents rnd cv es g1 = Some g2"
  shows "0 \<le> score g2 \<and> list_all knownSize (asteroids g2)"
  using gameInv_gameEvents [OF assms(2) gameInv_reset [OF assms(1)]]
  by (simp add: gameInv_def)

end
